(* ===== verification/Prelude.thy ===== *)
theory Prelude
  imports Main "HOL-Library.Word" "HOL-Library.List_Lexorder" "HOL-Library.Char_ord"
    "HOL-Library.Product_Lexorder" "HOL-Library.Sorting_Algorithms"
begin

text \<open>
  The vocabulary shared by every component: Rust's \<open>Result\<close> with its \<open>?\<close> operator,
  \<open>&mut self\<close> methods as state passing, and checked machine arithmetic at the source's widths.

  Conventions.
  \<^item> A fallible function returns \<open>('e, 'a) res\<close>: \<open>Ok\<close>, \<open>Err\<close>, or \<open>Panic\<close>, which stands for a
    Rust panic and for a loop that does not return.
  \<^item> A \<open>&mut self\<close> method returns the result paired with the state it leaves behind, also on the
    error paths: Rust keeps the mutations made before an early return.
  \<^item> \<open>u16\<close>, \<open>u32\<close>, \<open>u64\<close>, \<open>u128\<close> are words of that width, \<open>i64\<close> is an \<open>int\<close> that is only
    compared and printed, and \<open>usize\<close> is \<open>nat\<close>.
  \<^item> A Rust \<open>String\<close> is the list of its UTF-8 bytes, ordered bytewise as \<open>str::cmp\<close> does.
\<close>

named_theorems res_simps \<open>equations that unfold a chain of early returns\<close>
named_theorems checked_simps \<open>characterisations of the checked word operations\<close>
named_theorems ascii_simps \<open>facts about ASCII case folding and byte classes\<close>

type_synonym u8 = "8 word"
type_synonym u16 = "16 word"
type_synonym u32 = "32 word"
type_synonym u64 = "64 word"
type_synonym u128 = "128 word"
type_synonym bytes = "u8 list"

type_synonym Sats = u64
type_synonym Score = u128

section \<open>Results\<close>

datatype ('e, 'a) res = Ok 'a | Err 'e | Panic

fun bindR :: "('e, 'a) res \<Rightarrow> ('a \<Rightarrow> ('e, 'b) res) \<Rightarrow> ('e, 'b) res" where
  "bindR (Ok a) k = k a"
| "bindR (Err e) k = Err e"
| "bindR Panic k = Panic"

fun map_err :: "('e \<Rightarrow> 'f) \<Rightarrow> ('e, 'a) res \<Rightarrow> ('f, 'a) res" where
  "map_err f (Ok a) = Ok a"
| "map_err f (Err e) = Err (f e)"
| "map_err f Panic = Panic"

fun is_ok :: "('e, 'a) res \<Rightarrow> bool" where
  "is_ok (Ok a) = True"
| "is_ok (Err e) = False"
| "is_ok Panic = False"

fun ok_or :: "'e \<Rightarrow> 'a option \<Rightarrow> ('e, 'a) res" where
  "ok_or e (Some a) = Ok a"
| "ok_or e None = Err e"

fun expect :: "'a option \<Rightarrow> ('e, 'a) res" where
  "expect (Some a) = Ok a"
| "expect None = Panic"

definition ensure :: "bool \<Rightarrow> 'e \<Rightarrow> ('e, unit) res" where
  "ensure c e = (if c then Ok () else Err e)"

text \<open>A block of guards \<open>g1?; g2?; ...; Ok(())\<close>: the first one that fails decides.\<close>

fun checks :: "('e, unit) res list \<Rightarrow> ('e, unit) res" where
  "checks [] = Ok ()"
| "checks (r # rs) = bindR r (\<lambda>_. checks rs)"

text \<open>A \<open>for\<close> loop whose body may return early, \<open>collect::<Result<Vec<_>, _>>\<close> and \<open>try_fold\<close>.\<close>

fun try_each :: "('a \<Rightarrow> ('e, unit) res) \<Rightarrow> 'a list \<Rightarrow> ('e, unit) res" where
  "try_each f [] = Ok ()"
| "try_each f (x # xs) = bindR (f x) (\<lambda>_. try_each f xs)"

fun try_map :: "('a \<Rightarrow> ('e, 'b) res) \<Rightarrow> 'a list \<Rightarrow> ('e, 'b list) res" where
  "try_map f [] = Ok []"
| "try_map f (x # xs) = bindR (f x) (\<lambda>y. bindR (try_map f xs) (\<lambda>ys. Ok (y # ys)))"

fun try_fold :: "('s \<Rightarrow> 'a \<Rightarrow> ('e, 's) res) \<Rightarrow> 's \<Rightarrow> 'a list \<Rightarrow> ('e, 's) res" where
  "try_fold f s [] = Ok s"
| "try_fold f s (x # xs) = bindR (f s x) (\<lambda>s'. try_fold f s' xs)"

lemma bindR_Ok_iff [res_simps]: "bindR r k = Ok b \<longleftrightarrow> (\<exists>a. r = Ok a \<and> k a = Ok b)"
  by (cases r) auto

lemma if_Err_Ok_iff [res_simps]: "(if c then Err e else r) = Ok a \<longleftrightarrow> \<not> c \<and> r = Ok a"
  by simp

lemma bindR_Err_iff: "bindR r k = Err e \<longleftrightarrow> r = Err e \<or> (\<exists>a. r = Ok a \<and> k a = Err e)"
  by (cases r) auto

lemma bindR_Panic_iff: "bindR r k = Panic \<longleftrightarrow> r = Panic \<or> (\<exists>a. r = Ok a \<and> k a = Panic)"
  by (cases r) auto

lemma bindR_assoc: "bindR (bindR r k) l = bindR r (\<lambda>a. bindR (k a) l)"
  by (cases r) auto

lemma map_err_Ok_iff [res_simps]: "map_err f r = Ok a \<longleftrightarrow> r = Ok a"
  by (cases r) auto

lemma map_err_Panic_iff: "map_err f r = Panic \<longleftrightarrow> r = Panic"
  by (cases r) auto

lemma ok_or_Ok_iff [res_simps]: "ok_or e x = Ok a \<longleftrightarrow> x = Some a"
  by (cases x) auto

lemma ok_or_not_Panic [simp]: "ok_or e x \<noteq> Panic"
  by (cases x) auto

lemma expect_Ok_iff [res_simps]: "expect x = Ok a \<longleftrightarrow> x = Some a"
  by (cases x) auto

lemma ensure_Ok_iff [res_simps]: "ensure c e = Ok u \<longleftrightarrow> c"
  by (simp add: ensure_def)

lemma ensure_not_Panic [simp]: "ensure c e \<noteq> Panic"
  by (simp add: ensure_def)

lemma checks_Ok_iff: "checks rs = Ok u \<longleftrightarrow> (\<forall>r \<in> set rs. r = Ok ())"
  by (induction rs) (auto simp: res_simps)

lemma try_each_Ok_iff [res_simps]: "try_each f xs = Ok u \<longleftrightarrow> (\<forall>x \<in> set xs. f x = Ok ())"
  by (induction xs) (auto simp: res_simps)

lemma try_each_not_Panic: "(\<And>x. x \<in> set xs \<Longrightarrow> f x \<noteq> Panic) \<Longrightarrow> try_each f xs \<noteq> Panic"
  by (induction xs) (auto simp: bindR_Panic_iff)

lemma try_map_Ok_iff [res_simps]:
  "try_map f xs = Ok ys \<longleftrightarrow> list_all2 (\<lambda>x y. f x = Ok y) xs ys"
  by (induction xs arbitrary: ys) (auto simp: res_simps list_all2_Cons1)

lemma try_map_not_Panic: "(\<And>x. x \<in> set xs \<Longrightarrow> f x \<noteq> Panic) \<Longrightarrow> try_map f xs \<noteq> Panic"
  by (induction xs) (auto simp: bindR_Panic_iff)

lemma list_all2_member: "list_all2 P xs ys \<Longrightarrow> y \<in> set ys \<Longrightarrow> \<exists>x \<in> set xs. P x y"
  by (induction rule: list_all2_induct) auto

lemma try_fold_append:
  "try_fold f s (xs @ ys) = bindR (try_fold f s xs) (\<lambda>s'. try_fold f s' ys)"
  by (induction xs arbitrary: s) (auto simp: bindR_assoc)

text \<open>An invariant of the accumulator of a \<open>try_fold\<close>.\<close>

lemma try_fold_invariant:
  assumes "try_fold f s xs = Ok s'" and "I s"
    and "\<And>s x t. x \<in> set xs \<Longrightarrow> I s \<Longrightarrow> f s x = Ok t \<Longrightarrow> I t"
  shows "I s'"
  using assms
proof (induction xs arbitrary: s)
  case Nil
  then show ?case by simp
next
  case (Cons x xs)
  then obtain t where "f s x = Ok t" and t: "try_fold f t xs = Ok s'"
    by (auto simp: res_simps)
  with Cons.prems(2,3) have "I t" by (auto intro: Cons.prems(3) [of x s])
  with t Cons.prems(3) show ?case by (intro Cons.IH [OF t]) auto
qed

section \<open>Methods that mutate their state\<close>

type_synonym ('s, 'e, 'a) act = "'s \<Rightarrow> ('e, 'a) res \<times> 's"

definition retA :: "'a \<Rightarrow> ('s, 'e, 'a) act" where
  "retA a s = (Ok a, s)"

definition throwA :: "'e \<Rightarrow> ('s, 'e, 'a) act" where
  "throwA e s = (Err e, s)"

definition bindA :: "('s, 'e, 'a) act \<Rightarrow> ('a \<Rightarrow> ('s, 'e, 'b) act) \<Rightarrow> ('s, 'e, 'b) act" where
  "bindA m k s = (case m s of (Ok a, s') \<Rightarrow> k a s' | (Err e, s') \<Rightarrow> (Err e, s') | (Panic, s') \<Rightarrow> (Panic, s'))"

text \<open>A check that reads the state and leaves it alone, and an infallible update of it.\<close>

definition readA :: "('s \<Rightarrow> ('e, 'a) res) \<Rightarrow> ('s, 'e, 'a) act" where
  "readA f s = (f s, s)"

definition modifyA :: "('s \<Rightarrow> 's) \<Rightarrow> ('s, 'e, unit) act" where
  "modifyA f s = (Ok (), f s)"

lemma bindA_Ok_iff [res_simps]:
  "bindA m k s = (Ok b, t) \<longleftrightarrow> (\<exists>a s'. m s = (Ok a, s') \<and> k a s' = (Ok b, t))"
  by (auto simp: bindA_def split: prod.splits res.splits)

lemma bindA_Err_iff:
  "bindA m k s = (Err e, t) \<longleftrightarrow>
     m s = (Err e, t) \<or> (\<exists>a s'. m s = (Ok a, s') \<and> k a s' = (Err e, t))"
  by (auto simp: bindA_def split: prod.splits res.splits)

lemma readA_iff [res_simps]: "readA f s = (r, t) \<longleftrightarrow> f s = r \<and> t = s"
  by (auto simp: readA_def)

lemma modifyA_iff [res_simps]: "modifyA f s = (r, t) \<longleftrightarrow> r = Ok () \<and> t = f s"
  by (auto simp: modifyA_def)

lemma retA_iff [res_simps]: "retA a s = (r, t) \<longleftrightarrow> r = Ok a \<and> t = s"
  by (auto simp: retA_def)

lemma throwA_iff [res_simps]: "throwA e s = (r, t) \<longleftrightarrow> r = Err e \<and> t = s"
  by (auto simp: throwA_def)

section \<open>Checked machine arithmetic\<close>

definition checked_add :: "'w::len word \<Rightarrow> 'w word \<Rightarrow> 'w word option" where
  "checked_add a b = (if unat a + unat b < 2 ^ LENGTH('w) then Some (a + b) else None)"

definition checked_sub :: "'w::len word \<Rightarrow> 'w word \<Rightarrow> 'w word option" where
  "checked_sub a b = (if b \<le> a then Some (a - b) else None)"

definition checked_mul :: "'w::len word \<Rightarrow> 'w word \<Rightarrow> 'w word option" where
  "checked_mul a b = (if unat a * unat b < 2 ^ LENGTH('w) then Some (a * b) else None)"

definition saturating_add :: "'w::len word \<Rightarrow> 'w word \<Rightarrow> 'w word" where
  "saturating_add a b = (if unat a + unat b < 2 ^ LENGTH('w) then a + b else - 1)"

definition saturating_sub :: "'w::len word \<Rightarrow> 'w word \<Rightarrow> 'w word" where
  "saturating_sub a b = (if b \<le> a then a - b else 0)"

text \<open>\<open>u64::try_from\<close> of a \<open>usize\<close> and \<open>u64::div_ceil\<close>.\<close>

definition u64_try_from :: "nat \<Rightarrow> u64 option" where
  "u64_try_from n = (if n < 2 ^ 64 then Some (of_nat n) else None)"

definition div_ceil :: "'w::len word \<Rightarrow> 'w word \<Rightarrow> 'w word" where
  "div_ceil a b = (let d = a div b; r = a mod b in if r > 0 then d + 1 else d)"

lemma unat_bound: "unat (w :: 'w::len word) < 2 ^ LENGTH('w)"
  by (rule unsigned_less)

lemma unat_bound64: "unat (w :: 64 word) < 2 ^ 64"
  by (rule order_less_le_trans [OF unsigned_less]) simp

lemma unat_bound128: "unat (w :: 128 word) < 2 ^ 128"
  by (rule order_less_le_trans [OF unsigned_less]) simp

lemma unat_pos_iff [simp]: "0 < unat w \<longleftrightarrow> w \<noteq> 0"
  by (metis gr0I less_irrefl unsigned_0 unsigned_word_eqI)

lemma unat_zero_iff [simp]: "unat w = 0 \<longleftrightarrow> w = 0"
  by (metis gr_zeroI unat_pos_iff unsigned_0)

lemma of_nat_unat_word [simp]: "of_nat (unat (w :: 'w::len word)) = w"
  by simp

lemma unat_of_nat_exact: "n < 2 ^ LENGTH('w) \<Longrightarrow> unat (of_nat n :: 'w::len word) = n"
  by (simp add: unat_of_nat take_bit_eq_mod)

lemma unat_widen: "unat (ucast (w :: u64) :: u128) = unat w"
  using unat_bound64 [of w] by (simp add: unsigned_ucast_eq take_bit_eq_mod)

lemma unat_narrow: "unat w < 2 ^ 64 \<Longrightarrow> unat (ucast (w :: u128) :: u64) = unat w"
  by (simp add: unsigned_ucast_eq take_bit_eq_mod)

lemma unat_add_exact:
  fixes a b :: "'w::len word"
  shows "unat a + unat b < 2 ^ LENGTH('w) \<Longrightarrow> unat (a + b) = unat a + unat b"
  by (simp add: unat_word_ariths)

lemma unat_add_of_nat:
  fixes a :: "'w::len word"
  shows "unat a + n < 2 ^ LENGTH('w) \<Longrightarrow> unat (a + of_nat n) = unat a + n"
  by (subst unat_add_exact) (simp_all add: unat_of_nat_exact)

lemma unat_mul_exact:
  fixes a b :: "'w::len word"
  shows "unat a * unat b < 2 ^ LENGTH('w) \<Longrightarrow> unat (a * b) = unat a * unat b"
  by (simp add: unat_word_ariths)

lemma unat_sub_exact:
  fixes a b :: "'w::len word"
  shows "b \<le> a \<Longrightarrow> unat (a - b) = unat a - unat b"
  by (simp add: unat_sub)

lemma unat_div_ceil_2:
  fixes w :: "'w::len word"
  assumes "2 < LENGTH('w)"
  shows "unat (div_ceil w 2) = (unat w + 1) div 2"
proof -
  have len: "(4 :: nat) \<le> 2 ^ LENGTH('w)" using power_increasing [of 2 "LENGTH('w)" "2 :: nat"] assms by simp
  have two: "unat (2 :: 'w word) = 2" using len unat_of_nat_exact [of 2, where 'w = 'w] by simp
  have d: "unat (w div 2) = unat w div 2" by (simp only: unat_div two)
  have m: "unat (w mod 2) = unat w mod 2" by (simp only: unat_mod two)
  show ?thesis
  proof (cases "even (unat w)")
    case True
    then have "w mod 2 = 0" using m by (metis even_iff_mod_2_eq_zero unat_zero_iff)
    then show ?thesis using d True by (simp add: div_ceil_def)
  next
    case False
    then have "0 < w mod 2" using m by (metis odd_iff_mod_2_eq_one unat_zero_iff word_neq_0_conv zero_neq_one)
    moreover have "unat w div 2 + 1 < 2 ^ LENGTH('w)" using len unat_bound [of w] by linarith
    then have "unat (w div 2 + 1) = unat w div 2 + 1"
      using d unat_add_of_nat [of "w div 2" 1] by simp
    ultimately show ?thesis using False by (simp add: div_ceil_def)
  qed
qed

lemma unat_eq_word: "unat (a :: 'w::len word) = unat b \<Longrightarrow> a = b"
  by (simp add: word_unat_eq_iff)

lemma checked_add_Some_iff [checked_simps]:
  "checked_add a b = Some c \<longleftrightarrow> unat c = unat a + unat b"
proof
  assume "checked_add a b = Some c"
  then show "unat c = unat a + unat b"
    by (auto simp: checked_add_def unat_add_exact split: if_splits)
next
  assume eq: "unat c = unat a + unat b"
  then have lt: "unat a + unat b < 2 ^ LENGTH('a)" using unat_bound [of c] by (simp only:)
  then have "unat (a + b) = unat c" using eq by (simp add: unat_add_exact)
  then have "a + b = c" by (rule unat_eq_word)
  with lt show "checked_add a b = Some c" by (simp add: checked_add_def)
qed

lemma checked_add_None_iff [checked_simps]:
  "checked_add (a :: 'w::len word) b = None \<longleftrightarrow> 2 ^ LENGTH('w) \<le> unat a + unat b"
  by (auto simp: checked_add_def)

lemma checked_mul_Some_iff [checked_simps]:
  "checked_mul a b = Some c \<longleftrightarrow> unat c = unat a * unat b"
proof
  assume "checked_mul a b = Some c"
  then show "unat c = unat a * unat b"
    by (auto simp: checked_mul_def unat_mul_exact split: if_splits)
next
  assume eq: "unat c = unat a * unat b"
  then have lt: "unat a * unat b < 2 ^ LENGTH('a)" using unat_bound [of c] by (simp only:)
  then have "unat (a * b) = unat c" using eq by (simp add: unat_mul_exact)
  then have "a * b = c" by (rule unat_eq_word)
  with lt show "checked_mul a b = Some c" by (simp add: checked_mul_def)
qed

lemma checked_mul_None_iff [checked_simps]:
  "checked_mul (a :: 'w::len word) b = None \<longleftrightarrow> 2 ^ LENGTH('w) \<le> unat a * unat b"
  by (auto simp: checked_mul_def)

lemma checked_sub_Some_iff [checked_simps]:
  "checked_sub a b = Some c \<longleftrightarrow> unat a = unat b + unat c"
proof
  assume "checked_sub a b = Some c"
  then show "unat a = unat b + unat c"
    by (auto simp: checked_sub_def unat_sub_exact word_le_nat_alt split: if_splits)
next
  assume eq: "unat a = unat b + unat c"
  then have le: "b \<le> a" by (simp add: word_le_nat_alt)
  then have "unat (a - b) = unat c" using eq by (simp add: unat_sub_exact)
  then have "a - b = c" by (rule unat_eq_word)
  with le show "checked_sub a b = Some c" by (simp add: checked_sub_def)
qed

lemma u64_try_from_Some_iff [checked_simps]: "u64_try_from n = Some w \<longleftrightarrow> unat w = n"
proof
  assume "u64_try_from n = Some w"
  then show "unat w = n"
    by (auto simp: u64_try_from_def unat_of_nat take_bit_eq_mod split: if_splits)
next
  assume "unat w = n"
  then show "u64_try_from n = Some w" using unat_bound64 [of w] by (auto simp: u64_try_from_def)
qed

lemma checked_sub_None_iff [checked_simps]:
  "checked_sub a b = None \<longleftrightarrow> unat a < unat b"
  by (auto simp: checked_sub_def word_le_nat_alt)

text \<open>Equations for evaluation, on \<open>int\<close> instead of \<open>nat\<close>.\<close>

lemma unat_less_uint:
  fixes m :: nat
  shows "m < 2 ^ LENGTH('w::len) \<longleftrightarrow> int m < 2 ^ LENGTH('w)"
  by (metis of_nat_less_iff of_nat_numeral of_nat_power)

lemma checked_add_code [code]:
  "checked_add (a :: 'w::len word) b = (if uint a + uint b < 2 ^ LENGTH('w) then Some (a + b) else None)"
  by (simp add: checked_add_def unat_less_uint)

lemma checked_mul_code [code]:
  "checked_mul (a :: 'w::len word) b = (if uint a * uint b < 2 ^ LENGTH('w) then Some (a * b) else None)"
  by (simp add: checked_mul_def unat_less_uint)

lemma u64_try_from_code [code]:
  "u64_try_from n = (if int n < 2 ^ 64 then Some (of_int (int n)) else None)"
  by (simp add: u64_try_from_def)

lemma saturating_add_code [code]:
  "saturating_add (a :: 'w::len word) b = (if uint a + uint b < 2 ^ LENGTH('w) then a + b else - 1)"
  by (simp add: saturating_add_def unat_less_uint)

end
