(* ===== verification/Ascii.thy ===== *)
theory Ascii
  imports Prelude
begin

text \<open>
  The byte-string operations of Rust's standard library that the sources use: ASCII classes and
  case folding (\<open>to_ascii_lowercase\<close>, \<open>eq_ignore_ascii_case\<close>), \<open>strip_prefix\<close>, \<open>split\<close>,
  \<open>join\<close>, and decimal formatting and parsing of integers, with their round trips.
\<close>

section \<open>Byte classes\<close>

definition code :: "char \<Rightarrow> nat" where
  "code c = of_char c"

definition is_ascii_digit :: "char \<Rightarrow> bool" where
  "is_ascii_digit c \<longleftrightarrow> 48 \<le> code c \<and> code c \<le> 57"

definition is_ascii_lowercase :: "char \<Rightarrow> bool" where
  "is_ascii_lowercase c \<longleftrightarrow> 97 \<le> code c \<and> code c \<le> 122"

definition is_ascii_uppercase :: "char \<Rightarrow> bool" where
  "is_ascii_uppercase c \<longleftrightarrow> 65 \<le> code c \<and> code c \<le> 90"

definition is_ascii_alphanumeric :: "char \<Rightarrow> bool" where
  "is_ascii_alphanumeric c \<longleftrightarrow> is_ascii_digit c \<or> is_ascii_lowercase c \<or> is_ascii_uppercase c"

definition is_ascii_hexdigit :: "char \<Rightarrow> bool" where
  "is_ascii_hexdigit c \<longleftrightarrow>
     is_ascii_digit c \<or> (97 \<le> code c \<and> code c \<le> 102) \<or> (65 \<le> code c \<and> code c \<le> 70)"

definition is_ascii_control :: "char \<Rightarrow> bool" where
  "is_ascii_control c \<longleftrightarrow> code c < 32 \<or> code c = 127"

lemmas class_defs = is_ascii_digit_def is_ascii_lowercase_def is_ascii_uppercase_def
  is_ascii_alphanumeric_def is_ascii_hexdigit_def is_ascii_control_def

lemma code_bound [simp]: "code c < 256"
  by (simp add: code_def of_char_def)

lemma code_char_of [simp]: "code (char_of n) = n mod 256"
  by (simp add: code_def)

lemma char_of_code [simp]: "char_of (code c) = c"
  by (simp add: code_def)

lemma code_inject [simp]: "code c = code d \<longleftrightarrow> c = d"
  by (metis char_of_code)

section \<open>Case folding\<close>

definition ascii_lower :: "char \<Rightarrow> char" where
  "ascii_lower c = (if is_ascii_uppercase c then char_of (code c + 32) else c)"

definition ascii_upper :: "char \<Rightarrow> char" where
  "ascii_upper c = (if is_ascii_lowercase c then char_of (code c - 32) else c)"

text \<open>Equations for evaluation, on the bits of a byte.\<close>

lemma digit_bits [code]: "is_ascii_digit (Char b0 b1 b2 b3 b4 b5 b6 b7) \<longleftrightarrow>
    \<not> b7 \<and> \<not> b6 \<and> b5 \<and> b4 \<and> \<not> (b3 \<and> (b2 \<or> b1))"
  by (cases b0; cases b1; cases b2; cases b3; cases b4; cases b5; cases b6; cases b7)
    (simp_all add: is_ascii_digit_def code_def)

lemma upper_bits [code]: "is_ascii_uppercase (Char b0 b1 b2 b3 b4 b5 b6 b7) \<longleftrightarrow>
    \<not> b7 \<and> b6 \<and> \<not> b5 \<and> (b4 \<or> b3 \<or> b2 \<or> b1 \<or> b0) \<and> \<not> (b4 \<and> b3 \<and> (b2 \<or> b1 \<and> b0))"
  by (cases b0; cases b1; cases b2; cases b3; cases b4; cases b5; cases b6; cases b7)
    (simp_all add: is_ascii_uppercase_def code_def)

lemma lower_bits [code]: "is_ascii_lowercase (Char b0 b1 b2 b3 b4 b5 b6 b7) \<longleftrightarrow>
    \<not> b7 \<and> b6 \<and> b5 \<and> (b4 \<or> b3 \<or> b2 \<or> b1 \<or> b0) \<and> \<not> (b4 \<and> b3 \<and> (b2 \<or> b1 \<and> b0))"
  by (cases b0; cases b1; cases b2; cases b3; cases b4; cases b5; cases b6; cases b7)
    (simp_all add: is_ascii_lowercase_def code_def)

lemma hexdigit_bits [code]: "is_ascii_hexdigit (Char b0 b1 b2 b3 b4 b5 b6 b7) \<longleftrightarrow>
    \<not> b7 \<and> (if b6 then \<not> b4 \<and> \<not> b3 \<and> (b2 \<or> b1 \<or> b0) \<and> \<not> (b2 \<and> b1 \<and> b0)
      else b5 \<and> b4 \<and> \<not> (b3 \<and> (b2 \<or> b1)))"
  by (cases b0; cases b1; cases b2; cases b3; cases b4; cases b5; cases b6; cases b7)
    (simp_all add: is_ascii_hexdigit_def is_ascii_digit_def code_def)

lemma ascii_lower_bits [code]: "ascii_lower (Char b0 b1 b2 b3 b4 b5 b6 b7) =
    Char b0 b1 b2 b3 b4 (b5 \<or> is_ascii_uppercase (Char b0 b1 b2 b3 b4 b5 b6 b7)) b6 b7"
  by (cases b0; cases b1; cases b2; cases b3; cases b4; cases b5; cases b6; cases b7)
    (simp_all add: ascii_lower_def is_ascii_uppercase_def code_def char_of_def bit_0)

definition to_ascii_lowercase :: "string \<Rightarrow> string" where
  "to_ascii_lowercase s = map ascii_lower s"

definition to_ascii_uppercase :: "string \<Rightarrow> string" where
  "to_ascii_uppercase s = map ascii_upper s"

definition eq_ignore_ascii_case :: "string \<Rightarrow> string \<Rightarrow> bool" where
  "eq_ignore_ascii_case s t \<longleftrightarrow> to_ascii_lowercase s = to_ascii_lowercase t"

lemma code_ascii_lower: "code (ascii_lower c) = (if is_ascii_uppercase c then code c + 32 else code c)"
  by (auto simp: ascii_lower_def class_defs)

lemma ascii_lower_not_upper [simp]: "\<not> is_ascii_uppercase (ascii_lower c)"
  unfolding is_ascii_uppercase_def code_ascii_lower by auto

lemma ascii_lower_idem [simp]: "ascii_lower (ascii_lower c) = ascii_lower c"
  by (simp add: ascii_lower_def [of "ascii_lower c"])

lemma hexdigit_ascii_lower [ascii_simps, simp]: "is_ascii_hexdigit (ascii_lower c) = is_ascii_hexdigit c"
  by (auto simp: class_defs code_ascii_lower)

lemma alphanumeric_ascii_lower [ascii_simps, simp]:
  "is_ascii_alphanumeric (ascii_lower c) = is_ascii_alphanumeric c"
  by (auto simp: class_defs code_ascii_lower)

lemma ascii_lower_fix: "\<not> is_ascii_uppercase c \<Longrightarrow> ascii_lower c = c"
  by (simp add: ascii_lower_def)

lemma ascii_lower_digit: "is_ascii_digit c \<Longrightarrow> ascii_lower c = c"
  by (auto intro!: ascii_lower_fix simp: class_defs)

lemma ascii_lower_eq_punct:
  "\<not> is_ascii_lowercase d \<Longrightarrow> \<not> is_ascii_uppercase d \<Longrightarrow> ascii_lower c = d \<longleftrightarrow> c = d"
  using code_ascii_lower [of c] by (auto simp: ascii_lower_def class_defs split: if_splits)

lemma ascii_upper_idem [simp]: "ascii_upper (ascii_upper c) = ascii_upper c"
  by (auto simp: ascii_upper_def class_defs)

lemma lowercase_Nil [simp]: "to_ascii_lowercase [] = []"
  by (simp add: to_ascii_lowercase_def)

lemma lowercase_Nil_iff [simp]: "to_ascii_lowercase s = [] \<longleftrightarrow> s = []"
  by (simp add: to_ascii_lowercase_def)

lemma lowercase_append [simp]:
  "to_ascii_lowercase (s @ t) = to_ascii_lowercase s @ to_ascii_lowercase t"
  by (simp add: to_ascii_lowercase_def)

lemma lowercase_idem [simp]: "to_ascii_lowercase (to_ascii_lowercase s) = to_ascii_lowercase s"
  by (simp add: to_ascii_lowercase_def)

lemma uppercase_idem [simp]: "to_ascii_uppercase (to_ascii_uppercase s) = to_ascii_uppercase s"
  by (simp add: to_ascii_uppercase_def)

lemma length_lowercase [simp]: "length (to_ascii_lowercase s) = length s"
  by (simp add: to_ascii_lowercase_def)

lemma list_all_hexdigit_lowercase [simp]:
  "list_all is_ascii_hexdigit (to_ascii_lowercase s) = list_all is_ascii_hexdigit s"
  by (simp add: to_ascii_lowercase_def list.pred_map comp_def)

lemma lowercase_comp_idem [simp]: "to_ascii_lowercase \<circ> to_ascii_lowercase = to_ascii_lowercase"
  by (simp add: comp_def)

lemma lowercase_digits: "list_all is_ascii_digit s \<Longrightarrow> to_ascii_lowercase s = s"
  by (induction s) (auto simp: to_ascii_lowercase_def ascii_lower_digit)

lemma eq_ignore_ascii_case_refl [simp]: "eq_ignore_ascii_case s s"
  by (simp add: eq_ignore_ascii_case_def)

lemma eq_ignore_ascii_case_sym: "eq_ignore_ascii_case s t = eq_ignore_ascii_case t s"
  by (auto simp: eq_ignore_ascii_case_def)

lemma eq_ignore_ascii_case_lowercase [simp]:
  "eq_ignore_ascii_case (to_ascii_lowercase s) t = eq_ignore_ascii_case s t"
  "eq_ignore_ascii_case s (to_ascii_lowercase t) = eq_ignore_ascii_case s t"
  by (simp_all add: eq_ignore_ascii_case_def)

section \<open>Prefixes, splitting and joining\<close>

definition strip_prefix :: "string \<Rightarrow> string \<Rightarrow> string option" where
  "strip_prefix p s = (if take (length p) s = p then Some (drop (length p) s) else None)"

lemma strip_prefix_Some_iff [simp]: "strip_prefix p s = Some t \<longleftrightarrow> s = p @ t"
  by (auto simp: strip_prefix_def) (metis append_take_drop_id)

lemma strip_prefix_None_iff: "strip_prefix p s = None \<longleftrightarrow> (\<nexists>t. s = p @ t)"
  by (metis not_Some_eq strip_prefix_Some_iff)

lemma strip_prefix_append [simp]: "strip_prefix p (p @ t) = Some t"
  by simp

lemma strip_prefix_0x [simp]: "strip_prefix ''0x'' (CHR ''0'' # CHR ''x'' # t) = Some t"
  by simp

fun split_on :: "char \<Rightarrow> string \<Rightarrow> string list" where
  "split_on d [] = [[]]"
| "split_on d (c # cs) =
     (if c = d then [] # split_on d cs
      else (case split_on d cs of [] \<Rightarrow> [[c]] | f # fs \<Rightarrow> (c # f) # fs))"

fun join_with :: "char \<Rightarrow> string list \<Rightarrow> string" where
  "join_with d [] = []"
| "join_with d [f] = f"
| "join_with d (f # g # fs) = f @ d # join_with d (g # fs)"

lemma split_on_not_Nil [simp]: "split_on d s \<noteq> []"
  by (induction s) (auto split: list.splits)

lemma join_split [simp]: "join_with d (split_on d s) = s"
proof (induction s)
  case Nil
  show ?case by simp
next
  case (Cons c s)
  obtain f fs where fs: "split_on d s = f # fs" by (cases "split_on d s") auto
  with Cons show ?case by (cases fs) auto
qed

lemma split_on_field: "d \<notin> set f \<Longrightarrow> split_on d f = [f]"
  by (induction f) auto

lemma split_on_append: "d \<notin> set f \<Longrightarrow> split_on d (f @ d # s) = f # split_on d s"
  by (induction f) auto

lemma split_join:
  "fs \<noteq> [] \<Longrightarrow> \<forall>f \<in> set fs. d \<notin> set f \<Longrightarrow> split_on d (join_with d fs) = fs"
  by (induction d fs rule: join_with.induct) (auto simp: split_on_field split_on_append)

lemma set_join_with: "set (join_with d fs) \<subseteq> insert d (\<Union> (set ` set fs))"
  by (induction d fs rule: join_with.induct) auto

lemma join_with_Nil_iff: "\<forall>f \<in> set fs. f \<noteq> [] \<Longrightarrow> join_with d fs = [] \<longleftrightarrow> fs = []"
  by (induction d fs rule: join_with.induct) auto

section \<open>Decimal numerals\<close>

definition digit :: "nat \<Rightarrow> char" where
  "digit n = char_of (48 + n)"

text \<open>A literal between single quotes, as in messages.\<close>

definition quoted :: "string \<Rightarrow> string" where
  "quoted s = CHR 0x27 # s @ [CHR 0x27]"

text \<open>\<open>Display\<close> of a \<open>bool\<close>.\<close>

definition show_bool :: "bool \<Rightarrow> string" where
  "show_bool b = (if b then ''true'' else ''false'')"

fun dec :: "nat \<Rightarrow> string" where
  "dec n = (if n < 10 then [digit n] else dec (n div 10) @ [digit (n mod 10)])"

declare dec.simps [simp del]

fun digit_step :: "nat option \<Rightarrow> char \<Rightarrow> nat option" where
  "digit_step None c = None"
| "digit_step (Some n) c = (if is_ascii_digit c then Some (10 * n + (code c - 48)) else None)"

definition parse_digits :: "string \<Rightarrow> nat option" where
  "parse_digits s = (if s = [] then None else foldl digit_step (Some 0) s)"

lemma code_digit: "n < 10 \<Longrightarrow> code (digit n) = 48 + n"
  by (simp add: digit_def)

lemma digit_is_digit [simp]: "n < 10 \<Longrightarrow> is_ascii_digit (digit n)"
  by (simp add: is_ascii_digit_def code_digit)

lemma digit_of_code: "is_ascii_digit c \<Longrightarrow> digit (code c - 48) = c"
  by (auto simp: digit_def is_ascii_digit_def)

lemma dec_not_Nil [simp]: "dec n \<noteq> []"
  by (subst dec.simps) simp

lemma dec_digits: "list_all is_ascii_digit (dec n)"
proof (induction n rule: dec.induct)
  case (1 n)
  then show ?case by (subst dec.simps) auto
qed

lemma foldl_digit_None [simp]: "foldl digit_step None s = None"
  by (induction s) auto

lemma foldl_digit_dec: "foldl digit_step (Some 0) (dec n) = Some n"
proof (induction n rule: dec.induct)
  case (1 n)
  show ?case
  proof (cases "n < 10")
    case True
    then show ?thesis by (subst dec.simps) (simp add: code_digit)
  next
    case False
    with 1 show ?thesis
      by (subst dec.simps) (simp add: code_digit)
  qed
qed

lemma parse_digits_dec [simp]: "parse_digits (dec n) = Some n"
  by (simp add: parse_digits_def foldl_digit_dec)

lemma dec_inject [simp]: "dec m = dec n \<longleftrightarrow> m = n"
  by (metis option.inject parse_digits_dec)

lemma hd_dec_pos: "0 < n \<Longrightarrow> hd (dec n) \<noteq> CHR ''0''"
proof (induction n rule: dec.induct)
  case (1 n)
  show ?case
  proof (cases "n < 10")
    case True
    with 1 have "code (digit n) \<noteq> code (CHR ''0'')" by (simp add: code_digit) (simp add: code_def)
    with True show ?thesis by (subst dec.simps) auto
  next
    case False
    then have "hd (dec n) = hd (dec (n div 10))" by (subst dec.simps) simp
    with 1 False show ?thesis by simp
  qed
qed

lemma length_dec: "n < 10 ^ k \<Longrightarrow> 0 < k \<Longrightarrow> length (dec n) \<le> k"
proof (induction k arbitrary: n)
  case 0
  then show ?case by simp
next
  case (Suc k)
  show ?case
  proof (cases "n < 10")
    case True
    then show ?thesis by (subst dec.simps) simp
  next
    case False
    have "n div 10 < 10 ^ k" using Suc.prems(1) by (simp add: less_mult_imp_div_less mult.commute)
    moreover have "0 < k" using False Suc.prems(1) by (cases k) auto
    ultimately have "length (dec (n div 10)) \<le> k" by (rule Suc.IH)
    with False show ?thesis by (subst dec.simps) simp
  qed
qed

text \<open>A digit string without a leading zero is the numeral of its value.\<close>

definition canonical_digits :: "string \<Rightarrow> bool" where
  "canonical_digits s \<longleftrightarrow>
     s \<noteq> [] \<and> list_all is_ascii_digit s \<and> (1 < length s \<longrightarrow> hd s \<noteq> CHR ''0'')"

lemma canonical_dec [simp]: "canonical_digits (dec n)"
proof (cases "n = 0")
  case True
  then show ?thesis by (subst dec.simps) (simp add: canonical_digits_def)
next
  case False
  then show ?thesis by (simp add: canonical_digits_def dec_digits hd_dec_pos)
qed

lemma foldl_digit_pos:
  "foldl digit_step (Some k) s = Some n \<Longrightarrow> 0 < k \<Longrightarrow> 0 < n"
  by (induction s arbitrary: k) (auto split: if_splits elim!: meta_allE)

lemma parse_digits_hd_pos:
  assumes "foldl digit_step (Some 0) (c # s) = Some n" and "c \<noteq> CHR ''0''"
  shows "0 < n"
proof -
  from assms(1) have c: "is_ascii_digit c" by (auto split: if_splits)
  with assms(2) have "code c \<noteq> code (CHR ''0'')" by simp
  then have "code c \<noteq> 48" by (simp add: code_def)
  with c have "0 < code c - 48" by (simp add: is_ascii_digit_def)
  with c assms(1) show ?thesis by (auto dest: foldl_digit_pos)
qed

lemma dec_parse:
  "foldl digit_step (Some 0) s = Some n \<Longrightarrow> s \<noteq> [] \<Longrightarrow> (1 < length s \<longrightarrow> hd s \<noteq> CHR ''0'') \<Longrightarrow> dec n = s"
proof (induction s arbitrary: n rule: rev_induct)
  case Nil
  then show ?case by simp
next
  case (snoc c s)
  from snoc.prems(1) obtain m where m: "foldl digit_step (Some 0) s = Some m"
    and c: "is_ascii_digit c" and n: "n = 10 * m + (code c - 48)"
    by (cases "foldl digit_step (Some 0) s") (auto split: if_splits)
  from c have lt: "code c - 48 < 10" by (auto simp: is_ascii_digit_def)
  show ?case
  proof (cases s)
    case Nil
    with m n lt c show ?thesis by (simp add: dec.simps digit_of_code)
  next
    case (Cons d ds)
    with snoc.prems(3) have hd: "hd s \<noteq> CHR ''0''" by simp
    with m Cons have "0 < m" by (intro parse_digits_hd_pos [of d ds]) auto
    then have "\<not> n < 10" using n by simp
    moreover have "dec m = s" using m Cons hd by (intro snoc.IH) auto
    ultimately show ?thesis using n lt c by (subst dec.simps) (simp add: digit_of_code)
  qed
qed

lemma parse_digits_canonical: "parse_digits s = Some n \<Longrightarrow> canonical_digits s \<Longrightarrow> dec n = s"
  by (auto simp: parse_digits_def canonical_digits_def split: if_splits intro!: dec_parse)

section \<open>Integer formatting and \<open>str::parse\<close>\<close>

definition show_word :: "'w::len word \<Rightarrow> string" where
  "show_word w = dec (unat w)"

definition strip_plus :: "string \<Rightarrow> string" where
  "strip_plus s = (case s of [] \<Rightarrow> [] | c # cs \<Rightarrow> if c = CHR ''+'' then cs else s)"

definition parse_word :: "string \<Rightarrow> 'w::len word option" where
  "parse_word s =
     (case parse_digits (strip_plus s) of
        None \<Rightarrow> None
      | Some n \<Rightarrow> if n < 2 ^ LENGTH('w) then Some (of_nat n) else None)"

definition show_int :: "int \<Rightarrow> string" where
  "show_int i = (if i < 0 then CHR ''-'' # dec (nat (- i)) else dec (nat i))"

definition parse_i64 :: "string \<Rightarrow> int option" where
  "parse_i64 s =
     (case s of
        [] \<Rightarrow> None
      | c # cs \<Rightarrow>
          if c = CHR ''-'' then
            (case parse_digits cs of None \<Rightarrow> None
             | Some n \<Rightarrow> if n \<le> 2 ^ 63 then Some (- int n) else None)
          else
            (case parse_digits (strip_plus s) of None \<Rightarrow> None
             | Some n \<Rightarrow> if n < 2 ^ 63 then Some (int n) else None))"

lemma digit_not_sign: "is_ascii_digit c \<Longrightarrow> c \<noteq> CHR ''+'' \<and> c \<noteq> CHR ''-''"
  by (auto simp: is_ascii_digit_def code_def)

lemma strip_plus_digits: "list_all is_ascii_digit s \<Longrightarrow> strip_plus s = s"
  by (cases s) (auto simp: strip_plus_def dest: digit_not_sign)

lemma parse_show_word [simp]: "parse_word (show_word w) = Some w"
  by (simp add: parse_word_def show_word_def strip_plus_digits dec_digits unat_bound)

lemma show_word_inject [simp]: "show_word (v :: 'w::len word) = show_word w \<longleftrightarrow> v = w"
  by (simp add: show_word_def word_unat_eq_iff)

lemma show_word_digits: "list_all is_ascii_digit (show_word w)"
  by (simp add: show_word_def dec_digits)

lemma show_parse_word:
  fixes w :: "'w::len word"
  assumes "parse_word s = Some w" and "canonical_digits s"
  shows "show_word w = s"
proof -
  from assms(2) have "strip_plus s = s" by (simp add: canonical_digits_def strip_plus_digits)
  with assms(1) obtain n where n: "parse_digits s = Some n" "n < 2 ^ LENGTH('w)" "w = of_nat n"
    by (auto simp: parse_word_def split: option.splits if_splits)
  then have "unat w = n" by (simp add: unat_of_nat)
  with n(1) assms(2) show ?thesis by (simp add: show_word_def parse_digits_canonical)
qed

lemma parse_show_int:
  assumes "- (2 ^ 63) \<le> i" and "i < 2 ^ 63"
  shows "parse_i64 (show_int i) = Some i"
proof (cases "i < 0")
  case True
  with assms show ?thesis by (auto simp: parse_i64_def show_int_def nat_le_iff)
next
  case False
  obtain c cs where s: "dec (nat i) = c # cs" by (cases "dec (nat i)") auto
  then have "is_ascii_digit c" using dec_digits [of "nat i"] by simp
  then have "c \<noteq> CHR ''-''" by (simp add: digit_not_sign)
  with s False assms show ?thesis
    using parse_digits_dec [of "nat i"] dec_digits [of "nat i"]
    by (simp add: parse_i64_def show_int_def strip_plus_digits nat_less_iff)
qed

text \<open>Equations for evaluation, comparing on \<open>int\<close>.\<close>

lemma parse_word_code [code]:
  "(parse_word s :: 'w::len word option) =
     (case parse_digits (strip_plus s) of
        None \<Rightarrow> None
      | Some n \<Rightarrow> if int n < 2 ^ LENGTH('w) then Some (of_int (int n)) else None)"
  by (simp add: parse_word_def split: option.split)

lemma parse_i64_code [code]:
  "parse_i64 s =
     (case s of
        [] \<Rightarrow> None
      | c # cs \<Rightarrow>
          if c = CHR ''-'' then
            (case parse_digits cs of None \<Rightarrow> None
             | Some n \<Rightarrow> if int n \<le> 2 ^ 63 then Some (- int n) else None)
          else
            (case parse_digits (strip_plus s) of None \<Rightarrow> None
             | Some n \<Rightarrow> if int n < 2 ^ 63 then Some (int n) else None))"
proof -
  have "int n \<le> 2 ^ 63 \<longleftrightarrow> n \<le> 2 ^ 63" and "int n < 2 ^ 63 \<longleftrightarrow> n < 2 ^ 63" for n
    by simp_all
  then show ?thesis by (simp add: parse_i64_def split: list.split option.split)
qed

end
