(* ===== verification/BTree.thy ===== *)
theory BTree
  imports Prelude
begin

text \<open>
  \<open>BTreeMap\<close> and \<open>BTreeSet\<close> of Rust's standard library: finite maps whose iteration order is the
  key order. A map is the list of its entries in strictly increasing key order, so equality of
  maps is equality of their contents. The contract the components rely on is the locale
  \<open>ordered_map\<close>; its derived facts are proved there and interpreted for the operations below.
\<close>

section \<open>Entries in key order\<close>

fun ins_entry :: "'k::linorder \<Rightarrow> 'v \<Rightarrow> ('k \<times> 'v) list \<Rightarrow> ('k \<times> 'v) list" where
  "ins_entry k v [] = [(k, v)]"
| "ins_entry k v (e # es) =
     (if k < fst e then (k, v) # e # es
      else if k = fst e then (k, v) # es
      else e # ins_entry k v es)"

definition del_entry :: "'k \<Rightarrow> ('k \<times> 'v) list \<Rightarrow> ('k \<times> 'v) list" where
  "del_entry k es = filter (\<lambda>e. fst e \<noteq> k) es"

lemma fst_ins_entry: "fst ` set (ins_entry k v es) = insert k (fst ` set es)"
  by (induction es) auto

lemma sorted_ins_entry:
  "sorted_wrt (<) (map fst es) \<Longrightarrow> sorted_wrt (<) (map fst (ins_entry k v es))"
proof (induction es)
  case Nil
  then show ?case by simp
next
  case (Cons e es)
  have "\<forall>x \<in> fst ` set (ins_entry k v es). fst e < x" if "fst e < k"
    using Cons.prems that by (simp add: fst_ins_entry)
  with Cons show ?case by (auto simp: not_less)
qed

lemma map_of_ins_entry: "map_of (ins_entry k v es) = (map_of es)(k \<mapsto> v)"
  by (induction es) (auto simp: fun_eq_iff)

lemma map_of_del_entry: "map_of (del_entry k es) k' = (if k' = k then None else map_of es k')"
  by (induction es) (auto simp: del_entry_def)

lemma map_of_min_None: "\<forall>k \<in> fst ` set es. (a :: 'k::linorder) < k \<Longrightarrow> map_of es a = None"
  by (auto simp: map_of_eq_None_iff)

lemma common_min:
  fixes a b :: "'k::linorder"
  assumes "\<forall>k \<in> A. a < k" and "\<forall>k \<in> B. b < k" and "a \<in> insert b B" and "b \<in> insert a A"
  shows "a = b"
  using assms by (auto dest: less_asym)

lemma sorted_map_of_ext:
  fixes xs ys :: "('k::linorder \<times> 'v) list"
  shows "sorted_wrt (<) (map fst xs) \<Longrightarrow> sorted_wrt (<) (map fst ys) \<Longrightarrow> map_of xs = map_of ys \<Longrightarrow> xs = ys"
proof (induction xs arbitrary: ys)
  case Nil
  then show ?case by (cases ys) (auto simp: fun_eq_iff split: if_splits)
next
  case (Cons x xs)
  have "map_of ys (fst x) = Some (snd x)"
    using Cons.prems(3) by (metis map_of_Cons_code(2) prod.collapse)
  then obtain y ys' where ys: "ys = y # ys'" by (cases ys) auto
  have mx: "\<forall>k \<in> fst ` set xs. fst x < k" and my: "\<forall>k \<in> fst ` set ys'. fst y < k"
    using Cons.prems(1,2) ys by auto
  have doms: "fst ` set (x # xs) = fst ` set ys"
    using Cons.prems(3) by (metis dom_map_of_conv_image_fst)
  then have "fst x \<in> insert (fst y) (fst ` set ys')" and "fst y \<in> insert (fst x) (fst ` set xs)"
    using ys by auto
  with mx my have fst: "fst x = fst y" by (intro common_min [of "fst ` set xs" _ "fst ` set ys'"])
  with Cons.prems(3) ys have snd: "snd x = snd y"
    by (metis map_of_Cons_code(2) option.inject prod.collapse)
  have "map_of xs = (map_of (x # xs))(fst x := None)"
    by (simp add: fun_eq_iff map_of_min_None [OF mx])
  also have "\<dots> = (map_of (y # ys'))(fst y := None)"
    by (simp only: Cons.prems(3) ys fst)
  also have "\<dots> = map_of ys'"
    by (simp add: fun_eq_iff map_of_min_None [OF my])
  finally have "xs = ys'" using Cons ys by (intro Cons.IH) auto
  with fst snd ys show ?case by (simp add: prod_eq_iff)
qed

lemma map_of_map_entries:
  "map_of (map (\<lambda>e. (fst e, f (fst e) (snd e))) es) k = map_option (f k) (map_of es k)"
  by (induction es) auto

section \<open>The map type\<close>

typedef (overloaded) ('k::linorder, 'v) btree = "{es :: ('k \<times> 'v) list. sorted_wrt (<) (map fst es)}"
  morphisms entries Btree
proof
  show "[] \<in> {es :: ('k \<times> 'v) list. sorted_wrt (<) (map fst es)}" by simp
qed

setup_lifting type_definition_btree

lift_definition bt_empty :: "('k::linorder, 'v) btree" is "[]"
  by simp

lift_definition bt_insert :: "'k::linorder \<Rightarrow> 'v \<Rightarrow> ('k, 'v) btree \<Rightarrow> ('k, 'v) btree" is ins_entry
  by (rule sorted_ins_entry)

lift_definition bt_remove :: "'k::linorder \<Rightarrow> ('k, 'v) btree \<Rightarrow> ('k, 'v) btree" is del_entry
  unfolding del_entry_def by (simp add: sorted_wrt_map sorted_wrt_filter)

lift_definition bt_map :: "('k::linorder \<Rightarrow> 'v \<Rightarrow> 'w) \<Rightarrow> ('k, 'v) btree \<Rightarrow> ('k, 'w) btree"
  is "\<lambda>f es. map (\<lambda>e. (fst e, f (fst e) (snd e))) es"
  by (simp add: comp_def)

definition bt_get :: "('k::linorder, 'v) btree \<Rightarrow> 'k \<Rightarrow> 'v option" where
  "bt_get m k = map_of (entries m) k"

definition bt_contains :: "('k::linorder, 'v) btree \<Rightarrow> 'k \<Rightarrow> bool" where
  "bt_contains m k \<longleftrightarrow> bt_get m k \<noteq> None"

definition bt_keys :: "('k::linorder, 'v) btree \<Rightarrow> 'k list" where
  "bt_keys m = map fst (entries m)"

definition bt_values :: "('k::linorder, 'v) btree \<Rightarrow> 'v list" where
  "bt_values m = map snd (entries m)"

definition bt_len :: "('k::linorder, 'v) btree \<Rightarrow> nat" where
  "bt_len m = length (entries m)"

text \<open>\<open>last_key_value\<close>, and \<open>collect\<close> of a sequence of pairs, where a later pair wins.\<close>

definition bt_last :: "('k::linorder, 'v) btree \<Rightarrow> ('k \<times> 'v) option" where
  "bt_last m = (if entries m = [] then None else Some (last (entries m)))"

definition bt_collect :: "('k::linorder \<times> 'v) list \<Rightarrow> ('k, 'v) btree" where
  "bt_collect es = foldl (\<lambda>m e. bt_insert (fst e) (snd e) m) bt_empty es"

text \<open>The sum of a measure over the values.\<close>

definition bt_sum :: "('v \<Rightarrow> nat) \<Rightarrow> ('k::linorder, 'v) btree \<Rightarrow> nat" where
  "bt_sum f m = sum_list (map f (bt_values m))"

text \<open>A \<open>BTreeSet\<close> is a map to unit.\<close>

type_synonym 'k btset = "('k, unit) btree"

definition bs_insert :: "'k::linorder \<Rightarrow> 'k btset \<Rightarrow> 'k btset" where
  "bs_insert k s = bt_insert k () s"

definition bs_collect :: "'k::linorder list \<Rightarrow> 'k btset" where
  "bs_collect ks = foldl (\<lambda>s k. bs_insert k s) bt_empty ks"

instantiation btree :: (linorder, equal) equal
begin

definition equal_btree :: "('a, 'b) btree \<Rightarrow> ('a, 'b) btree \<Rightarrow> bool" where
  "equal_btree m n \<longleftrightarrow>
     list_all2 (\<lambda>(k, v) (l, w). k \<le> l \<and> l \<le> k \<and> HOL.equal v w) (entries m) (entries n)"

instance
proof
  fix m n :: "('a, 'b) btree"
  have "(\<lambda>(k, v) (l, w). k \<le> l \<and> l \<le> k \<and> HOL.equal v w) = ((=) :: 'a \<times> 'b \<Rightarrow> _)"
    by (auto simp: fun_eq_iff equal_eq)
  then show "HOL.equal m n \<longleftrightarrow> m = n"
    by (simp add: equal_btree_def list.rel_eq entries_inject)
qed

end

section \<open>The contract\<close>

locale ordered_map =
  fixes empty :: "'m"
    and get :: "'m \<Rightarrow> 'k::linorder \<Rightarrow> 'v option"
    and ins :: "'k \<Rightarrow> 'v \<Rightarrow> 'm \<Rightarrow> 'm"
    and rem :: "'k \<Rightarrow> 'm \<Rightarrow> 'm"
    and ents :: "'m \<Rightarrow> ('k \<times> 'v) list"
  assumes get_empty: "get empty k = None"
    and get_ins: "get (ins k v m) k' = (if k' = k then Some v else get m k')"
    and get_rem: "get (rem k m) k' = (if k' = k then None else get m k')"
    and ents_sorted: "sorted_wrt (<) (map fst (ents m))"
    and ents_get: "(k, v) \<in> set (ents m) \<longleftrightarrow> get m k = Some v"
    and map_ext: "(\<And>k. get m k = get n k) \<Longrightarrow> m = n"
begin

lemma distinct_keys: "distinct (map fst (ents m))"
  using ents_sorted [of m] by (simp add: strict_sorted_iff)

lemma keys_get: "fst ` set (ents m) = {k. get m k \<noteq> None}"
  using ents_get [where m = m] by (auto simp: image_iff) (metis fst_conv)

lemma ins_same: "get m k = Some v \<Longrightarrow> ins k v m = m"
  by (rule map_ext) (simp add: get_ins)

lemma ins_ins: "ins k v (ins k w m) = ins k v m"
  by (rule map_ext) (simp add: get_ins)

lemma ins_commute: "k \<noteq> l \<Longrightarrow> ins k v (ins l w m) = ins l w (ins k v m)"
  by (rule map_ext) (simp add: get_ins)

lemma rem_ins: "rem k (ins k v m) = rem k m"
  by (rule map_ext) (simp add: get_ins get_rem)

lemma rem_fresh: "get m k = None \<Longrightarrow> rem k m = m"
  by (rule map_ext) (simp add: get_rem)

text \<open>Totals over the values split off the value of any one key.\<close>

lemma total_as_sum:
  "sum_list (map (f \<circ> snd) (ents m)) = (\<Sum>k \<in> {k. get m k \<noteq> None}. f (the (get m k)) :: nat)"
proof -
  have "sum_list (map (f \<circ> snd) (ents m)) = sum_list (map (\<lambda>e. f (the (get m (fst e)))) (ents m))"
    by (intro arg_cong [where f = sum_list] map_cong) (auto simp: ents_get)
  also have "\<dots> = sum_list (map (\<lambda>k. f (the (get m k))) (map fst (ents m)))"
    by (simp add: comp_def)
  also have "\<dots> = (\<Sum>k \<in> set (map fst (ents m)). f (the (get m k)))"
    by (rule sum_list_distinct_conv_sum_set) (rule distinct_keys)
  finally show ?thesis by (simp add: keys_get)
qed

lemma total_split:
  "sum_list (map (f \<circ> snd) (ents m)) =
     (case get m k of None \<Rightarrow> 0 | Some v \<Rightarrow> f v) + sum_list (map (f \<circ> snd) (ents (rem k m)) :: nat list)"
proof (cases "get m k")
  case None
  then show ?thesis by (simp add: rem_fresh)
next
  case (Some v)
  have fin: "finite {k. get m k \<noteq> None}" by (metis keys_get finite_imageI finite_set)
  have "{j. get (rem k m) j \<noteq> None} = {j. get m j \<noteq> None} - {k}"
    by (auto simp: get_rem)
  with Some fin show ?thesis
    by (simp add: total_as_sum get_rem sum.remove [of _ k])
qed

lemma total_ins:
  "sum_list (map (f \<circ> snd) (ents (ins k v m))) =
     f v + sum_list (map (f \<circ> snd) (ents (rem k m)) :: nat list)"
  using total_split [of f "ins k v m" k] by (simp add: get_ins rem_ins)

lemma total_empty: "sum_list (map (f \<circ> snd) (ents empty) :: nat list) = 0"
proof -
  have "ents empty = []"
    using ents_get [where m = empty] get_empty by (metis last_in_set option.distinct(1) prod.exhaust)
  then show ?thesis by simp
qed

end

interpretation btm: ordered_map bt_empty bt_get bt_insert bt_remove entries
proof unfold_locales
  fix m n :: "('k::linorder, 'v) btree" and k k' :: 'k and v :: 'v
  show "bt_get bt_empty k = (None :: 'v option)"
    by (simp add: bt_get_def bt_empty.rep_eq)
  show "bt_get (bt_insert k v m) k' = (if k' = k then Some v else bt_get m k')"
    by (simp add: bt_get_def bt_insert.rep_eq map_of_ins_entry)
  show "bt_get (bt_remove k m) k' = (if k' = k then None else bt_get m k')"
    by (simp add: bt_get_def bt_remove.rep_eq map_of_del_entry)
  show srt: "sorted_wrt (<) (map fst (entries m))" for m :: "('k, 'v) btree"
    using entries [of m] by simp
  then have "distinct (map fst (entries m))" by (simp add: strict_sorted_iff)
  then show "(k, v) \<in> set (entries m) \<longleftrightarrow> bt_get m k = Some v"
    by (simp add: bt_get_def)
  show "m = n" if "\<And>k. bt_get m k = bt_get n k"
    using that srt [of m] srt [of n] sorted_map_of_ext [of "entries m" "entries n"]
    by (simp add: bt_get_def entries_inject fun_eq_iff)
qed

lemmas bt_get_simps [simp] = btm.get_empty btm.get_ins btm.get_rem

lemma set_bt_keys [simp]: "k \<in> set (bt_keys m) \<longleftrightarrow> bt_get m k \<noteq> None"
  using btm.keys_get [of m] by (auto simp: bt_keys_def)

lemma distinct_bt_keys [simp]: "distinct (bt_keys m)"
  using btm.distinct_keys [of m] by (simp add: bt_keys_def)

lemma sorted_bt_keys: "sorted_wrt (<) (bt_keys m)"
  using btm.ents_sorted [of m] by (simp add: bt_keys_def)

lemma set_bt_values: "v \<in> set (bt_values m) \<longleftrightarrow> (\<exists>k. bt_get m k = Some v)"
  by (force simp: bt_values_def btm.ents_get [symmetric])

lemma finite_bt_dom [simp]: "finite {k. bt_get m k \<noteq> None}"
  using btm.keys_get [of m] by (metis finite_imageI finite_set)

lemma finite_bt_dom' [simp]: "finite {k. \<exists>v. bt_get m k = Some v}"
  using finite_bt_dom [of m] by simp

lemma bt_len_card: "bt_len m = card {k. bt_get m k \<noteq> None}"
  using distinct_card [OF btm.distinct_keys [of m]] by (simp add: bt_len_def btm.keys_get)

lemma bt_contains_iff [simp]: "bt_contains m k \<longleftrightarrow> (\<exists>v. bt_get m k = Some v)"
  by (auto simp: bt_contains_def)

lemma bt_get_map [simp]: "bt_get (bt_map f m) k = map_option (f k) (bt_get m k)"
  by (simp add: bt_get_def bt_map.rep_eq map_of_map_entries)

lemma bt_sum_split: "bt_sum f m = (case bt_get m k of None \<Rightarrow> 0 | Some v \<Rightarrow> f v) + bt_sum f (bt_remove k m)"
  using btm.total_split [of f m k] by (simp add: bt_sum_def bt_values_def comp_def)

lemma bt_sum_insert: "bt_sum f (bt_insert k v m) = f v + bt_sum f (bt_remove k m)"
  using btm.total_ins [of f k v m] by (simp add: bt_sum_def bt_values_def comp_def)

lemma bt_sum_empty [simp]: "bt_sum f bt_empty = 0"
  using btm.total_empty [of f] by (simp add: bt_sum_def bt_values_def comp_def)

lemma bt_sum_as_sum: "bt_sum f m = (\<Sum>k \<in> {k. bt_get m k \<noteq> None}. f (the (bt_get m k)))"
  using btm.total_as_sum [of f m] by (simp add: bt_sum_def bt_values_def comp_def)

lemma bt_last_None_iff: "bt_last m = None \<longleftrightarrow> m = bt_empty"
proof
  assume "bt_last m = None"
  then have "entries m = entries bt_empty" by (simp add: bt_last_def bt_empty.rep_eq split: if_splits)
  then show "m = bt_empty" by (simp add: entries_inject)
qed (simp add: bt_last_def bt_empty.rep_eq)

lemma bt_last_Some:
  assumes "bt_last m = Some (k, v)"
  shows "bt_get m k = Some v" and "\<And>l. bt_get m l \<noteq> None \<Longrightarrow> l \<le> k"
proof -
  from assms have ne: "entries m \<noteq> []" and l: "last (entries m) = (k, v)"
    by (auto simp: bt_last_def split: if_splits)
  then have es: "entries m = butlast (entries m) @ [(k, v)]" by (metis append_butlast_last_id)
  then have "(k, v) \<in> set (entries m)" by (metis in_set_conv_decomp)
  then show "bt_get m k = Some v" by (simp add: btm.ents_get)
  fix l assume "bt_get m l \<noteq> None"
  then have "l \<in> fst ` set (entries m)" by (simp add: btm.keys_get)
  moreover have "sorted_wrt (<) (map fst (butlast (entries m)) @ [k])"
    using btm.ents_sorted [of m] by (subst (asm) es) simp
  moreover have "fst ` set (entries m) = insert k (fst ` set (butlast (entries m)))"
    by (subst es) auto
  ultimately show "l \<le> k" by (auto simp: sorted_wrt_append less_imp_le)
qed

lemma bt_get_collect:
  "bt_get (bt_collect es) k = map_of (rev es) k"
  unfolding bt_collect_def
  by (induction es rule: rev_induct) auto

lemma bs_get_insert [simp]: "bt_get (bs_insert k s) k' = (if k' = k then Some () else bt_get s k')"
  by (simp add: bs_insert_def)

lemma bs_get_collect: "bt_get (bs_collect ks) k = (if k \<in> set ks then Some () else None)"
  unfolding bs_collect_def by (induction ks rule: rev_induct) auto

end
