(* ===== verification/Extern.thy ===== *)
theory Extern
  imports Ascii BTree
begin

text \<open>
  The third-party operations the crate \<open>pohw-core\<close> calls (hashing, hex, serde\_json, secp256k1,
  Bitcoin script and target arithmetic, CID and date parsing) as one record of functions, an
  argument \<open>X\<close> of every definition that uses them, and the wrappers of \<open>pohw-core/src/lib.rs\<close>
  built on them. Nothing is assumed of these functions here; a theorem that needs a documented
  property of one of them states it as a hypothesis.
\<close>

section \<open>Serialised values\<close>

text \<open>
  What a \<open>#[derive(Serialize)]\<close> type hands to serde: its fields in declaration order.
\<close>

datatype json =
    JNull
  | JBool bool
  | JNum int
  | JStr string
  | JArr "json list"
  | JObj "(string \<times> json) list"

definition JUInt :: "'w::len word \<Rightarrow> json" where
  "JUInt w = JNum (uint w)"

definition JStrs :: "string list \<Rightarrow> json" where
  "JStrs ss = JArr (map JStr ss)"

text \<open>\<open>skip_serializing_if = "Option::is_none"\<close> leaves the field out.\<close>

definition opt_field :: "string \<Rightarrow> ('a \<Rightarrow> json) \<Rightarrow> 'a option \<Rightarrow> (string \<times> json) list" where
  "opt_field name f x = (case x of None \<Rightarrow> [] | Some a \<Rightarrow> [(name, f a)])"

definition JOpt :: "('a \<Rightarrow> json) \<Rightarrow> 'a option \<Rightarrow> json" where
  "JOpt f x = (case x of None \<Rightarrow> JNull | Some a \<Rightarrow> f a)"

definition JMap :: "('k::linorder \<Rightarrow> string) \<Rightarrow> ('v \<Rightarrow> json) \<Rightarrow> ('k, 'v) btree \<Rightarrow> json" where
  "JMap kf vf m = JObj (map (\<lambda>(k, v). (kf k, vf v)) (entries m))"

definition JSet :: "string btset \<Rightarrow> json" where
  "JSet s = JStrs (bt_keys s)"

lemma JUInt_inject [simp]: "JUInt (v :: 'w::len word) = JUInt w \<longleftrightarrow> v = w"
  by (simp add: JUInt_def word_uint_eq_iff)

lemma JStrs_inject [simp]: "JStrs ss = JStrs ts \<longleftrightarrow> ss = ts"
  by (simp add: JStrs_def inj_def)

text \<open>Serialisation keeps fields apart, so a type whose fields are serialised injectively is as well.\<close>

lemma opt_field_name: "n \<noteq> m \<Longrightarrow> n \<notin> fst ` set (opt_field m f x)"
  by (cases x) (simp_all add: opt_field_def)

lemma opt_field_eq: "inj f \<Longrightarrow> opt_field n f x = opt_field n f y \<longleftrightarrow> x = y"
  by (cases x; cases y) (auto simp: opt_field_def dest: injD)

lemma opt_field_inject:
  assumes "inj f" and "n \<notin> fst ` set r" and "n \<notin> fst ` set s"
  shows "opt_field n f x @ r = opt_field n f y @ s \<longleftrightarrow> x = y \<and> r = s"
  using assms by (cases x; cases y; cases r; cases s) (auto simp: opt_field_def dest: injD)

lemma inj_JStr [simp]: "inj JStr"
  by (rule injI) simp

section \<open>Third-party operations\<close>

text \<open>The four observations the code makes of a decoded \<open>bitcoin::Transaction\<close>.\<close>

record transaction =
  tx_is_coinbase :: bool
  tx_serialized :: bytes
  tx_output_scripts :: "bytes list"
  tx_txid :: bytes

text \<open>The observations made of a parsed \<open>cid::Cid\<close>.\<close>

record cid =
  cid_is_v1 :: bool
  cid_codec :: nat
  cid_to_string :: string
  cid_hash_code :: nat
  cid_digest_len :: nat

text \<open>
  \<open>cid_new_v1 codec digest\<close> is the text of \<open>Cid::new_v1\<close> with a SHA-256 multihash, and
  \<open>from_slice_flag name bytes\<close> is \<open>serde_json::from_slice\<close> at a struct whose only field is the
  boolean \<open>name\<close>.
\<close>

type_synonym naive_date = "int \<times> nat \<times> nat"

record extern =
  sha256 :: "bytes \<Rightarrow> bytes"
  to_vec :: "json \<Rightarrow> bytes"
  hex_encode :: "bytes \<Rightarrow> string"
  hex_decode :: "string \<Rightarrow> string + bytes"
  keccak_v256 :: "bytes \<Rightarrow> bytes"
  sha256d :: "bytes \<Rightarrow> bytes"
  sha256d_display :: "bytes \<Rightarrow> string"
  xonly_from_str :: "string \<Rightarrow> string + bytes"
  schnorr_from_slice :: "bytes \<Rightarrow> string + bytes"
  verify_schnorr :: "bytes \<Rightarrow> bytes \<Rightarrow> bytes \<Rightarrow> string + unit"
  recovery_id_from_i32 :: "int \<Rightarrow> string + int"
  recoverable_from_compact :: "bytes \<Rightarrow> int \<Rightarrow> string + (bytes \<times> int)"
  recover_ecdsa :: "bytes \<Rightarrow> (bytes \<times> int) \<Rightarrow> string + bytes"
  serialize_uncompressed :: "bytes \<Rightarrow> bytes"
  is_p2wpkh :: "bytes \<Rightarrow> bool"
  is_p2tr :: "bytes \<Rightarrow> bool"
  max_attainable_regtest :: bytes
  regtest_difficulty :: "bytes \<Rightarrow> u128"
  parse_naive_date :: "string \<Rightarrow> string + naive_date"
  parse_cid :: "string \<Rightarrow> cid option"
  cid_new_v1 :: "nat \<Rightarrow> bytes \<Rightarrow> string"
  from_slice_flag :: "string \<Rightarrow> bytes \<Rightarrow> string + bool"
  tx_deserialize :: "bytes \<Rightarrow> string + transaction"

text \<open>\<open>call(..).map_err(|err| f(err.to_string()))?\<close>\<close>

fun lift_ext :: "(string \<Rightarrow> 'e) \<Rightarrow> string + 'a \<Rightarrow> ('e, 'a) res" where
  "lift_ext f (Inl msg) = Err (f msg)"
| "lift_ext f (Inr a) = Ok a"

lemma lift_ext_Ok_iff [res_simps]: "lift_ext f x = Ok a \<longleftrightarrow> x = Inr a"
  by (cases x) auto

lemma lift_ext_not_Panic [simp]: "lift_ext f x \<noteq> Panic"
  by (cases x) auto

definition as_bytes :: "string \<Rightarrow> bytes" where
  "as_bytes s = map (\<lambda>c. of_nat (code c)) s"

lemma length_as_bytes [simp]: "length (as_bytes s) = length s"
  by (simp add: as_bytes_def)

section \<open>The wrappers of \<open>lib.rs\<close>\<close>

definition FORMULA_VERSION :: u16 where
  "FORMULA_VERSION = 2"

definition MIN_DIRECT_PAYOUT_SATS :: Sats where
  "MIN_DIRECT_PAYOUT_SATS = 10000"

definition DIRECT_PAYOUT_LIMIT :: nat where
  "DIRECT_PAYOUT_LIMIT = 100"

definition canonical_json :: "extern \<Rightarrow> json \<Rightarrow> bytes" where
  "canonical_json X v = to_vec X v"

definition sha256_tagged :: "extern \<Rightarrow> bytes \<Rightarrow> bytes \<Rightarrow> bytes" where
  "sha256_tagged X tag payload = sha256 X (tag @ [0] @ payload)"

definition hash_hex :: "extern \<Rightarrow> bytes \<Rightarrow> string" where
  "hash_hex X h = hex_encode X h"

section \<open>Concrete third-party functions\<close>

text \<open>
  Instances for evaluating the definitions: a hash that keeps its input, which is injective, and
  a hash of fixed length that maps everything to one digest.
\<close>

definition identity_hash :: extern where
  "identity_hash = \<lparr>
     sha256 = (\<lambda>m. m),
     to_vec = (\<lambda>_. []),
     hex_encode = map (\<lambda>w. char_of (unat w)),
     hex_decode = (\<lambda>s. Inr (as_bytes s)),
     keccak_v256 = (\<lambda>m. m),
     sha256d = (\<lambda>m. m),
     sha256d_display = map (\<lambda>w. char_of (unat w)),
     xonly_from_str = (\<lambda>s. Inr (as_bytes s)),
     schnorr_from_slice = Inr,
     verify_schnorr = (\<lambda>_ _ _. Inr ()),
     recovery_id_from_i32 = Inr,
     recoverable_from_compact = (\<lambda>b i. Inr (b, i)),
     recover_ecdsa = (\<lambda>_ s. Inr (fst s)),
     serialize_uncompressed = (\<lambda>b. b),
     is_p2wpkh = (\<lambda>_. True),
     is_p2tr = (\<lambda>_. True),
     max_attainable_regtest = replicate 32 (- 1),
     regtest_difficulty = (\<lambda>_. 1),
     parse_naive_date = (\<lambda>_. Inl ''no date''),
     parse_cid = (\<lambda>_. None),
     cid_new_v1 = (\<lambda>_ _. []),
     from_slice_flag = (\<lambda>_ _. Inl ''no value''),
     tx_deserialize = (\<lambda>_. Inl ''no transaction'')\<rparr>"

definition constant_hash :: extern where
  "constant_hash = identity_hash\<lparr>sha256 := (\<lambda>_. replicate 32 0)\<rparr>"

text \<open>
  Documented behaviour of the \<open>hex\<close> crate and of SHA-256: decoding inverts encoding, and a digest
  has 32 bytes.
\<close>

definition hex_roundtrip :: "extern \<Rightarrow> bool" where
  "hex_roundtrip X \<longleftrightarrow> (\<forall>b. hex_decode X (hex_encode X b) = Inr b)"

definition digest_32 :: "extern \<Rightarrow> bool" where
  "digest_32 X \<longleftrightarrow> (\<forall>m. length (sha256 X m) = 32)"

lemma constant_hash_codec: "hex_roundtrip constant_hash" "digest_32 constant_hash"
proof -
  have "unat (w :: u8) mod 256 = unat w" for w using unat_bound [of w] by simp
  then have "as_bytes (map (\<lambda>w. char_of (unat w)) b) = b" for b
    by (induction b) (simp_all add: as_bytes_def)
  then show "hex_roundtrip constant_hash"
    by (simp add: hex_roundtrip_def constant_hash_def identity_hash_def)
  show "digest_32 constant_hash" by (simp add: digest_32_def constant_hash_def)
qed

section \<open>Digests of normalised values\<close>

text \<open>
  Every message type of the protocol is hashed after normalisation. The contract is that
  normalisation is idempotent; then a value and its normal form have one digest, which is what
  lets nodes exchange either.
\<close>

locale canonical_digest =
  fixes norm :: "'a \<Rightarrow> 'a" and ser :: "'a \<Rightarrow> json"
  assumes norm_idem: "norm (norm a) = norm a"
begin

definition digest :: "extern \<Rightarrow> string \<Rightarrow> 'a \<Rightarrow> string" where
  "digest X tag a = hash_hex X (sha256_tagged X (as_bytes tag) (canonical_json X (ser (norm a))))"

lemma digest_norm: "digest X tag (norm a) = digest X tag a"
  by (simp add: digest_def norm_idem)

lemma digest_cong: "norm a = norm b \<Longrightarrow> digest X tag a = digest X tag b"
  by (simp add: digest_def)

end

end
