(* ===== verification/Merkle.thy ===== *)
theory Merkle
  imports Extern
begin

text \<open>
  \<open>pohw-core/src/merkle.rs\<close>: domain-separated Merkle roots over serialised leaves. The
  \<open>while\<close> loop over levels is \<open>merkle_levels\<close>; it always ends in one hash. The root binds the
  leaf list of a given length up to a collision of the node hash.
\<close>

definition LEAF_TAG :: bytes where
  "LEAF_TAG = as_bytes ''POHW1_MERKLE_LEAF''"

definition NODE_TAG :: bytes where
  "NODE_TAG = as_bytes ''POHW1_MERKLE_NODE''"

definition EMPTY_TAG :: bytes where
  "EMPTY_TAG = as_bytes ''POHW1_MERKLE_EMPTY''"

definition leaf_hash :: "extern \<Rightarrow> json \<Rightarrow> bytes" where
  "leaf_hash X leaf = sha256_tagged X LEAF_TAG (canonical_json X leaf)"

definition node_hash :: "extern \<Rightarrow> bytes \<Rightarrow> bytes \<Rightarrow> bytes" where
  "node_hash X left right = sha256_tagged X NODE_TAG (left @ right)"

text \<open>One pass of the loop body over \<open>leaves.chunks(2)\<close>; an odd last chunk is paired with itself.\<close>

fun next_level :: "extern \<Rightarrow> bytes list \<Rightarrow> bytes list" where
  "next_level X [] = []"
| "next_level X [a] = [node_hash X a a]"
| "next_level X (a # b # rest) = node_hash X a b # next_level X rest"

lemma length_next_level [simp]: "length (next_level X hs) = (length hs + 1) div 2"
  by (induction X hs rule: next_level.induct) auto

function merkle_levels :: "extern \<Rightarrow> bytes list \<Rightarrow> bytes list" where
  "merkle_levels X hs = (if 1 < length hs then merkle_levels X (next_level X hs) else hs)"
  by pat_completeness auto
termination
  by (relation "measure (\<lambda>(X, hs). length hs)") auto

declare merkle_levels.simps [simp del]

definition merkle_root_hashes :: "extern \<Rightarrow> bytes list \<Rightarrow> bytes" where
  "merkle_root_hashes X leaves =
     (if leaves = [] then sha256_tagged X EMPTY_TAG [] else hd (merkle_levels X leaves))"

definition merkle_root :: "extern \<Rightarrow> json list \<Rightarrow> string" where
  "merkle_root X leaves = hash_hex X (merkle_root_hashes X (map (leaf_hash X) leaves))"

section \<open>The loop ends in one hash\<close>

lemma next_level_Nil_iff [simp]: "next_level X hs = [] \<longleftrightarrow> hs = []"
  by (cases "(X, hs)" rule: next_level.cases) auto

lemma merkle_levels_single: "hs \<noteq> [] \<Longrightarrow> \<exists>h. merkle_levels X hs = [h]"
proof (induction X hs rule: merkle_levels.induct)
  case (1 X hs)
  show ?case
  proof (cases "1 < length hs")
    case True
    then have "next_level X hs \<noteq> []" by auto
    with 1 True show ?thesis by (simp add: merkle_levels.simps [of X hs])
  next
    case False
    with 1 show ?thesis
      by (cases hs) (simp_all add: merkle_levels.simps)
  qed
qed

lemma merkle_root_singleton [simp]: "merkle_root X [leaf] = hash_hex X (leaf_hash X leaf)"
  by (simp add: merkle_root_def merkle_root_hashes_def merkle_levels.simps)

section \<open>Binding\<close>

text \<open>The payloads hashed on one level, and on all levels, of the tree.\<close>

fun pair_payloads :: "bytes list \<Rightarrow> bytes list" where
  "pair_payloads [] = []"
| "pair_payloads [a] = [a @ a]"
| "pair_payloads (a # b # hs) = (a @ b) # pair_payloads hs"

function tree_payloads :: "extern \<Rightarrow> bytes list \<Rightarrow> bytes list" where
  "tree_payloads X hs = (if 1 < length hs then pair_payloads hs @ tree_payloads X (next_level X hs) else [])"
  by pat_completeness auto
termination
  by (relation "measure (\<lambda>(X, hs). length hs)") auto

declare tree_payloads.simps [simp del]

lemma next_level_payloads: "next_level X hs = map (sha256_tagged X NODE_TAG) (pair_payloads hs)"
  by (induction X hs rule: next_level.induct) (auto simp: node_hash_def)

definition digests :: "nat \<Rightarrow> bytes list \<Rightarrow> bool" where
  "digests n hs \<longleftrightarrow> (\<forall>h \<in> set hs. length h = n)"

lemma digests_next_level:
  "(\<And>p. length (sha256 X p) = n) \<Longrightarrow> digests n (next_level X hs)"
  by (auto simp: digests_def next_level_payloads sha256_tagged_def)

lemma pair_payloads_inject:
  "digests n hs \<Longrightarrow> digests n ks \<Longrightarrow> length hs = length ks \<Longrightarrow> pair_payloads hs = pair_payloads ks \<Longrightarrow> hs = ks"
proof (induction hs arbitrary: ks rule: pair_payloads.induct)
  case (3 a b hs)
  then obtain c d ks' where ks: "ks = c # d # ks'" by (metis Suc_length_conv length_Cons)
  with 3(2,3,5) have "a = c \<and> b = d" by (simp add: digests_def)
  moreover have "hs = ks'"
    by (rule "3.IH") (use "3.prems" ks in \<open>simp_all add: digests_def\<close>)
  ultimately show ?case using ks by simp
next
  case (2 a)
  then obtain c where "ks = [c]" by (cases ks) auto
  with 2 show ?case by (simp add: digests_def)
qed simp

text \<open>No collision between the payloads of two trees.\<close>

definition separated :: "extern \<Rightarrow> bytes list \<Rightarrow> bytes list \<Rightarrow> bool" where
  "separated X ps qs \<longleftrightarrow> (\<forall>p \<in> set ps. \<forall>q \<in> set qs.
     sha256_tagged X NODE_TAG p = sha256_tagged X NODE_TAG q \<longrightarrow> p = q)"

lemma map_separated:
  "separated X ps qs \<Longrightarrow> map (sha256_tagged X NODE_TAG) ps = map (sha256_tagged X NODE_TAG) qs \<Longrightarrow> ps = qs"
  by (induction ps arbitrary: qs) (auto simp: separated_def Cons_eq_map_conv)

lemma merkle_levels_inject:
  assumes "\<And>p. length (sha256 X p) = n"
  shows "digests n hs \<Longrightarrow> digests n ks \<Longrightarrow> length hs = length ks \<Longrightarrow>
     separated X (tree_payloads X hs) (tree_payloads X ks) \<Longrightarrow>
     merkle_levels X hs = merkle_levels X ks \<Longrightarrow> hs = ks"
proof (induction "length hs" arbitrary: hs ks rule: less_induct)
  case less
  show ?case
  proof (cases "1 < length hs")
    case True
    note unfold = merkle_levels.simps [of X hs] merkle_levels.simps [of X ks]
      tree_payloads.simps [of X hs] tree_payloads.simps [of X ks]
    from less.prems True have sep: "separated X (pair_payloads hs) (pair_payloads ks)"
      "separated X (tree_payloads X (next_level X hs)) (tree_payloads X (next_level X ks))"
      by (simp_all add: unfold separated_def)
    have "length (next_level X hs) < length hs" using True by simp
    then have "next_level X hs = next_level X ks"
      using less.hyps [of "next_level X hs" "next_level X ks"] less.prems sep(2) True
        digests_next_level [OF assms] by (simp add: unfold)
    then have "pair_payloads hs = pair_payloads ks"
      using map_separated [OF sep(1)] by (simp add: next_level_payloads)
    then show ?thesis by (rule pair_payloads_inject [OF less.prems(1,2,3)])
  next
    case False
    with less.prems show ?thesis
      by (simp add: merkle_levels.simps [of X hs] merkle_levels.simps [of X ks])
  qed
qed

text \<open>
  Lists of different length are not separated: an odd level pairs its last hash with itself, so
  repeating the last leaf leaves the root unchanged.
\<close>

lemma next_level_repeat_last:
  "odd (length hs) \<Longrightarrow> next_level X (hs @ [last hs]) = next_level X hs"
  by (induction X hs rule: next_level.induct) auto

lemma merkle_root_repeat_last:
  assumes "odd (length hs)" and "1 < length hs"
  shows "merkle_root_hashes X (hs @ [last hs]) = merkle_root_hashes X hs"
proof -
  have "hs \<noteq> []" using assms(2) by auto
  have "merkle_levels X (hs @ [last hs]) = merkle_levels X hs"
    using assms \<open>hs \<noteq> []\<close>
    by (simp add: merkle_levels.simps [of X hs] merkle_levels.simps [of X "hs @ [last hs]"]
        next_level_repeat_last)
  then show ?thesis using \<open>hs \<noteq> []\<close> by (simp add: merkle_root_hashes_def)
qed

section \<open>Properties\<close>

text \<open>
  C27: The Merkle root binds the leaves: if two leaf lists of one length have the same root and
  differ, then computing the two roots hashes two different node payloads to one digest. The
  hypothesis is the fixed digest length of SHA-256.
\<close>

theorem merkle_root_binds:
  assumes "\<forall>p. length (sha256 X p) = 32" and "\<forall>h \<in> set hs \<union> set ks. length h = 32"
    and "length hs = length ks" and "merkle_root_hashes X hs = merkle_root_hashes X ks" and "hs \<noteq> ks"
  shows "\<exists>p \<in> set (tree_payloads X hs). \<exists>q \<in> set (tree_payloads X ks).
    p \<noteq> q \<and> sha256_tagged X NODE_TAG p = sha256_tagged X NODE_TAG q"
proof (rule ccontr)
  assume "\<not> ?thesis"
  then have sep: "separated X (tree_payloads X hs) (tree_payloads X ks)" by (auto simp: separated_def)
  have "hs \<noteq> []" "ks \<noteq> []" using assms(3,5) by auto
  then obtain h k where "merkle_levels X hs = [h]" "merkle_levels X ks = [k]"
    by (meson merkle_levels_single)
  with assms(4) \<open>hs \<noteq> []\<close> \<open>ks \<noteq> []\<close> have "merkle_levels X hs = merkle_levels X ks"
    by (simp add: merkle_root_hashes_def)
  with sep assms show False
    using merkle_levels_inject [of X 32 hs ks] by (simp add: digests_def)
qed

theorem merkle_root_binds_witness:
  "\<exists>p \<in> set (tree_payloads constant_hash [replicate 32 0, replicate 32 0]).
   \<exists>q \<in> set (tree_payloads constant_hash [replicate 32 0, replicate 32 1]).
    p \<noteq> q \<and> sha256_tagged constant_hash NODE_TAG p = sha256_tagged constant_hash NODE_TAG q"
proof (rule merkle_root_binds)
  show "merkle_root_hashes constant_hash [replicate 32 0, replicate 32 0] =
      merkle_root_hashes constant_hash [replicate 32 0, replicate 32 1]"
    by (simp add: merkle_root_hashes_def merkle_levels.simps node_hash_def sha256_tagged_def constant_hash_def)
  show "[replicate 32 0, replicate 32 0] \<noteq> [replicate 32 0, replicate 32 (1 :: u8)]"
    by (simp add: numeral_eq_Suc)
qed (simp_all add: constant_hash_def)

text \<open>
  The root does not bind the number of leaves: repeating the last leaf of a list of odd
  length, three or more, gives the same root, because an odd level pairs its last hash with
  itself. Callers must reject repeated leaves, as the snapshot code does.
\<close>

theorem merkle_root_repeats_last:
  assumes "odd (length leaves)" and "1 < length leaves"
  shows "merkle_root X (leaves @ [last leaves]) = merkle_root X leaves"
proof -
  have "leaves \<noteq> []" using assms(2) by auto
  then have "map (leaf_hash X) (leaves @ [last leaves]) =
      map (leaf_hash X) leaves @ [last (map (leaf_hash X) leaves)]"
    by (simp add: last_map)
  then show ?thesis
    unfolding merkle_root_def using assms merkle_root_repeat_last [of "map (leaf_hash X) leaves" X] by simp
qed

theorem merkle_root_repeats_last_witness:
  "merkle_root constant_hash [JNum 1, JNum 2, JNum 3, JNum 3] = merkle_root constant_hash [JNum 1, JNum 2, JNum 3]"
  using merkle_root_repeats_last [of "[JNum 1, JNum 2, JNum 3]" constant_hash] by simp

end
