(* ===== verification/Order.thy ===== *)
theory Order
  imports BTree
begin

text \<open>
  Comparators, stable sorting and duplicate checks: \<open>Ordering::then_with\<close>, \<open>max_by\<close>, \<open>sort_by\<close>,
  \<open>windows(2).all(..)\<close> (which is \<open>sorted\<close> of the library), the \<open>BTreeSet::insert\<close> loop that
  rejects a repeated key, and sums folded with \<open>checked_add\<close>.
\<close>

section \<open>Comparators\<close>

definition then_with :: "'a comparator \<Rightarrow> 'a comparator \<Rightarrow> 'a comparator" where
  "then_with c d = key (\<lambda>x. (x, x)) (prod_lex c d)"

definition asc :: "('a \<Rightarrow> 'k::linorder) \<Rightarrow> 'a comparator" where
  "asc f = key f default"

definition desc :: "('a \<Rightarrow> 'k::linorder) \<Rightarrow> 'a comparator" where
  "desc f = key f (reversed default)"

text \<open>\<open>Iterator::max_by\<close>: the last of the greatest elements.\<close>

fun max_by :: "'a comparator \<Rightarrow> 'a list \<Rightarrow> 'a option" where
  "max_by c [] = None"
| "max_by c (x # xs) = Some (foldl (\<lambda>b y. if compare c b y = Greater then b else y) x xs)"

lemma compare_then_with [simp]:
  "compare (then_with c d) a b =
     (case compare c a b of Equiv \<Rightarrow> compare d a b | Less \<Rightarrow> Less | Greater \<Rightarrow> Greater)"
  by (auto simp: then_with_def compare_prod_lex_apply split: comp.splits)

lemma compare_default: "compare default (a :: 'k::linorder) b =
    (if a < b then Less else if a = b then Equiv else Greater)"
  by (metis compare_default_eq_Equiv_iff compare_default_eq_Greater_iff compare_default_eq_Less_iff
      linorder_less_linear)

lemma compare_asc [simp]:
  "compare (asc f) a b = (if f a < f b then Less else if f a = f b then Equiv else Greater)"
  by (simp add: asc_def compare_default)

lemma compare_desc [simp]:
  "compare (desc f) a b = (if f b < f a then Less else if f a = f b then Equiv else Greater)"
  by (auto simp: desc_def compare_default)

text \<open>Equations for evaluation.\<close>

lemma asc_code [code abstract]:
  "compare (asc f) = (\<lambda>a b. if f a < f b then Less else if f a = f b then Equiv else Greater)"
  by (intro ext) (rule compare_asc)

lemma desc_code [code abstract]:
  "compare (desc f) = (\<lambda>a b. if f b < f a then Less else if f a = f b then Equiv else Greater)"
  by (intro ext) (rule compare_desc)

lemma then_with_code [code abstract]:
  "compare (then_with c d) =
     (\<lambda>a b. case compare c a b of Equiv \<Rightarrow> compare d a b | Less \<Rightarrow> Less | Greater \<Rightarrow> Greater)"
  by (intro ext) (rule compare_then_with)

section \<open>Stable sorting\<close>

lemma sorted_iff_wrt:
  "Sorting_Algorithms.sorted c xs \<longleftrightarrow> sorted_wrt (\<lambda>a b. compare c a b \<noteq> Greater) xs"
proof (induction xs)
  case Nil
  then show ?case by simp
next
  case (Cons x xs)
  show ?case
    using Cons sorted_Cons_imp_not_less [of c x xs] sorted_Cons_imp_sorted [of c x xs]
    by (auto intro!: sorted_ConsI)
qed

lemma sort_sorted_id: "Sorting_Algorithms.sorted c xs \<Longrightarrow> Sorting_Algorithms.sort c xs = xs"
  by (rule sort_eqI) simp_all

lemma sort_idem [simp]: "Sorting_Algorithms.sort c (Sorting_Algorithms.sort c xs) = Sorting_Algorithms.sort c xs"
  by (rule sort_sorted_id) simp

lemma filter_replicate:
  "(\<And>z. z \<in> set xs \<Longrightarrow> P z \<longleftrightarrow> z = y) \<Longrightarrow> filter P xs = replicate (count (mset xs) y) y"
  by (induction xs) auto

text \<open>When only equal elements compare as equal, the sorted list depends on the multiset alone.\<close>

lemma sort_perm:
  assumes "mset xs = mset ys"
    and "\<And>x y. x \<in> set xs \<Longrightarrow> y \<in> set xs \<Longrightarrow> compare c x y = Equiv \<Longrightarrow> x = y"
  shows "Sorting_Algorithms.sort c xs = Sorting_Algorithms.sort c ys"
proof (rule sort_eqI)
  show "mset xs = mset (Sorting_Algorithms.sort c ys)" using assms(1) by simp
  fix y assume y: "y \<in> set xs"
  have same: "set xs = set ys" using assms(1) by (rule mset_eq_setD)
  have eq: "\<And>z. z \<in> set xs \<Longrightarrow> compare c y z = Equiv \<longleftrightarrow> z = y" using assms(2) y by force
  have "filter (\<lambda>z. compare c y z = Equiv) xs = filter (\<lambda>z. compare c y z = Equiv) ys"
    using filter_replicate [of xs] filter_replicate [of ys] eq same assms(1) by simp
  then show "filter (\<lambda>z. compare c y z = Equiv) xs
      = filter (\<lambda>z. compare c y z = Equiv) (Sorting_Algorithms.sort c ys)"
    by (simp only: stable_sort)
qed simp

lemma distinct_sort [simp]: "distinct (Sorting_Algorithms.sort c xs) \<longleftrightarrow> distinct xs"
  by (metis mset_eq_imp_distinct_iff mset_sort)

lemma distinct_map_sort [simp]: "distinct (map f (Sorting_Algorithms.sort c xs)) \<longleftrightarrow> distinct (map f xs)"
  by (metis mset_eq_imp_distinct_iff mset_map mset_sort)

lemma length_filter_sort [simp]:
  "length (filter P (Sorting_Algorithms.sort c xs)) = length (filter P xs)"
  by (metis mset_filter mset_sort size_mset)

lemma map_sort_fixed: "(\<And>x. x \<in> set xs \<Longrightarrow> f x = x) \<Longrightarrow>
    map f (Sorting_Algorithms.sort c xs) = Sorting_Algorithms.sort c xs"
  by (rule map_idI) simp

lemma sum_list_sort [simp]:
  fixes f :: "'a \<Rightarrow> nat"
  shows "sum_list (map f (Sorting_Algorithms.sort c xs)) = sum_list (map f xs)"
  by (metis mset_map mset_sort sum_mset_sum_list)

text \<open>A strictly increasing key decides the order, so a list sorted by it is unique.\<close>

lemma inj_on_key_eq:
  "distinct (map f xs) \<Longrightarrow> x \<in> set xs \<Longrightarrow> y \<in> set xs \<Longrightarrow> f x = f y \<Longrightarrow> x = y"
  by (meson distinct_map inj_onD)

text \<open>An element whose key is among the first \<open>k\<close> comes before one whose key is not.\<close>

lemma sorted_wrt_take_before:
  assumes "sorted_wrt P xs" and "distinct (map f xs)" and "x \<in> set xs" and "y \<in> set xs"
    and "f x \<in> set (take k (map f xs))" and "f y \<notin> set (take k (map f xs))"
  shows "P x y"
proof -
  obtain x' where x': "x' \<in> set (take k xs)" "f x' = f x"
    using assms(5) by (auto simp: take_map)
  then have "x' = x" using assms(2,3) by (meson in_set_takeD inj_on_key_eq)
  with x' have "x \<in> set (take k xs)" by simp
  moreover have "y \<in> set (drop k xs)"
    using assms(4,6) by (metis UnE append_take_drop_id image_eqI list.set_map set_append take_map)
  moreover have "sorted_wrt P (take k xs @ drop k xs)" using assms(1) by simp
  ultimately show ?thesis unfolding sorted_wrt_append by blast
qed

text \<open>A stable sort of a list whose equivalent elements are in an order \<open>R\<close> is sorted by the comparator and then by \<open>R\<close>.\<close>

lemma sorted_wrt_stable:
  assumes "Sorting_Algorithms.sorted cmp xs" and "\<forall>x. sorted_wrt R (stable_segment cmp x xs)"
  shows "sorted_wrt (\<lambda>a b. compare cmp a b = Less \<or> compare cmp a b = Equiv \<and> R a b) xs"
  using assms
proof (induction xs rule: list.induct)
  case (Cons x xs)
  have sw: "sorted_wrt (\<lambda>a b. compare cmp a b \<noteq> Greater) (x # xs)" using Cons.prems(1) by (simp only: sorted_iff_wrt)
  have "compare cmp x y = Less \<or> compare cmp x y = Equiv \<and> R x y" if y: "y \<in> set xs" for y
  proof (cases "compare cmp x y")
    case Equiv
    then show ?thesis using spec [OF Cons.prems(2), of x] y by simp
  next
    case Greater
    then show ?thesis using sw y by simp
  qed simp
  moreover have "sorted_wrt R (stable_segment cmp z xs)" for z
    using spec [OF Cons.prems(2), of z] by (simp split: if_splits)
  moreover have "Sorting_Algorithms.sorted cmp xs" using sw by (simp add: sorted_iff_wrt)
  ultimately show ?case using Cons.IH by simp
qed simp

lemma sorted_wrt_stable_sort:
  assumes "sorted_wrt R xs"
  shows "sorted_wrt (\<lambda>a b. compare cmp a b = Less \<or> compare cmp a b = Equiv \<and> R a b) (Sorting_Algorithms.sort cmp xs)"
  by (rule sorted_wrt_stable) (simp_all add: stable_sort sorted_wrt_filter [OF assms])

text \<open>In a list ordered by an asymmetric relation, an element is among the first \<open>k\<close> if fewer than \<open>k\<close> come before it.\<close>

lemma take_by_rank:
  assumes "sorted_wrt P xs" and "distinct xs" and "\<And>a b. P a b \<Longrightarrow> \<not> P b a" and "x \<in> set xs"
  shows "x \<in> set (take k xs) \<longleftrightarrow> card {y \<in> set xs. P y x} < k"
proof -
  obtain us vs where xs: "xs = us @ x # vs" using assms(4) by (auto simp: in_set_conv_decomp)
  have "{y \<in> set xs. P y x} = set us"
    using assms(1) assms(3) unfolding xs by (auto simp: sorted_wrt_append)
  moreover have "card (set us) = length us" using assms(2) xs by (simp add: distinct_card)
  moreover have "x \<notin> set us" "x \<notin> set vs" using assms(2) xs by auto
  then have "x \<in> set (take k xs) \<longleftrightarrow> length us < k"
    unfolding xs by (cases "k - length us") (auto dest: in_set_takeD)
  ultimately show ?thesis by simp
qed

section \<open>Duplicate checks\<close>

text \<open>
  \<open>for x in xs { if !seen.insert(key(x)) { return Err(..) } }\<close>
\<close>

fun insert_distinct :: "('a \<Rightarrow> 'e) \<Rightarrow> ('a \<Rightarrow> 'k::linorder) \<Rightarrow> 'k btset \<Rightarrow> 'a list \<Rightarrow> ('e, 'k btset) res" where
  "insert_distinct err kf seen [] = Ok seen"
| "insert_distinct err kf seen (x # xs) =
     (if bt_contains seen (kf x) then Err (err x)
      else insert_distinct err kf (bs_insert (kf x) seen) xs)"

lemma unit_option_cases [simp]: "x \<noteq> Some () \<longleftrightarrow> x = None"
  by (cases x) auto

lemma insert_distinct_Ok:
  "insert_distinct err kf seen xs = Ok s \<Longrightarrow>
     distinct (map kf xs) \<and> (\<forall>x \<in> set xs. bt_get seen (kf x) = None) \<and>
     (\<forall>k. bt_get s k = (if k \<in> kf ` set xs then Some () else bt_get seen k))"
proof (induction xs arbitrary: seen)
  case Nil
  then show ?case by simp
next
  case (Cons x xs)
  then have fresh: "bt_get seen (kf x) = None" and
    "insert_distinct err kf (bs_insert (kf x) seen) xs = Ok s"
    by (auto split: if_splits)
  from Cons.IH [OF this(2)] fresh show ?case by (auto split: if_splits)
qed

lemma insert_distinct_succeeds:
  "distinct (map kf xs) \<Longrightarrow> (\<forall>x \<in> set xs. bt_get seen (kf x) = None) \<Longrightarrow>
     \<exists>s. insert_distinct err kf seen xs = Ok s"
proof (induction xs arbitrary: seen)
  case Nil
  then show ?case by simp
next
  case (Cons x xs)
  then have "\<forall>y \<in> set xs. kf y \<noteq> kf x" by (metis distinct.simps(2) image_eqI list.set_map list.simps(9))
  with Cons.prems Cons.IH [of "bs_insert (kf x) seen"] show ?case by simp
qed

lemma insert_distinct_not_Panic [simp]: "insert_distinct err kf seen xs \<noteq> Panic"
  by (induction xs arbitrary: seen) auto

lemma insert_distinct_empty_iff:
  "(\<exists>s. insert_distinct err kf bt_empty xs = Ok s) \<longleftrightarrow> distinct (map kf xs)"
  using insert_distinct_Ok insert_distinct_succeeds [where seen = bt_empty] by fastforce

section \<open>Checked sums\<close>

definition nsum :: "'w::len word list \<Rightarrow> nat" where
  "nsum ws = sum_list (map unat ws)"

lemma nsum_simps [simp]:
  "nsum [] = 0" "nsum (w # ws) = unat w + nsum ws" "nsum (vs @ ws) = nsum vs + nsum ws"
  by (simp_all add: nsum_def)

lemma nsum_mset: "mset xs = mset ys \<Longrightarrow> nsum xs = nsum ys"
  by (metis mset_map nsum_def sum_mset_sum_list)

definition try_sum :: "'e \<Rightarrow> 'w::len word list \<Rightarrow> ('e, 'w word) res" where
  "try_sum e ws = try_fold (\<lambda>total v. ok_or e (checked_add total v)) 0 ws"

lemma try_sum_aux:
  fixes t :: "'w::len word"
  shows "try_fold (\<lambda>total v. ok_or e (checked_add total v)) t ws =
     (if unat t + nsum ws < 2 ^ LENGTH('w) then Ok (of_nat (unat t + nsum ws)) else Err e)"
proof (induction ws arbitrary: t)
  case Nil
  then show ?case using unat_bound [of t] by simp
next
  case (Cons w ws)
  show ?case
  proof (cases "checked_add t w")
    case None
    moreover from this have "2 ^ LENGTH('w) \<le> unat t + unat w" by (simp add: checked_simps)
    ultimately show ?thesis by simp
  next
    case (Some s)
    then have "unat s = unat t + unat w" by (simp add: checked_simps)
    with Some Cons [of s] show ?thesis by (simp add: add.assoc)
  qed
qed

lemma try_sum_eq:
  fixes ws :: "'w::len word list"
  shows "try_sum e ws = (if nsum ws < 2 ^ LENGTH('w) then Ok (of_nat (nsum ws)) else Err e)"
  by (simp add: try_sum_def try_sum_aux)

lemma try_sum_Ok_iff [res_simps]:
  fixes ws :: "'w::len word list"
  shows "try_sum e ws = Ok s \<longleftrightarrow> unat s = nsum ws"
proof
  assume "try_sum e ws = Ok s"
  then show "unat s = nsum ws"
    by (auto simp: try_sum_eq unat_of_nat take_bit_eq_mod split: if_splits)
next
  assume s: "unat s = nsum ws"
  then have "nsum ws < 2 ^ LENGTH('w)" using unat_bound [of s] by (simp only:)
  moreover have "of_nat (nsum ws) = s" by (simp flip: s)
  ultimately show "try_sum e ws = Ok s" by (simp add: try_sum_eq)
qed

lemma try_sum_not_Panic [simp]: "try_sum e ws \<noteq> Panic"
  by (simp add: try_sum_eq)

end
