(* ===== verification/Payout.thy ===== *)
theory Payout
  imports Merkle Order
begin

text \<open>
  \<open>pohw-core/src/payout.rs\<close>: splitting a block reward between the hashrate pool and the Idena
  pool, selecting the direct outputs, and validating a schedule. The abstract specification is
  largest-remainder apportionment (\<open>hamilton\<close>); \<open>add_component\<close> refines it.
\<close>

section \<open>Data\<close>

record ParticipantAccount =
  acc_miner_id :: string
  acc_btc_payout_script_hex :: string
  acc_claim_owner_id :: string
  acc_unpaid_sats :: Sats
  acc_hashrate_score :: Score
  acc_idena_score :: Score

definition normalized_account :: "ParticipantAccount \<Rightarrow> ParticipantAccount" where
  "normalized_account a = a\<lparr>
     acc_miner_id := to_ascii_lowercase (acc_miner_id a),
     acc_btc_payout_script_hex := to_ascii_lowercase (acc_btc_payout_script_hex a),
     acc_claim_owner_id := to_ascii_lowercase (acc_claim_owner_id a)\<rparr>"

record DirectPayout =
  dp_miner_id :: string
  dp_btc_payout_script_hex :: string
  dp_amount_sats :: Sats

record VaultAllocation =
  va_miner_id :: string
  va_claim_owner_id :: string
  va_amount_sats :: Sats

record PayoutSchedule =
  ps_direct_outputs :: "DirectPayout list"
  ps_vault_allocations :: "VaultAllocation list"
  ps_vault_output_sats :: Sats
  ps_payout_root :: string

datatype PayoutError =
    AmountOverflow
  | ScoreOverflow
  | ScoreMultiplicationOverflow
  | ZeroScorePool string
  | PayoutRootMismatch string string
  | VaultOutputMismatch Sats Sats
  | ZeroAmount
  | NonCanonicalOrder string
  | DuplicateEntry string

text \<open>The serialised \<open>PayoutRootMaterial\<close>.\<close>

definition json_DirectPayout :: "DirectPayout \<Rightarrow> json" where
  "json_DirectPayout d = JObj [(''miner_id'', JStr (dp_miner_id d)),
     (''btc_payout_script_hex'', JStr (dp_btc_payout_script_hex d)),
     (''amount_sats'', JUInt (dp_amount_sats d))]"

definition json_VaultAllocation :: "VaultAllocation \<Rightarrow> json" where
  "json_VaultAllocation v = JObj [(''miner_id'', JStr (va_miner_id v)),
     (''claim_owner_id'', JStr (va_claim_owner_id v)),
     (''amount_sats'', JUInt (va_amount_sats v))]"

definition PayoutRootMaterial :: "DirectPayout list \<Rightarrow> VaultAllocation list \<Rightarrow> Sats \<Rightarrow> json" where
  "PayoutRootMaterial ds vs v = JObj [(''direct_outputs'', JArr (map json_DirectPayout ds)),
     (''vault_allocations'', JArr (map json_VaultAllocation vs)),
     (''vault_output_sats'', JUInt v)]"

definition compare_direct_outputs :: "DirectPayout comparator" where
  "compare_direct_outputs = then_with (desc dp_amount_sats) (asc dp_miner_id)"

definition compare_vault_allocations :: "VaultAllocation comparator" where
  "compare_vault_allocations = then_with (asc va_claim_owner_id) (asc va_miner_id)"

definition sum_sats :: "Sats list \<Rightarrow> (PayoutError, Sats) res" where
  "sum_sats vs = try_sum AmountOverflow vs"

definition sum_scores :: "Score list \<Rightarrow> (PayoutError, Score) res" where
  "sum_scores vs = try_sum ScoreOverflow vs"

section \<open>Validation of a schedule\<close>

definition expected_payout_root :: "extern \<Rightarrow> PayoutSchedule \<Rightarrow> string" where
  "expected_payout_root X s = merkle_root X [PayoutRootMaterial (ps_direct_outputs s)
     (ps_vault_allocations s) (ps_vault_output_sats s)]"

definition validate_schedule :: "extern \<Rightarrow> PayoutSchedule \<Rightarrow> (PayoutError, unit) res" where
  "validate_schedule X s = (let expected_root = expected_payout_root X s in
     if ps_payout_root s \<noteq> expected_root
     then Err (PayoutRootMismatch expected_root (ps_payout_root s))
     else if list_ex (\<lambda>d. dp_amount_sats d = 0) (ps_direct_outputs s)
       \<or> list_ex (\<lambda>v. va_amount_sats v = 0) (ps_vault_allocations s)
     then Err ZeroAmount
     else if \<not> Sorting_Algorithms.sorted compare_direct_outputs (ps_direct_outputs s)
     then Err (NonCanonicalOrder ''direct_outputs'')
     else if \<not> Sorting_Algorithms.sorted compare_vault_allocations (ps_vault_allocations s)
     then Err (NonCanonicalOrder ''vault_allocations'')
     else bindR (insert_distinct (\<lambda>_. DuplicateEntry ''direct miner'')
         (\<lambda>d. to_ascii_lowercase (dp_miner_id d)) bt_empty (ps_direct_outputs s)) (\<lambda>direct_miner_ids.
       bindR (insert_distinct (\<lambda>_. DuplicateEntry ''vault miner'')
         (\<lambda>v. to_ascii_lowercase (va_miner_id v)) bt_empty (ps_vault_allocations s)) (\<lambda>vault_miner_ids.
       if list_ex (bt_contains vault_miner_ids) (bt_keys direct_miner_ids)
       then Err (DuplicateEntry ''miner across direct and vault outputs'')
       else bindR (sum_sats (map va_amount_sats (ps_vault_allocations s))) (\<lambda>expected_vault_total.
         if ps_vault_output_sats s \<noteq> expected_vault_total
         then Err (VaultOutputMismatch expected_vault_total (ps_vault_output_sats s))
         else Ok ()))))"

section \<open>The reward split\<close>

text \<open>
  One iteration of the first loop of \<open>add_component\<close> on \<open>(deltas, allocated, remainders)\<close>.
  An index outside \<open>deltas\<close> would panic.
\<close>

definition component_step ::
  "(ParticipantAccount \<Rightarrow> Score) \<Rightarrow> Sats \<Rightarrow> Score \<Rightarrow>
   Sats list \<times> Sats \<times> (nat \<times> Score \<times> string) list \<Rightarrow> nat \<times> ParticipantAccount \<Rightarrow>
   (PayoutError, Sats list \<times> Sats \<times> (nat \<times> Score \<times> string) list) res" where
  "component_step score pool total_score = (\<lambda>(deltas, allocated, remainders) (idx, account).
     bindR (ok_or ScoreMultiplicationOverflow (checked_mul (score account) (ucast pool))) (\<lambda>numerator.
     let whole = (ucast (numerator div total_score) :: Sats);
         remainder = numerator mod total_score
     in if length deltas \<le> idx then Panic else
     bindR (ok_or AmountOverflow (checked_add (deltas ! idx) whole)) (\<lambda>delta.
     bindR (ok_or AmountOverflow (checked_add allocated whole)) (\<lambda>allocated'.
     Ok (deltas[idx := delta], allocated', remainders @ [(idx, remainder, acc_miner_id account)])))))"

definition compare_remainders :: "(nat \<times> Score \<times> string) comparator" where
  "compare_remainders = then_with (desc (\<lambda>(_, r, _). r)) (asc (\<lambda>(_, _, i). i))"

text \<open>The second loop: one satoshi each, in the order of the remainders, while any is left.\<close>

fun give_left :: "Sats \<Rightarrow> (nat \<times> Score \<times> string) list \<Rightarrow> Sats list \<Rightarrow> (PayoutError, Sats list) res" where
  "give_left left [] deltas = Ok deltas"
| "give_left left ((idx, _, _) # rest) deltas =
     (if left = 0 then Ok deltas
      else if length deltas \<le> idx then Panic
      else bindR (ok_or AmountOverflow (checked_add (deltas ! idx) 1)) (\<lambda>delta.
        give_left (left - 1) rest (deltas[idx := delta])))"

definition add_component ::
  "ParticipantAccount list \<Rightarrow> Sats list \<Rightarrow> Sats \<Rightarrow> string \<Rightarrow> (ParticipantAccount \<Rightarrow> Score) \<Rightarrow>
   (PayoutError, Sats list) res" where
  "add_component accounts deltas pool component score =
     (if pool = 0 then Ok deltas else
      bindR (sum_scores (map score accounts)) (\<lambda>total_score.
      if total_score = 0 then Err (ZeroScorePool component) else
      bindR (try_fold (component_step score pool total_score) (deltas, 0, []) (List.enumerate 0 accounts))
        (\<lambda>(deltas', allocated, remainders).
      bindR (ok_or AmountOverflow (checked_sub pool allocated)) (\<lambda>left.
      give_left left (Sorting_Algorithms.sort compare_remainders remainders) deltas'))))"

definition reward_deltas :: "ParticipantAccount list \<Rightarrow> Sats \<Rightarrow> (PayoutError, Sats list) res" where
  "reward_deltas accounts reward_sats = (let hash_pool = reward_sats div 2;
     idena_pool = reward_sats - hash_pool
     in bindR (add_component accounts (replicate (length accounts) 0) hash_pool ''hashrate''
          acc_hashrate_score) (\<lambda>deltas.
        add_component accounts deltas idena_pool ''idena'' acc_idena_score))"

section \<open>Building a schedule\<close>

definition rank_account ::
  "ParticipantAccount \<times> Sats \<Rightarrow> (PayoutError, ParticipantAccount \<times> Sats \<times> Sats) res" where
  "rank_account = (\<lambda>(account, delta).
     bindR (ok_or AmountOverflow (checked_add (acc_unpaid_sats account) delta)) (\<lambda>rank_balance.
       Ok (account, delta, rank_balance)))"

definition compare_ranked :: "(ParticipantAccount \<times> Sats \<times> Sats) comparator" where
  "compare_ranked = then_with (desc (\<lambda>(_, _, rank). rank))
     (then_with (desc (\<lambda>(_, delta, _). delta)) (asc (\<lambda>(a, _, _). acc_miner_id a)))"

text \<open>The loop that routes every non-zero delta to a direct output or to the vault.\<close>

fun route_deltas ::
  "string btset \<Rightarrow> (ParticipantAccount \<times> Sats) list \<Rightarrow> DirectPayout list \<times> VaultAllocation list" where
  "route_deltas selected_ids [] = ([], [])"
| "route_deltas selected_ids ((account, delta) # rest) =
     (let (direct_outputs, vault_allocations) = route_deltas selected_ids rest in
      if delta = 0 then (direct_outputs, vault_allocations)
      else if bt_contains selected_ids (acc_miner_id account)
      then (\<lparr>dp_miner_id = acc_miner_id account,
              dp_btc_payout_script_hex = acc_btc_payout_script_hex account,
              dp_amount_sats = delta\<rparr> # direct_outputs, vault_allocations)
      else (direct_outputs,
            \<lparr>va_miner_id = acc_miner_id account,
             va_claim_owner_id = acc_claim_owner_id account,
             va_amount_sats = delta\<rparr> # vault_allocations))"

definition select_direct ::
  "(ParticipantAccount \<times> Sats \<times> Sats) list \<Rightarrow> nat \<Rightarrow> Sats \<Rightarrow> string btset" where
  "select_direct ranked direct_limit min_direct_payout_sats =
     bs_collect (map (\<lambda>(account, _, _). acc_miner_id account)
       (take direct_limit (filter (\<lambda>(_, delta, _). delta \<ge> min_direct_payout_sats) ranked)))"

definition build_payout_schedule ::
  "extern \<Rightarrow> ParticipantAccount list \<Rightarrow> Sats \<Rightarrow> nat \<Rightarrow> Sats \<Rightarrow> (PayoutError, PayoutSchedule) res" where
  "build_payout_schedule X accounts0 reward_sats direct_limit min_direct_payout_sats =
     (let accounts = Sorting_Algorithms.sort (asc acc_miner_id) (map normalized_account accounts0) in
      bindR (reward_deltas accounts reward_sats) (\<lambda>deltas.
      bindR (try_map rank_account (zip accounts deltas)) (\<lambda>ranked0.
      let ranked = Sorting_Algorithms.sort compare_ranked ranked0;
          selected_ids = select_direct ranked direct_limit min_direct_payout_sats;
          (direct0, vault0) = route_deltas selected_ids (zip accounts deltas);
          direct_outputs = Sorting_Algorithms.sort compare_direct_outputs direct0;
          vault_allocations = Sorting_Algorithms.sort compare_vault_allocations vault0
      in bindR (sum_sats (map dp_amount_sats direct_outputs)) (\<lambda>direct_total.
         bindR (ok_or AmountOverflow (checked_sub reward_sats direct_total)) (\<lambda>vault_output_sats.
         Ok \<lparr>ps_direct_outputs = direct_outputs,
             ps_vault_allocations = vault_allocations,
             ps_vault_output_sats = vault_output_sats,
             ps_payout_root = merkle_root X
               [PayoutRootMaterial direct_outputs vault_allocations vault_output_sats]\<rparr>)))))"

definition default_schedule :: "extern \<Rightarrow> (PayoutError, PayoutSchedule) res" where
  "default_schedule X =
     (case build_payout_schedule X [] 0 DIRECT_PAYOUT_LIMIT MIN_DIRECT_PAYOUT_SATS of
        Ok s \<Rightarrow> Ok s | Err _ \<Rightarrow> Panic | Panic \<Rightarrow> Panic)"

section \<open>Largest-remainder apportionment\<close>

text \<open>
  The contract: a pool is only split when there is a score, shares add up to the pool, each is the exact quota rounded down or up, and the
  quotas that are rounded up are those with the largest remainders.
\<close>

definition hamilton :: "nat list \<Rightarrow> nat \<Rightarrow> nat list \<Rightarrow> bool" where
  "hamilton scores pool shares \<longleftrightarrow> (let total = sum_list scores in
     (0 < pool \<longrightarrow> 0 < total) \<and>
     length shares = length scores \<and> sum_list shares = pool \<and>
     (\<forall>i < length scores. shares ! i \<in> {scores ! i * pool div total, scores ! i * pool div total + 1}) \<and>
     (\<forall>i < length scores. \<forall>j < length scores.
        shares ! i = scores ! i * pool div total + 1 \<longrightarrow> shares ! j = scores ! j * pool div total \<longrightarrow>
        scores ! j * pool mod total \<le> scores ! i * pool mod total))"

text \<open>The shares in closed form, with the order the code breaks ties in.\<close>

text \<open>
  Account \<open>j\<close> comes before account \<open>i\<close> when the satoshis left over are handed out: by the larger
  remainder, then by the smaller miner id, then by position.
\<close>

definition served_before :: "nat list \<Rightarrow> string list \<Rightarrow> nat \<Rightarrow> nat \<Rightarrow> nat \<Rightarrow> bool" where
  "served_before scores ids pool j i \<longleftrightarrow> (let r = (\<lambda>k. scores ! k * pool mod sum_list scores) in
     r i < r j \<or> r i = r j \<and> (ids ! j < ids ! i \<or> ids ! j = ids ! i \<and> j < i))"

definition largest_remainder :: "nat list \<Rightarrow> string list \<Rightarrow> nat \<Rightarrow> nat list" where
  "largest_remainder scores ids pool = (let q = (\<lambda>i. scores ! i * pool div sum_list scores); n = length scores in
     map (\<lambda>i. q i + (if card {j. j < n \<and> served_before scores ids pool j i} < pool - (\<Sum>k<n. q k) then 1 else 0)) [0..<n])"

section \<open>The apportionment arithmetic\<close>

lemma quota_sum:
  fixes p t :: nat
  shows "(\<Sum>s\<leftarrow>ss. s * p div t) * t + (\<Sum>s\<leftarrow>ss. s * p mod t) = sum_list ss * p"
proof (induction ss)
  case Nil
  then show ?case by simp
next
  case (Cons s ss)
  have "s * p div t * t + s * p mod t = s * p" by (rule div_mult_mod_eq)
  with Cons show ?case by (simp add: algebra_simps)
qed

lemma remainder_sum_less:
  fixes p t :: nat
  assumes "ss \<noteq> []" and "0 < t"
  shows "(\<Sum>s\<leftarrow>ss. s * p mod t) < length ss * t"
  using assms
proof (induction ss rule: list_nonempty_induct)
  case (single s)
  then show ?case by simp
next
  case (cons s ss)
  then have "s * p mod t < t" by simp
  with cons show ?case by simp
qed

lemma quota_left:
  fixes p :: nat
  assumes "0 < sum_list ss"
  defines "q \<equiv> \<Sum>s\<leftarrow>ss. s * p div sum_list ss"
  shows "q \<le> p" and "p - q < length ss" and "(p - q) * sum_list ss = (\<Sum>s\<leftarrow>ss. s * p mod sum_list ss)"
proof -
  let ?t = "sum_list ss"
  let ?r = "\<Sum>s\<leftarrow>ss. s * p mod ?t"
  have sum: "q * ?t + ?r = ?t * p" using quota_sum [of p ?t ss] by (simp add: q_def)
  then have "q * ?t \<le> p * ?t" by (metis le_add1 mult.commute)
  then show le: "q \<le> p" using assms(1) by simp
  have "p * ?t - q * ?t = ?r" using sum by (metis diff_add_inverse mult.commute)
  then show eq: "(p - q) * ?t = ?r" by (simp only: diff_mult_distrib)
  have "ss \<noteq> []" using assms(1) by auto
  then have "?r < length ss * ?t" using assms(1) by (rule remainder_sum_less)
  with eq show "p - q < length ss" by (metis mult_less_cancel2)
qed

definition quota :: "(ParticipantAccount \<Rightarrow> Score) \<Rightarrow> Sats \<Rightarrow> Score \<Rightarrow> ParticipantAccount \<Rightarrow> nat" where
  "quota score pool tot a = unat (score a) * unat pool div unat tot"

definition rest :: "(ParticipantAccount \<Rightarrow> Score) \<Rightarrow> Sats \<Rightarrow> Score \<Rightarrow> ParticipantAccount \<Rightarrow> nat" where
  "rest score pool tot a = unat (score a) * unat pool mod unat tot"

definition fits :: "(ParticipantAccount \<Rightarrow> Score) \<Rightarrow> Sats \<Rightarrow> ParticipantAccount \<Rightarrow> bool" where
  "fits score pool a \<longleftrightarrow> unat (score a) * unat pool < 2 ^ 128"

lemma quota_le_pool: "unat (score a) \<le> unat tot \<Longrightarrow> quota score pool tot a \<le> unat pool"
proof -
  assume "unat (score a) \<le> unat tot"
  then have "quota score pool tot a \<le> unat tot * unat pool div unat tot"
    unfolding quota_def by (intro div_le_mono mult_right_mono) simp_all
  also have "\<dots> \<le> unat pool" by (cases "unat tot = 0") simp_all
  finally show ?thesis .
qed

lemma component_step_eq:
  assumes "unat (score a) \<le> unat tot" and "idx < length ds"
    and "unat (ds ! idx) + quota score pool tot a < 2 ^ 64"
    and "unat al + quota score pool tot a < 2 ^ 64"
  shows "component_step score pool tot (ds, al, rs) (idx, a) =
    (if fits score pool a then Ok (ds[idx := ds ! idx + of_nat (quota score pool tot a)],
       al + of_nat (quota score pool tot a), rs @ [(idx, of_nat (rest score pool tot a), acc_miner_id a)])
     else Err ScoreMultiplicationOverflow)"
proof (cases "checked_mul (score a) (ucast pool)")
  case None
  then have "\<not> fits score pool a" by (simp add: checked_simps fits_def unat_widen)
  with None show ?thesis by (simp add: component_step_def)
next
  case (Some n)
  then have n: "unat n = unat (score a) * unat pool" by (simp add: checked_simps unat_widen)
  then have "fits score pool a" using unat_bound [of n] by (simp add: fits_def)
  have q: "unat (n div tot) = quota score pool tot a"
    by (simp add: unat_div n quota_def)
  have "quota score pool tot a < 2 ^ 64" using quota_le_pool [of score a tot pool, OF assms(1)] unat_bound64 [of pool]
    by (rule order_le_less_trans)
  then have w: "ucast (n div tot) = (of_nat (quota score pool tot a) :: u64)"
    using q by (intro unat_eq_word) (simp add: unat_narrow unat_of_nat take_bit_eq_mod)
  have "unat (n mod tot) = rest score pool tot a"
    by (simp add: unat_mod n rest_def)
  then have r: "n mod tot = of_nat (rest score pool tot a)" by (metis of_nat_unat_word)
  show ?thesis
    using Some w r assms \<open>fits score pool a\<close>
    by (simp add: component_step_def Let_def checked_add_def unat_of_nat)
qed


lemma component_loop_eq:
  assumes "length todo = length as" and "\<forall>a \<in> set as. unat (score a) \<le> unat tot"
    and "\<forall>(d, a) \<in> set (zip todo as). unat d + quota score pool tot a < 2 ^ 64"
    and "unat al + (\<Sum>a\<leftarrow>as. quota score pool tot a) < 2 ^ 64"
  shows "try_fold (component_step score pool tot) (done0 @ todo, al, rs) (List.enumerate (length done0) as) =
    (if \<forall>a \<in> set as. fits score pool a
     then Ok (done0 @ map2 (\<lambda>d a. d + of_nat (quota score pool tot a)) todo as,
       al + of_nat (\<Sum>a\<leftarrow>as. quota score pool tot a),
       rs @ map (\<lambda>(i, a). (i, of_nat (rest score pool tot a), acc_miner_id a)) (List.enumerate (length done0) as))
     else Err ScoreMultiplicationOverflow)"
  using assms
proof (induction as arbitrary: done0 todo al rs)
  case Nil
  then show ?case by simp
next
  case (Cons a as)
  then obtain d todo' where todo: "todo = d # todo'" and len: "length todo' = length as"
    by (cases todo) auto
  let ?q = "quota score pool tot a"
  have step: "component_step score pool tot (done0 @ todo, al, rs) (length done0, a) =
    (if fits score pool a then Ok ((done0 @ [d + of_nat ?q]) @ todo', al + of_nat ?q,
       rs @ [(length done0, of_nat (rest score pool tot a), acc_miner_id a)])
     else Err ScoreMultiplicationOverflow)"
    using Cons.prems todo by (subst component_step_eq) (auto simp: nth_append list_update_append)
  have "unat (al + of_nat ?q) = unat al + ?q"
    using Cons.prems(4) by (subst unat_add_exact) (auto simp: unat_of_nat take_bit_eq_mod)
  then have "unat (al + of_nat ?q) + (\<Sum>a\<leftarrow>as. quota score pool tot a) < 2 ^ 64"
    using Cons.prems(4) by simp
  note IH = Cons.IH [OF len _ _ this, of "done0 @ [d + of_nat ?q]"
      "rs @ [(length done0, of_nat (rest score pool tot a), acc_miner_id a)]"]
  show ?case
    using Cons.prems todo step IH by (simp add: algebra_simps)
qed

text \<open>The second loop adds one satoshi at the first \<open>left\<close> indices.\<close>

lemma give_left_eq:
  assumes "distinct (map fst rs)" and "\<forall>r \<in> set rs. fst r < length ds \<and> (left \<noteq> 0 \<longrightarrow> unat (ds ! fst r) + 1 < 2 ^ 64)"
  shows "give_left left rs ds = Ok (map (\<lambda>i. if i \<in> set (take (unat left) (map fst rs)) then ds ! i + 1 else ds ! i)
     [0..<length ds])"
  using assms
proof (induction rs arbitrary: left ds)
  case Nil
  then show ?case by (simp add: map_nth)
next
  case (Cons r rs)
  obtain i x y where r: "r = (i, x, y)" by (cases r) auto
  show ?case
  proof (cases "left = 0")
    case True
    then show ?thesis using r by (simp add: map_nth)
  next
    case False
    then have "unat left \<noteq> 0" by simp
    then have n: "unat left = Suc (unat (left - 1))"
      using unat_minus_one [OF False] by simp
    let ?ds = "ds[i := ds ! i + 1]"
    have "\<forall>r' \<in> set rs. i \<noteq> fst r'" using Cons.prems(1) r by (auto simp: image_iff)
    then have "\<forall>r' \<in> set rs. fst r' < length ?ds \<and> (left - 1 \<noteq> 0 \<longrightarrow> unat (?ds ! fst r') + 1 < 2 ^ 64)"
      using Cons.prems(2) False by simp
    with Cons.prems Cons.IH [of ?ds "left - 1"] have IH: "give_left (left - 1) rs ?ds =
      Ok (map (\<lambda>j. if j \<in> set (take (unat (left - 1)) (map fst rs)) then ?ds ! j + 1 else ?ds ! j)
        [0..<length ?ds])" by simp
    have "i \<notin> set (take (unat (left - 1)) (map fst rs))"
      using Cons.prems(1) r by (auto dest: in_set_takeD)
    then have upd: "(if j \<in> set (take (unat (left - 1)) (map fst rs)) then ?ds ! j + 1 else ?ds ! j) =
      (if j \<in> set (take (unat left) (map fst (r # rs))) then ds ! j + 1 else ds ! j)"
      if "j < length ds" for j using that r n by (cases "j = i") simp_all
    have "give_left left (r # rs) ds = give_left (left - 1) rs ?ds"
      using Cons.prems(2) r False by (simp add: checked_add_def)
    also have "\<dots> = Ok (map (\<lambda>i. if i \<in> set (take (unat left) (map fst (r # rs))) then ds ! i + 1 else ds ! i)
       [0..<length ds])"
      unfolding IH using upd by (simp cong: map_cong)
    finally show ?thesis .
  qed
qed


definition remainders_of ::
  "(ParticipantAccount \<Rightarrow> Score) \<Rightarrow> Sats \<Rightarrow> Score \<Rightarrow> ParticipantAccount list \<Rightarrow> (nat \<times> Score \<times> string) list" where
  "remainders_of score pool tot as = Sorting_Algorithms.sort compare_remainders
     (map (\<lambda>(i, a). (i, of_nat (rest score pool tot a), acc_miner_id a)) (List.enumerate 0 as))"

lemma fst_remainders:
  "mset (map fst (remainders_of score pool tot as)) = mset [0..<length as]"
proof -
  have "map fst (map (\<lambda>(i, a). (i, of_nat (rest score pool tot a) :: Score, acc_miner_id a))
      (List.enumerate 0 as)) = [0..<length as]"
    by (simp add: comp_def case_prod_unfold)
  from arg_cong [OF this, of mset] show ?thesis
    by (simp only: mset_map mset_sort remainders_of_def)
qed

lemma remainders_distinct: "distinct (map fst (remainders_of score pool tot as))"
  using mset_eq_imp_distinct_iff [OF fst_remainders] by simp

lemma remainders_index:
  "fst ` set (remainders_of score pool tot as) = {..<length as}"
  "length (remainders_of score pool tot as) = length as"
proof -
  have "set (map fst (remainders_of score pool tot as)) = set [0..<length as]"
    using fst_remainders by (rule mset_eq_setD)
  then show "fst ` set (remainders_of score pool tot as) = {..<length as}" by auto
qed (simp add: remainders_of_def)

lemma remainders_mem:
  "i < length as \<Longrightarrow>
     (i, of_nat (rest score pool tot (as ! i)), acc_miner_id (as ! i)) \<in> set (remainders_of score pool tot as)"
  by (force simp: remainders_of_def in_set_enumerate_eq)

text \<open>The indices that get a satoshi of the second loop.\<close>

definition winners ::
  "(ParticipantAccount \<Rightarrow> Score) \<Rightarrow> Sats \<Rightarrow> Score \<Rightarrow> ParticipantAccount list \<Rightarrow> nat \<Rightarrow> nat set" where
  "winners score pool tot as left = set (take left (map fst (remainders_of score pool tot as)))"

lemma winners_order:
  assumes "i < length as" and "j < length as" and "tot \<noteq> 0"
    and "i \<in> winners score pool tot as left" and "j \<notin> winners score pool tot as left"
  shows "rest score pool tot (as ! j) \<le> rest score pool tot (as ! i)"
proof -
  have word: "unat (of_nat (rest score pool tot a) :: Score) = rest score pool tot a" for a
  proof (rule unat_of_nat_exact)
    have "rest score pool tot a < unat tot" using assms(3) by (simp add: rest_def)
    then show "rest score pool tot a < 2 ^ LENGTH(128)" using unat_bound128 [of tot] by simp
  qed
  have "Sorting_Algorithms.sorted compare_remainders (remainders_of score pool tot as)"
    by (simp add: remainders_of_def)
  then have "compare compare_remainders
      (i, of_nat (rest score pool tot (as ! i)), acc_miner_id (as ! i))
      (j, of_nat (rest score pool tot (as ! j)), acc_miner_id (as ! j)) \<noteq> Greater"
    unfolding sorted_iff_wrt
    by (rule sorted_wrt_take_before [where f = fst and k = left])
      (use assms in \<open>simp_all add: remainders_distinct remainders_mem winners_def\<close>)
  then show ?thesis
    by (auto simp: compare_remainders_def word word_less_nat_alt word_unat_eq_iff split: if_splits)
qed

lemma winners_by_rank:
  assumes tot: "sum_list (map (unat \<circ> score) as) = unat tot" "tot \<noteq> 0" and i: "i < length as"
  shows "i \<in> winners score pool tot as left \<longleftrightarrow>
    card {j. j < length as \<and> served_before (map (unat \<circ> score) as) (map acc_miner_id as) (unat pool) j i} < left"
proof -
  let ?P = "served_before (map (unat \<circ> score) as) (map acc_miner_id as) (unat pool)"
  let ?f = "\<lambda>i. (i, of_nat (rest score pool tot (as ! i)) :: Score, acc_miner_id (as ! i))"
  let ?L = "remainders_of score pool tot as"
  have word: "unat (of_nat (rest score pool tot a) :: Score) = rest score pool tot a" for a
    using assms(2) unat_bound128 [of tot] by (intro unat_of_nat_exact) (simp add: rest_def order_less_trans [OF mod_less_divisor])
  have enum: "map (\<lambda>(i, a). (i, of_nat (rest score pool tot a) :: Score, acc_miner_id a)) (List.enumerate 0 as) = map ?f [0..<length as]"
    by (rule nth_equalityI) (simp_all add: nth_enumerate_eq)
  have L: "?L = Sorting_Algorithms.sort compare_remainders (map ?f [0..<length as])"
    unfolding remainders_of_def enum ..
  have "sorted_wrt (\<lambda>a b. fst a < fst b) (map ?f [0..<length as])" by (simp add: sorted_wrt_map)
  then have "sorted_wrt (\<lambda>a b. compare compare_remainders a b = Less \<or> compare compare_remainders a b = Equiv \<and> fst a < fst b) ?L"
    unfolding L by (rule sorted_wrt_stable_sort)
  moreover have "?P (fst a) (fst b)" if "a \<in> set ?L" "b \<in> set ?L"
    "compare compare_remainders a b = Less \<or> compare compare_remainders a b = Equiv \<and> fst a < fst b" for a b
    using that word tot(1)
    by (auto simp: L compare_remainders_def served_before_def Let_def rest_def [symmetric] word_less_nat_alt word_unat_eq_iff
        split: if_splits)
  ultimately have "sorted_wrt (\<lambda>a b. ?P (fst a) (fst b)) ?L" by (rule sorted_wrt_mono_rel [rotated])
  then have srt: "sorted_wrt ?P (map fst ?L)" by (simp add: sorted_wrt_map)
  have asym: "\<And>a b. ?P a b \<Longrightarrow> \<not> ?P b a" by (auto simp: served_before_def Let_def)
  have mem: "set (map fst ?L) = {..<length as}" using remainders_index(1) by simp
  have "i \<in> set (take left (map fst ?L)) \<longleftrightarrow> card {j \<in> set (map fst ?L). ?P j i} < left"
    by (rule take_by_rank [OF srt remainders_distinct asym]) (use i mem in simp_all)
  then show ?thesis unfolding winners_def mem by (simp add: lessThan_iff)
qed

lemma winners_card: "left \<le> length as \<Longrightarrow> card (winners score pool tot as left) = left"
  by (simp add: winners_def distinct_card remainders_distinct remainders_index)

lemma winners_subset: "winners score pool tot as left \<subseteq> {..<length as}"
  using remainders_index(1) [of score pool tot as] by (auto simp: winners_def dest: in_set_takeD)


lemma sum_floor_winners:
  assumes "W \<subseteq> {..<n}"
  shows "sum_list (map (\<lambda>i. f i + (if i \<in> W then 1 else 0 :: nat)) [0..<n]) = sum_list (map f [0..<n]) + card W"
proof -
  have "(\<Sum>i<n. if i \<in> W then 1 else 0 :: nat) = card W"
    using assms by (simp add: sum.If_cases Int_absorb1 Int_def [symmetric])
  then show ?thesis
    by (simp add: sum_list_addf interv_sum_list_conv_sum_set_nat atLeast0LessThan)
qed

text \<open>The whole of \<open>add_component\<close> on scores that do not overflow.\<close>

lemma nsum_nth_le: "i < length ds \<Longrightarrow> unat (ds ! i) \<le> nsum ds"
  by (metis elem_le_sum_list length_map nsum_def nth_map)

lemma nsum_of_scores: "nsum (map score as) = sum_list (map (\<lambda>a. unat (score a)) as)"
  by (simp add: nsum_def comp_def)

definition leftover ::
  "(ParticipantAccount \<Rightarrow> Score) \<Rightarrow> Sats \<Rightarrow> Score \<Rightarrow> ParticipantAccount list \<Rightarrow> nat" where
  "leftover score pool tot as = unat pool - (\<Sum>a\<leftarrow>as. quota score pool tot a)"

definition share_of ::
  "(ParticipantAccount \<Rightarrow> Score) \<Rightarrow> Sats \<Rightarrow> Score \<Rightarrow> ParticipantAccount list \<Rightarrow> nat \<Rightarrow> nat" where
  "share_of score pool tot as i = quota score pool tot (as ! i) +
     (if i \<in> winners score pool tot as (leftover score pool tot as) then 1 else 0)"

lemma leftover_facts:
  assumes "unat tot = nsum (map score as)" and "tot \<noteq> 0"
  shows "(\<Sum>a\<leftarrow>as. quota score pool tot a) \<le> unat pool"
    and "leftover score pool tot as < length as"
    and "\<forall>a \<in> set as. unat (score a) \<le> unat tot"
    and "sum_list (map (unat \<circ> score) as) = unat tot"
proof -
  show tot: "sum_list (map (unat \<circ> score) as) = unat tot"
    using assms(1) by (simp add: nsum_of_scores comp_def)
  have pos: "0 < sum_list (map (unat \<circ> score) as)" using tot assms(2) by (metis unat_pos_iff)
  have Q: "(\<Sum>a\<leftarrow>as. quota score pool tot a) =
      (\<Sum>s\<leftarrow>map (unat \<circ> score) as. s * unat pool div sum_list (map (unat \<circ> score) as))"
    by (simp add: quota_def tot [unfolded comp_def] comp_def)
  note left = quota_left [OF pos, of "unat pool", folded Q]
  show "(\<Sum>a\<leftarrow>as. quota score pool tot a) \<le> unat pool" by (rule left(1))
  show "leftover score pool tot as < length as" using left(2) by (simp add: leftover_def)
  show "\<forall>a \<in> set as. unat (score a) \<le> unat tot"
    using member_le_sum_list [of "unat (score _)" "map (unat \<circ> score) as"] by (auto simp: tot)
qed

lemma sum_share_of:
  assumes "unat tot = nsum (map score as)" and "tot \<noteq> 0"
  shows "sum_list (map (share_of score pool tot as) [0..<length as]) = unat pool"
proof -
  note left = leftover_facts [OF assms]
  have "sum_list (map (share_of score pool tot as) [0..<length as]) =
      sum_list (map (\<lambda>i. quota score pool tot (as ! i)) [0..<length as]) + leftover score pool tot as"
    unfolding share_of_def
    by (subst sum_floor_winners) (use left(2) in \<open>simp_all add: winners_subset winners_card less_imp_le\<close>)
  also have "map (\<lambda>i. quota score pool tot (as ! i)) [0..<length as] = map (quota score pool tot) as"
    by (rule nth_equalityI) simp_all
  finally show ?thesis using left(1) by (simp add: leftover_def)
qed

lemma shares_hamilton:
  assumes "unat tot = nsum (map score as)" and "tot \<noteq> 0"
  shows "hamilton (map (unat \<circ> score) as) (unat pool) (map (share_of score pool tot as) [0..<length as])"
proof -
  note left = leftover_facts [OF assms]
  show ?thesis
    unfolding hamilton_def Let_def left(4)
    using sum_share_of [OF assms, of pool] winners_order [OF _ _ assms(2)] assms(2)
    by (auto simp: share_of_def quota_def rest_def split: if_splits)
qed

lemma shares_closed_form:
  assumes "unat tot = nsum (map score as)" and "tot \<noteq> 0"
  shows "map (share_of score pool tot as) [0..<length as] =
    largest_remainder (map (unat \<circ> score) as) (map acc_miner_id as) (unat pool)"
proof -
  note left = leftover_facts [OF assms]
  have "(\<Sum>a\<leftarrow>as. quota score pool tot a) = (\<Sum>k<length as. quota score pool tot (as ! k))"
    by (simp add: sum_list_sum_nth atLeast0LessThan)
  then show ?thesis
    using winners_by_rank [OF left(4) assms(2), of _ pool "leftover score pool tot as"] left(4)
    by (simp add: largest_remainder_def Let_def share_of_def leftover_def quota_def)
qed

definition pool_shares :: "(ParticipantAccount \<Rightarrow> Score) \<Rightarrow> Sats \<Rightarrow> ParticipantAccount list \<Rightarrow> nat list" where
  "pool_shares score pool as = largest_remainder (map (unat \<circ> score) as) (map acc_miner_id as) (unat pool)"

lemma pool_shares_zero: "pool_shares score 0 as = replicate (length as) 0"
  by (rule nth_equalityI) (simp_all add: pool_shares_def largest_remainder_def Let_def)

text \<open>The deltas after the first loop.\<close>

definition floor_deltas ::
  "(ParticipantAccount \<Rightarrow> Score) \<Rightarrow> Sats \<Rightarrow> Score \<Rightarrow> Sats list \<Rightarrow> ParticipantAccount list \<Rightarrow> Sats list" where
  "floor_deltas score pool tot ds as = map2 (\<lambda>d a. d + of_nat (quota score pool tot a)) ds as"

lemma floor_deltas_bounds:
  assumes "unat tot = nsum (map score as)" and "tot \<noteq> 0"
    and len: "length ds = length as" and room: "nsum ds + unat pool < 2 ^ 64" and i: "i < length as"
  shows "unat (ds ! i) + quota score pool tot (as ! i) < 2 ^ 64"
    and "leftover score pool tot as \<noteq> 0 \<Longrightarrow> unat (floor_deltas score pool tot ds as ! i) + 1 < 2 ^ 64"
proof -
  let ?Q = "\<Sum>a\<leftarrow>as. quota score pool tot a"
  have le: "?Q \<le> unat pool" by (rule leftover_facts(1) [OF assms(1,2)])
  have "quota score pool tot (as ! i) \<le> ?Q" using i by (simp add: member_le_sum_list)
  then have sum: "unat (ds ! i) + quota score pool tot (as ! i) \<le> nsum ds + ?Q"
    using nsum_nth_le [of i ds] len i by simp
  then show lt: "unat (ds ! i) + quota score pool tot (as ! i) < 2 ^ 64" using le room by linarith
  assume "leftover score pool tot as \<noteq> 0"
  then have "?Q < unat pool" by (simp add: leftover_def)
  moreover have "unat (floor_deltas score pool tot ds as ! i) = unat (ds ! i) + quota score pool tot (as ! i)"
    using lt i len by (simp add: floor_deltas_def unat_add_exact unat_of_nat_exact)
  ultimately show "unat (floor_deltas score pool tot ds as ! i) + 1 < 2 ^ 64" using sum room by linarith
qed

lemma unat_leftover: "unat (of_nat (leftover score pool tot as) :: Sats) = leftover score pool tot as"
  using unat_bound64 [of pool] by (intro unat_of_nat_exact) (simp add: leftover_def)

lemma give_left_shares:
  assumes "unat tot = nsum (map score as)" and "tot \<noteq> 0"
    and len: "length ds = length as" and "nsum ds + unat pool < 2 ^ 64"
  shows "give_left (of_nat (leftover score pool tot as)) (remainders_of score pool tot as)
      (floor_deltas score pool tot ds as) =
    Ok (map (\<lambda>i. ds ! i + of_nat (share_of score pool tot as i)) [0..<length as])"
proof -
  let ?F = "floor_deltas score pool tot ds as"
  have lenF: "length ?F = length as" using len by (simp add: floor_deltas_def)
  have "fst r < length as" if "r \<in> set (remainders_of score pool tot as)" for r
    using that remainders_index(1) [of score pool tot as] by auto
  then have "\<forall>r \<in> set (remainders_of score pool tot as). fst r < length ?F \<and>
      (of_nat (leftover score pool tot as) \<noteq> (0 :: Sats) \<longrightarrow> unat (?F ! fst r) + 1 < 2 ^ 64)"
    using floor_deltas_bounds(2) [OF assms] lenF by (cases "leftover score pool tot as = 0") simp_all
  from give_left_eq [OF remainders_distinct this] show ?thesis
    using lenF len by (auto simp: unat_leftover winners_def share_of_def floor_deltas_def)
qed

lemma component_loop_floor:
  assumes "unat tot = nsum (map score as)" and "tot \<noteq> 0"
    and len: "length ds = length as" and "nsum ds + unat pool < 2 ^ 64"
  shows "try_fold (component_step score pool tot) (ds, 0, []) (List.enumerate 0 as) =
    (if \<forall>a \<in> set as. fits score pool a
     then Ok (floor_deltas score pool tot ds as, of_nat (\<Sum>a\<leftarrow>as. quota score pool tot a),
       map (\<lambda>(i, a). (i, of_nat (rest score pool tot a), acc_miner_id a)) (List.enumerate 0 as))
     else Err ScoreMultiplicationOverflow)"
proof -
  have "(\<Sum>a\<leftarrow>as. quota score pool tot a) < 2 ^ 64"
    using leftover_facts(1) [OF assms(1,2)] unat_bound64 by (rule order_le_less_trans)
  moreover have "\<forall>(d, a) \<in> set (zip ds as). unat d + quota score pool tot a < 2 ^ 64"
    using floor_deltas_bounds(1) [OF assms] len by (auto simp only: set_zip)
  ultimately show ?thesis
    using component_loop_eq [OF len leftover_facts(3) [OF assms(1,2)], of pool 0 "[]" "[]"]
    by (simp add: floor_deltas_def)
qed

text \<open>The whole of \<open>add_component\<close>, every branch.\<close>

lemma add_component_eq:
  assumes len: "length ds = length as" and room: "nsum ds + unat pool < 2 ^ 64"
  shows "add_component as ds pool component score =
    (if pool = 0 then Ok ds
     else if 2 ^ 128 \<le> nsum (map score as) then Err ScoreOverflow
     else if nsum (map score as) = 0 then Err (ZeroScorePool component)
     else if \<exists>a \<in> set as. \<not> fits score pool a then Err ScoreMultiplicationOverflow
     else Ok (map (\<lambda>i. ds ! i + of_nat (share_of score pool (of_nat (nsum (map score as))) as i)) [0..<length as]))"
proof (cases "pool = 0 \<or> 2 ^ 128 \<le> nsum (map score as)")
  case True
  then show ?thesis by (auto simp: add_component_def sum_scores_def try_sum_eq)
next
  case False
  define tot :: Score where "tot = of_nat (nsum (map score as))"
  have tot: "unat tot = nsum (map score as)" using False by (simp add: tot_def unat_of_nat_exact)
  have sum: "sum_scores (map score as) = Ok tot" using tot by (simp add: sum_scores_def res_simps)
  show ?thesis
  proof (cases "tot = 0")
    case True
    then have "nsum (map score as) = 0" using tot by simp
    then show ?thesis using False True sum by (simp add: add_component_def)
  next
    case nz: False
    then have "nsum (map score as) \<noteq> 0" using tot by (metis unat_pos_iff less_irrefl)
    let ?Q = "\<Sum>a\<leftarrow>as. quota score pool tot a"
    have le: "?Q \<le> unat pool" by (rule leftover_facts(1) [OF tot nz])
    then have "unat (of_nat ?Q :: Sats) = ?Q"
      using unat_bound64 [of pool] by (intro unat_of_nat_exact) (simp add: order_le_less_trans)
    then have "checked_sub pool (of_nat ?Q) = Some (of_nat (leftover score pool tot as))"
      using le unat_leftover [of score pool tot as] by (simp add: checked_sub_Some_iff leftover_def)
    then show ?thesis
      using False nz sum component_loop_floor [OF tot nz len room] give_left_shares [OF tot nz len room]
        \<open>nsum (map score as) \<noteq> 0\<close>
      by (simp add: add_component_def remainders_of_def tot_def [symmetric])
  qed
qed


lemma nsum_shares:
  fixes ds :: "Sats list"
  assumes "unat tot = nsum (map score as)" and "tot \<noteq> 0"
    and len: "length ds = length as" and room: "nsum ds + unat pool < 2 ^ 64"
  defines "ds' \<equiv> map (\<lambda>i. ds ! i + of_nat (share_of score pool tot as i)) [0..<length as]"
  shows "map unat ds' = map2 (+) (map unat ds) (map (share_of score pool tot as) [0..<length as])"
    and "nsum ds' = nsum ds + unat pool"
proof -
  let ?sh = "share_of score pool tot as"
  have sum: "sum_list (map ?sh [0..<length as]) = unat pool" by (rule sum_share_of [OF assms(1,2)])
  have le: "?sh i \<le> unat pool" if "i < length as" for i
    using member_le_sum_list [of "?sh i" "map ?sh [0..<length as]"] that sum by simp
  have ex: "unat (ds ! i + of_nat (?sh i)) = unat (ds ! i) + ?sh i" if "i < length as" for i
  proof -
    have "unat (ds ! i) + ?sh i < 2 ^ 64" using nsum_nth_le [of i ds] le [OF that] len that room by linarith
    then show ?thesis by (simp add: unat_add_of_nat)
  qed
  show eq: "map unat ds' = map2 (+) (map unat ds) (map ?sh [0..<length as])"
    using len ex by (intro nth_equalityI) (simp_all add: ds'_def)
  have "sum_list (map2 (+) (map unat ds) (map ?sh [0..<length as])) = nsum ds + sum_list (map ?sh [0..<length as])"
    using len by (simp add: nsum_def sum_list_addf [symmetric] case_prod_unfold)
      (simp add: sum_list_addf case_prod_unfold map_fst_zip map_snd_zip)
  then show "nsum ds' = nsum ds + unat pool" using eq sum by (simp add: nsum_def)
qed

definition component_ok :: "(ParticipantAccount \<Rightarrow> Score) \<Rightarrow> Sats \<Rightarrow> ParticipantAccount list \<Rightarrow> bool" where
  "component_ok score pool as \<longleftrightarrow> pool = 0 \<or>
     (0 < nsum (map score as) \<and> nsum (map score as) < 2 ^ 128 \<and>
      (\<forall>a \<in> set as. unat (score a) * unat pool < 2 ^ 128))"

lemma hamilton_zero_pool: "hamilton scores 0 (replicate (length scores) 0)"
  by (simp add: hamilton_def Let_def sum_list_replicate)

lemma add_component_refines:
  assumes len: "length ds = length as" and room: "nsum ds + unat pool < 2 ^ 64"
  shows "component_ok score pool as \<Longrightarrow>
      \<exists>ds'. add_component as ds pool component score = Ok ds' \<and>
        hamilton (map (unat \<circ> score) as) (unat pool) (pool_shares score pool as) \<and>
        map unat ds' = map2 (+) (map unat ds) (pool_shares score pool as) \<and> length ds' = length as \<and>
        nsum ds' = nsum ds + unat pool"
    and "\<not> component_ok score pool as \<Longrightarrow>
      add_component as ds pool component score \<in>
        {Err ScoreOverflow, Err (ZeroScorePool component), Err ScoreMultiplicationOverflow}"
proof -
  assume ok: "component_ok score pool as"
  show "\<exists>ds'. add_component as ds pool component score = Ok ds' \<and>
      hamilton (map (unat \<circ> score) as) (unat pool) (pool_shares score pool as) \<and>
      map unat ds' = map2 (+) (map unat ds) (pool_shares score pool as) \<and> length ds' = length as \<and>
      nsum ds' = nsum ds + unat pool"
  proof (cases "pool = 0")
    case True
    have "map unat ds = map2 (+) (map unat ds) (replicate (length as) 0)"
      using len by (intro nth_equalityI) simp_all
    then show ?thesis
      using True len hamilton_zero_pool [of "map (unat \<circ> score) as"]
      by (intro exI [of _ ds]) (simp add: add_component_def pool_shares_zero)
  next
    case False
    define tot :: Score where "tot = of_nat (nsum (map score as))"
    have tot: "unat tot = nsum (map score as)" "tot \<noteq> 0"
      using ok False unat_of_nat_exact [where 'w = 128, of "nsum (map score as)"]
      by (auto simp: tot_def component_ok_def)
    show ?thesis
      using ok False nsum_shares [OF tot len room] shares_hamilton [OF tot, of pool]
      unfolding shares_closed_form [OF tot] pool_shares_def [symmetric]
      by (subst add_component_eq [OF len room])
        (auto simp: component_ok_def fits_def tot_def [symmetric])
  qed
next
  assume "\<not> component_ok score pool as"
  then show "add_component as ds pool component score \<in>
      {Err ScoreOverflow, Err (ZeroScorePool component), Err ScoreMultiplicationOverflow}"
    by (subst add_component_eq [OF len room]) (auto simp: component_ok_def fits_def not_less)
qed


lemma half_pools:
  fixes reward :: Sats
  shows "unat (reward div 2) = unat reward div 2"
    and "unat (reward - reward div 2) = unat reward - unat reward div 2"
    and "unat (reward div 2) + unat (reward - reward div 2) = unat reward"
proof -
  show half: "unat (reward div 2) = unat reward div 2" by (simp add: unat_div)
  then have "reward div 2 \<le> reward" by (simp add: word_le_nat_alt)
  then show rest: "unat (reward - reward div 2) = unat reward - unat reward div 2"
    by (simp add: unat_sub_exact half)
  show "unat (reward div 2) + unat (reward - reward div 2) = unat reward"
    unfolding half rest by simp
qed

definition reward_ok :: "ParticipantAccount list \<Rightarrow> Sats \<Rightarrow> bool" where
  "reward_ok as reward \<longleftrightarrow> component_ok acc_hashrate_score (reward div 2) as \<and>
     component_ok acc_idena_score (reward - reward div 2) as"

text \<open>The split of a reward into one apportionment per pool.\<close>

definition reward_split :: "ParticipantAccount list \<Rightarrow> nat \<Rightarrow> nat list \<Rightarrow> bool" where
  "reward_split as reward ds \<longleftrightarrow> (\<exists>hash idena.
     hamilton (map (unat \<circ> acc_hashrate_score) as) (reward div 2) hash \<and>
     hamilton (map (unat \<circ> acc_idena_score) as) (reward - reward div 2) idena \<and>
     ds = map2 (+) hash idena)"

definition reward_shares :: "ParticipantAccount list \<Rightarrow> Sats \<Rightarrow> nat list" where
  "reward_shares as reward = map2 (+) (pool_shares acc_hashrate_score (reward div 2) as)
     (pool_shares acc_idena_score (reward - reward div 2) as)"

lemma first_component:
  assumes "component_ok score pool as"
  shows "\<exists>ds. add_component as (replicate (length as) 0) pool component score = Ok ds \<and>
    hamilton (map (unat \<circ> score) as) (unat pool) (map unat ds) \<and> map unat ds = pool_shares score pool as \<and>
    length ds = length as \<and> nsum ds = unat pool"
proof -
  let ?z = "replicate (length as) (0 :: Sats)"
  have z: "nsum ?z = 0" by (simp add: nsum_def sum_list_replicate)
  then have room: "nsum ?z + unat pool < 2 ^ 64" using unat_bound64 [of pool] by simp
  let ?sh = "pool_shares score pool as"
  obtain ds where ds: "add_component as ?z pool component score = Ok ds" "length ds = length as"
    "nsum ds = unat pool" and sh: "hamilton (map (unat \<circ> score) as) (unat pool) ?sh"
    "map unat ds = map2 (+) (map unat ?z) ?sh"
    using add_component_refines(1) [OF _ room assms, of component] z by auto
  have "length ?sh = length as" using sh(1) by (simp add: hamilton_def Let_def)
  then have "map unat ds = ?sh" unfolding sh(2) by (intro nth_equalityI) simp_all
  with ds sh(1) show ?thesis by auto
qed

lemma reward_deltas_ok:
  assumes "reward_ok as reward"
  shows "\<exists>ds. reward_deltas as reward = Ok ds \<and> reward_split as (unat reward) (map unat ds) \<and>
        map unat ds = reward_shares as reward \<and> length ds = length as \<and> nsum ds = unat reward"
proof -
  obtain d1 where d1: "add_component as (replicate (length as) 0) (reward div 2) ''hashrate'' acc_hashrate_score = Ok d1"
    "hamilton (map (unat \<circ> acc_hashrate_score) as) (unat (reward div 2)) (map unat d1)"
    "map unat d1 = pool_shares acc_hashrate_score (reward div 2) as" "length d1 = length as" "nsum d1 = unat (reward div 2)"
    using first_component assms by (meson reward_ok_def)
  have room: "nsum d1 + unat (reward - reward div 2) < 2 ^ 64"
    using d1(5) half_pools(3) [of reward] unat_bound64 [of reward] by simp
  have "component_ok acc_idena_score (reward - reward div 2) as" using assms by (simp add: reward_ok_def)
  from add_component_refines(1) [OF d1(4) room this, of "''idena''"] d1 half_pools [of reward]
  show ?thesis by (auto simp: reward_deltas_def Let_def reward_split_def reward_shares_def)
qed

lemma reward_deltas_err:
  assumes "\<not> reward_ok as reward"
  shows "\<exists>e. reward_deltas as reward = Err e"
proof (cases "component_ok acc_hashrate_score (reward div 2) as")
  case True
  then obtain d1 where d1: "add_component as (replicate (length as) 0) (reward div 2) ''hashrate'' acc_hashrate_score = Ok d1"
    "length d1 = length as" "nsum d1 = unat (reward div 2)"
    using first_component by (meson reward_ok_def)
  have room: "nsum d1 + unat (reward - reward div 2) < 2 ^ 64"
    using d1(3) half_pools(3) [of reward] unat_bound64 [of reward] by simp
  have "\<not> component_ok acc_idena_score (reward - reward div 2) as" using True assms by (simp add: reward_ok_def)
  from add_component_refines(2) [OF d1(2) room this, of "''idena''"] d1
  show ?thesis by (auto simp: reward_deltas_def Let_def)
next
  case False
  have "nsum (replicate (length as) (0 :: Sats)) + unat (reward div 2) < 2 ^ 64"
    using unat_bound64 [of "reward div 2"] by (simp add: nsum_def sum_list_replicate)
  from add_component_refines(2) [OF _ this False, of "''hashrate''"]
  show ?thesis by (auto simp: reward_deltas_def Let_def)
qed

lemma reward_deltas_Ok_iff: "(\<exists>ds. reward_deltas as reward = Ok ds) \<longleftrightarrow> reward_ok as reward"
  using reward_deltas_ok reward_deltas_err by (metis res.distinct(1))

lemma reward_deltas_OkD:
  "reward_deltas as reward = Ok ds \<Longrightarrow> reward_split as (unat reward) (map unat ds) \<and>
     length ds = length as \<and> nsum ds = unat reward"
  using reward_deltas_ok reward_deltas_Ok_iff by (metis res.inject(1))

lemma hamilton_floor_only:
  assumes h: "hamilton scores pool shares" and i: "i < length scores" and "scores ! i * pool mod sum_list scores = 0"
    and pos: "0 < sum_list scores"
  shows "shares ! i = scores ! i * pool div sum_list scores"
proof (rule ccontr)
  let ?t = "sum_list scores" and ?n = "length scores"
  let ?q = "\<lambda>j. scores ! j * pool div ?t" and ?r = "\<lambda>j. scores ! j * pool mod ?t"
  assume "shares ! i \<noteq> ?q i"
  with h i have up: "shares ! i = ?q i + 1" by (auto simp: hamilton_def Let_def)
  from h have ord: "\<And>i j. i < ?n \<Longrightarrow> j < ?n \<Longrightarrow> shares ! i = ?q i + 1 \<Longrightarrow> shares ! j = ?q j \<Longrightarrow> ?r j \<le> ?r i"
    by (simp add: hamilton_def Let_def)
  have each: "shares ! j * ?t \<ge> scores ! j * pool" if "j < ?n" for j
  proof (cases "shares ! j = ?q j")
    case True
    with ord [OF i that up] assms(3) have "?r j = 0" by simp
    with True show ?thesis using div_mult_mod_eq [of "scores ! j * pool" ?t] by simp
  next
    case False
    with h that have "shares ! j = ?q j + 1" by (auto simp: hamilton_def Let_def)
    moreover have "scores ! j * pool < (?q j + 1) * ?t"
      using div_mult_mod_eq [of "scores ! j * pool" ?t] mod_less_divisor [OF pos, of "scores ! j * pool"]
      by (simp only: distrib_right mult_1)
    ultimately show ?thesis by simp
  qed
  have strict: "shares ! i * ?t > scores ! i * pool"
    using up pos assms(3) div_mult_mod_eq [of "scores ! i * pool" ?t] by (simp add: distrib_right)
  have "(\<Sum>j<?n. scores ! j * pool) < (\<Sum>j<?n. shares ! j * ?t)"
    using each strict i by (intro sum_strict_mono_ex1) auto
  moreover have "(\<Sum>j<?n. scores ! j * pool) = ?t * pool"
    by (simp add: sum_list_sum_nth sum_distrib_right atLeast0LessThan)
  moreover have "length shares = ?n" "sum_list shares = pool" using h by (auto simp: hamilton_def Let_def)
  then have "(\<Sum>j<?n. shares ! j * ?t) = pool * ?t"
    by (metis atLeast0LessThan sum_distrib_right sum_list_sum_nth)
  ultimately show False by simp
qed

lemma hamilton_zero_score:
  assumes "hamilton scores pool shares" and "i < length scores" and "scores ! i = 0"
  shows "shares ! i = 0"
proof (cases "sum_list scores = 0")
  case True
  with assms(1) have "sum_list shares = 0" and "length shares = length scores"
    by (auto simp: hamilton_def Let_def)
  with assms(2) show ?thesis by simp
next
  case False
  with hamilton_floor_only [OF assms(1,2)] assms(3) show ?thesis by simp
qed


section \<open>Routing and totals\<close>

lemma route_total:
  "nsum (map dp_amount_sats (fst (route_deltas sel zs))) + nsum (map va_amount_sats (snd (route_deltas sel zs)))
     = nsum (map snd zs)"
  by (induction sel zs rule: route_deltas.induct) (auto split: prod.splits simp: Let_def)

lemma route_direct:
  "d \<in> set (fst (route_deltas sel zs)) \<longleftrightarrow> (\<exists>(a, delta) \<in> set zs. delta \<noteq> 0 \<and> bt_contains sel (acc_miner_id a) \<and>
     d = \<lparr>dp_miner_id = acc_miner_id a, dp_btc_payout_script_hex = acc_btc_payout_script_hex a, dp_amount_sats = delta\<rparr>)"
  by (induction sel zs rule: route_deltas.induct) (auto split: prod.splits simp: Let_def)

lemma route_vault:
  "v \<in> set (snd (route_deltas sel zs)) \<longleftrightarrow> (\<exists>(a, delta) \<in> set zs. delta \<noteq> 0 \<and> \<not> bt_contains sel (acc_miner_id a) \<and>
     v = \<lparr>va_miner_id = acc_miner_id a, va_claim_owner_id = acc_claim_owner_id a, va_amount_sats = delta\<rparr>)"
  by (induction sel zs rule: route_deltas.induct) (auto split: prod.splits simp: Let_def)

lemma route_ids:
  "map dp_miner_id (fst (route_deltas sel zs)) =
     map (acc_miner_id \<circ> fst) (filter (\<lambda>(a, d). d \<noteq> 0 \<and> bt_contains sel (acc_miner_id a)) zs)"
  "map va_miner_id (snd (route_deltas sel zs)) =
     map (acc_miner_id \<circ> fst) (filter (\<lambda>(a, d). d \<noteq> 0 \<and> \<not> bt_contains sel (acc_miner_id a)) zs)"
  by (induction sel zs rule: route_deltas.induct) (auto split: prod.splits simp: Let_def)

text \<open>The tail of \<open>build_payout_schedule\<close>: the two totals never overflow.\<close>

definition assemble :: "extern \<Rightarrow> DirectPayout list \<times> VaultAllocation list \<Rightarrow> PayoutSchedule" where
  "assemble X = (\<lambda>(d0, v0). let ds = Sorting_Algorithms.sort compare_direct_outputs d0;
       vs = Sorting_Algorithms.sort compare_vault_allocations v0;
       v = of_nat (nsum (map va_amount_sats v0))
     in \<lparr>ps_direct_outputs = ds, ps_vault_allocations = vs, ps_vault_output_sats = v,
         ps_payout_root = merkle_root X [PayoutRootMaterial ds vs v]\<rparr>)"

lemma nsum_sort [simp]: "nsum (map f (Sorting_Algorithms.sort c xs)) = nsum (map f xs)"
  by (metis mset_map mset_sort nsum_mset)

lemma sum_sats_Ok: "nsum vs < 2 ^ 64 \<Longrightarrow> sum_sats vs = Ok (of_nat (nsum vs))"
  by (simp add: sum_sats_def try_sum_eq)

lemma vault_remainder:
  assumes "d + v = unat (reward :: Sats)"
  shows "checked_sub reward (of_nat d) = Some (of_nat v)"
proof -
  have "d < 2 ^ 64" "v < 2 ^ 64" using assms unat_bound64 [of reward] by linarith+
  then show ?thesis using assms by (simp add: checked_sub_Some_iff unat_of_nat_exact)
qed

definition sorted_accounts :: "ParticipantAccount list \<Rightarrow> ParticipantAccount list" where
  "sorted_accounts as = Sorting_Algorithms.sort (asc acc_miner_id) (map normalized_account as)"

lemma build_eq:
  "build_payout_schedule X as reward limit min_sats = (let accts = sorted_accounts as in
     bindR (reward_deltas accts reward) (\<lambda>ds.
     bindR (try_map rank_account (zip accts ds)) (\<lambda>ranked.
     Ok (assemble X (route_deltas (select_direct (Sorting_Algorithms.sort compare_ranked ranked) limit min_sats)
       (zip accts ds))))))"
proof (cases "reward_deltas (sorted_accounts as) reward")
  case (Ok ds)
  have fin: "bindR (sum_sats (map dp_amount_sats (Sorting_Algorithms.sort compare_direct_outputs d0)))
      (\<lambda>t. bindR (ok_or AmountOverflow (checked_sub reward t)) k) = k (of_nat (nsum (map va_amount_sats v0)))"
    if "route_deltas sel (zip (sorted_accounts as) ds) = (d0, v0)"
    for sel d0 v0 and k :: "Sats \<Rightarrow> (PayoutError, PayoutSchedule) res"
  proof -
    have tot: "nsum (map dp_amount_sats d0) + nsum (map va_amount_sats v0) = unat reward"
      using route_total [of sel "zip (sorted_accounts as) ds"] reward_deltas_OkD [OF Ok] that by simp
    then have "nsum (map dp_amount_sats d0) < 2 ^ 64" using unat_bound64 [of reward] by linarith
    with vault_remainder [OF tot] show ?thesis by (simp add: sum_sats_Ok)
  qed
  with Ok show ?thesis
    by (cases "try_map rank_account (zip (sorted_accounts as) ds)")
      (simp_all add: build_payout_schedule_def Let_def assemble_def sorted_accounts_def [symmetric] split: prod.split)
qed (simp_all add: build_payout_schedule_def Let_def sorted_accounts_def)

lemma build_OkE:
  assumes "build_payout_schedule X as reward limit min_sats = Ok s"
  obtains ds ranked where
    "reward_deltas (sorted_accounts as) reward = Ok ds"
    "try_map rank_account (zip (sorted_accounts as) ds) = Ok ranked"
    "s = assemble X (route_deltas (select_direct (Sorting_Algorithms.sort compare_ranked ranked) limit min_sats)
       (zip (sorted_accounts as) ds))"
  using assms by (auto simp: build_eq Let_def bindR_Ok_iff)

lemma assemble_totals:
  fixes X :: extern and sel :: "string btset"
  assumes "nsum (map snd zs) = unat (reward :: Sats)"
  defines "s \<equiv> assemble X (route_deltas sel zs)"
  shows "nsum (map dp_amount_sats (ps_direct_outputs s)) + nsum (map va_amount_sats (ps_vault_allocations s)) = unat reward"
    and "unat (ps_vault_output_sats s) = nsum (map va_amount_sats (ps_vault_allocations s))"
proof -
  obtain d0 v0 where r: "route_deltas sel zs = (d0, v0)" by fastforce
  then have tot: "nsum (map dp_amount_sats d0) + nsum (map va_amount_sats v0) = unat reward"
    using route_total [of sel zs] assms(1) by simp
  then show "nsum (map dp_amount_sats (ps_direct_outputs s)) + nsum (map va_amount_sats (ps_vault_allocations s)) = unat reward"
    by (simp add: s_def r assemble_def Let_def)
  have "nsum (map va_amount_sats v0) < 2 ^ 64" using tot unat_bound64 [of reward] by linarith
  then show "unat (ps_vault_output_sats s) = nsum (map va_amount_sats (ps_vault_allocations s))"
    by (simp add: s_def r assemble_def Let_def unat_of_nat_exact)
qed


lemma distinct_sorted_accounts:
  "distinct (map acc_miner_id (sorted_accounts as)) \<longleftrightarrow> distinct (map (to_ascii_lowercase \<circ> acc_miner_id) as)"
  by (simp add: sorted_accounts_def normalized_account_def comp_def)

lemma sorted_accounts_normal: "a \<in> set (sorted_accounts as) \<Longrightarrow> to_ascii_lowercase (acc_miner_id a) = acc_miner_id a"
  by (auto simp: sorted_accounts_def normalized_account_def)

lemma distinct_ids_filter:
  assumes "distinct (map acc_miner_id as)"
  shows "distinct (map (acc_miner_id \<circ> fst) (filter P (zip as ds)))"
proof -
  have "distinct (map acc_miner_id (map fst (zip as ds)))"
    using assms by (simp add: map_fst_zip_take distinct_map inj_on_def)
      (metis in_set_takeD)
  then show ?thesis by (simp add: distinct_map_filter comp_def)
qed

lemma fst_zip_mem: "(a, d) \<in> set (zip as ds) \<Longrightarrow> a \<in> set as"
  by (rule set_zip_leftD)

section \<open>What \<open>validate\<close> accepts\<close>

definition well_formed_schedule :: "extern \<Rightarrow> PayoutSchedule \<Rightarrow> bool" where
  "well_formed_schedule X s \<longleftrightarrow>
     ps_payout_root s = expected_payout_root X s \<and>
     (\<forall>d \<in> set (ps_direct_outputs s). dp_amount_sats d \<noteq> 0) \<and>
     (\<forall>v \<in> set (ps_vault_allocations s). va_amount_sats v \<noteq> 0) \<and>
     Sorting_Algorithms.sorted compare_direct_outputs (ps_direct_outputs s) \<and>
     Sorting_Algorithms.sorted compare_vault_allocations (ps_vault_allocations s) \<and>
     distinct (map (to_ascii_lowercase \<circ> dp_miner_id) (ps_direct_outputs s) @
       map (to_ascii_lowercase \<circ> va_miner_id) (ps_vault_allocations s)) \<and>
     unat (ps_vault_output_sats s) = nsum (map va_amount_sats (ps_vault_allocations s))"

lemma shared_key:
  assumes "insert_distinct e1 f bt_empty xs = Ok s" and "insert_distinct e2 g bt_empty ys = Ok t"
  shows "list_ex (bt_contains t) (bt_keys s) \<longleftrightarrow> f ` set xs \<inter> g ` set ys \<noteq> {}"
proof -
  have "bt_get s k = (if k \<in> f ` set xs then Some () else None)"
    and "bt_get t k = (if k \<in> g ` set ys then Some () else None)" for k
    using insert_distinct_Ok [OF assms(1)] insert_distinct_Ok [OF assms(2)] by simp_all
  then show ?thesis by (auto simp: list_ex_iff Bex_def split: if_splits)
qed

lemma validate_iff_well_formed: "validate_schedule X s = Ok () \<longleftrightarrow> well_formed_schedule X s"
proof (cases "distinct (map (to_ascii_lowercase \<circ> dp_miner_id) (ps_direct_outputs s)) \<and>
    distinct (map (to_ascii_lowercase \<circ> va_miner_id) (ps_vault_allocations s))")
  case True
  then obtain ks ls where "insert_distinct (\<lambda>_. DuplicateEntry ''direct miner'')
      (\<lambda>d. to_ascii_lowercase (dp_miner_id d)) bt_empty (ps_direct_outputs s) = Ok ks"
    "insert_distinct (\<lambda>_. DuplicateEntry ''vault miner'')
      (\<lambda>v. to_ascii_lowercase (va_miner_id v)) bt_empty (ps_vault_allocations s) = Ok ls"
    by (metis (no_types, lifting) comp_apply insert_distinct_empty_iff map_eq_conv)
  with True shared_key [OF this] show ?thesis
    by (auto simp: validate_schedule_def well_formed_schedule_def Let_def list_ex_iff sum_sats_def
        try_sum_Ok_iff bindR_Ok_iff comp_def)
next
  case False
  then show ?thesis
    using insert_distinct_Ok
    by (auto simp: validate_schedule_def well_formed_schedule_def Let_def bindR_Ok_iff comp_def
        dest!: insert_distinct_Ok)
qed

lemma assemble_well_formed:
  assumes ids: "distinct (map acc_miner_id as)" and "\<And>a. a \<in> set as \<Longrightarrow> to_ascii_lowercase (acc_miner_id a) = acc_miner_id a"
    and tot: "nsum (map snd (zip as ds)) = unat (reward :: Sats)"
  shows "well_formed_schedule X (assemble X (route_deltas sel (zip as ds)))"
proof -
  let ?zs = "zip as ds"
  let ?r = "route_deltas sel ?zs"
  have low: "map (to_ascii_lowercase \<circ> dp_miner_id) (fst ?r) = map dp_miner_id (fst ?r)"
    "map (to_ascii_lowercase \<circ> va_miner_id) (snd ?r) = map va_miner_id (snd ?r)"
    using assms(2) [OF fst_zip_mem] by (auto simp: route_direct route_vault)
  have "distinct (map dp_miner_id (fst ?r))" "distinct (map va_miner_id (snd ?r))"
    unfolding route_ids by (rule distinct_ids_filter [OF ids])+
  moreover have "dp_miner_id ` set (fst ?r) \<inter> va_miner_id ` set (snd ?r) = {}"
    by (auto simp: route_direct route_vault)
  ultimately have "distinct (map (to_ascii_lowercase \<circ> dp_miner_id) (fst ?r) @ map (to_ascii_lowercase \<circ> va_miner_id) (snd ?r))"
    unfolding low by simp
  moreover have "\<forall>d \<in> set (fst ?r). dp_amount_sats d \<noteq> 0" "\<forall>v \<in> set (snd ?r). va_amount_sats v \<noteq> 0"
    by (auto simp: route_direct route_vault)
  moreover note assemble_totals(2) [OF tot, of X sel]
  ultimately show ?thesis
    by (auto simp: well_formed_schedule_def assemble_def Let_def expected_payout_root_def route_direct
        route_vault image_Un split: prod.splits)
qed


section \<open>Selection of the direct outputs\<close>

lemma rank_account_Ok_iff:
  "rank_account z = Ok r \<longleftrightarrow> fst r = fst z \<and> fst (snd r) = snd z \<and>
     unat (snd (snd r)) = unat (acc_unpaid_sats (fst z)) + unat (snd z)"
  by (cases r; cases z) (auto simp: rank_account_def res_simps checked_simps)

lemma ranked_members:
  assumes "try_map rank_account zs = Ok ranked"
  shows "(a, d) \<in> set zs \<Longrightarrow> \<exists>r. (a, d, r) \<in> set ranked"
    and "(a, d, r) \<in> set ranked \<Longrightarrow> (a, d) \<in> set zs \<and> unat r = unat (acc_unpaid_sats a) + unat d"
    and "map (acc_miner_id \<circ> fst) ranked = map (acc_miner_id \<circ> fst) zs"
  using assms unfolding res_simps rank_account_Ok_iff
proof (induction zs ranked rule: list_all2_induct)
  case Nil
  { case 1 then show ?case by simp next case 2 then show ?case by simp next case 3 show ?case by simp }
next
  case (Cons z zs r ranked)
  { case 1 with Cons show ?case by (cases r) fastforce
  next case 2 with Cons show ?case by (cases z) fastforce
  next case 3 show ?case using Cons by simp }
qed

lemma select_direct_mem:
  "bt_get (select_direct R limit m) k = Some () \<longleftrightarrow>
     k \<in> set (take limit (map (acc_miner_id \<circ> fst) (filter (\<lambda>(_, delta, _). m \<le> delta) R)))"
  by (simp add: select_direct_def bs_get_collect take_map comp_def case_prod_unfold)


lemma zip_ids_distinct: "distinct (map acc_miner_id as) \<Longrightarrow> distinct (map (acc_miner_id \<circ> fst) (zip as ds))"
  using distinct_ids_filter [of as "\<lambda>_. True" ds] by simp

text \<open>
  The candidates in rank order, and the two facts about the first \<open>limit\<close> of them.
\<close>

definition candidates ::
  "(ParticipantAccount \<times> Sats \<times> Sats) list \<Rightarrow> Sats \<Rightarrow> (ParticipantAccount \<times> Sats \<times> Sats) list" where
  "candidates ranked m = filter (\<lambda>(_, delta, _). m \<le> delta) (Sorting_Algorithms.sort compare_ranked ranked)"

lemma candidates_distinct:
  assumes "distinct (map (acc_miner_id \<circ> fst) zs)" and "try_map rank_account zs = Ok ranked"
  shows "distinct (map (acc_miner_id \<circ> fst) (candidates ranked m))"
  using assms(1) ranked_members(3) [OF assms(2)]
  by (simp add: candidates_def distinct_map_filter)

lemma candidates_sorted:
  "sorted_wrt (\<lambda>x y. compare compare_ranked x y \<noteq> Greater) (candidates ranked m)"
  unfolding candidates_def by (rule sorted_wrt_filter) (simp flip: sorted_iff_wrt)

lemma selected_candidate:
  assumes ids: "distinct (map (acc_miner_id \<circ> fst) zs)" and rank: "try_map rank_account zs = Ok ranked"
    and sel: "bt_contains (select_direct (Sorting_Algorithms.sort compare_ranked ranked) limit m) (acc_miner_id a)"
    and a: "(a, d) \<in> set zs"
  shows "\<exists>r. (a, d, r) \<in> set (take limit (candidates ranked m))"
proof -
  obtain a' d' r where t: "(a', d', r) \<in> set (take limit (candidates ranked m))" and same: "acc_miner_id a' = acc_miner_id a"
    using sel by (auto simp: select_direct_mem candidates_def take_map)
  then have "(a', d', r) \<in> set ranked" by (auto simp: candidates_def dest!: in_set_takeD)
  then have "(a', d') \<in> set zs" using ranked_members(2) [OF rank] by blast
  with a same ids have "(a', d') = (a, d)" by (intro inj_on_key_eq [OF ids]) auto
  with t show ?thesis by auto
qed

lemma unselected_candidate:
  assumes rank: "try_map rank_account zs = Ok ranked" and "(b, e) \<in> set zs" and "m \<le> e"
  shows "\<exists>r. (b, e, r) \<in> set (candidates ranked m)"
  using ranked_members(1) [OF assms(1,2)] assms(3) by (auto simp: candidates_def)

lemma selected_outranks:
  fixes limit :: nat and m :: Sats
  assumes ids: "distinct (map (acc_miner_id \<circ> fst) zs)" and rank: "try_map rank_account zs = Ok ranked"
  defines "sel \<equiv> select_direct (Sorting_Algorithms.sort compare_ranked ranked) limit m"
  assumes a: "(a, d) \<in> set zs" "bt_contains sel (acc_miner_id a)"
    and b: "(b, e) \<in> set zs" "\<not> bt_contains sel (acc_miner_id b)" "m \<le> e"
  shows "unat (acc_unpaid_sats b) + unat e \<le> unat (acc_unpaid_sats a) + unat d"
proof -
  obtain r where r: "(a, d, r) \<in> set (take limit (candidates ranked m))"
    using selected_candidate [OF ids rank] a unfolding sel_def by blast
  obtain q where q: "(b, e, q) \<in> set (candidates ranked m)"
    using unselected_candidate [OF rank b(1,3)] by blast
  have "compare compare_ranked (a, d, r) (b, e, q) \<noteq> Greater"
  proof (rule sorted_wrt_take_before [OF candidates_sorted candidates_distinct [OF ids rank], where k = limit])
    show "(a, d, r) \<in> set (candidates ranked m)" using r by (rule in_set_takeD)
  qed (use a(2) b(2) q in \<open>auto simp: sel_def select_direct_mem candidates_def\<close>)
  then have "q \<le> r" by (auto simp: compare_ranked_def split: if_splits)
  moreover have "(a, d, r) \<in> set ranked" "(b, e, q) \<in> set ranked"
    using r q by (auto simp: candidates_def dest!: in_set_takeD)
  ultimately show ?thesis using ranked_members(2) [OF rank] by (simp add: word_le_nat_alt)
qed

definition selected_ids ::
  "(ParticipantAccount \<times> Sats \<times> Sats) list \<Rightarrow> nat \<Rightarrow> Sats \<Rightarrow> string list" where
  "selected_ids ranked limit m = take limit (map (acc_miner_id \<circ> fst) (candidates ranked m))"

lemma selected_ids_mem:
  "bt_contains (select_direct (Sorting_Algorithms.sort compare_ranked ranked) limit m) k \<longleftrightarrow>
     k \<in> set (selected_ids ranked limit m)"
  by (simp add: select_direct_mem candidates_def selected_ids_def del: map_map)

lemma direct_ids:
  fixes limit :: nat and m :: Sats
  assumes ids: "distinct (map (acc_miner_id \<circ> fst) zs)" and rank: "try_map rank_account zs = Ok ranked"
  defines "sel \<equiv> select_direct (Sorting_Algorithms.sort compare_ranked ranked) limit m"
  defines "D \<equiv> map dp_miner_id (fst (route_deltas sel zs))"
  shows "set D \<subseteq> set (selected_ids ranked limit m)"
    and "m \<noteq> 0 \<Longrightarrow> set (selected_ids ranked limit m) \<subseteq> set D"
    and "distinct D" and "distinct (selected_ids ranked limit m)"
proof -
  show "distinct D" unfolding D_def route_ids(1) using ids by (simp add: distinct_map_filter)
  show "distinct (selected_ids ranked limit m)"
    using candidates_distinct [OF ids rank, of m] by (simp add: selected_ids_def)
  show "set D \<subseteq> set (selected_ids ranked limit m)"
  proof
    fix k assume "k \<in> set D"
    then have "bt_contains sel k" unfolding D_def route_ids(1) by auto
    then show "k \<in> set (selected_ids ranked limit m)" using selected_ids_mem unfolding sel_def by blast
  qed
  show "set (selected_ids ranked limit m) \<subseteq> set D" if "m \<noteq> 0"
  proof
    fix k assume k: "k \<in> set (selected_ids ranked limit m)"
    then have "k \<in> set (map (acc_miner_id \<circ> fst) (candidates ranked m))"
      unfolding selected_ids_def by (rule in_set_takeD)
    then obtain a d r where t: "(a, d, r) \<in> set (candidates ranked m)" "k = acc_miner_id a" by auto
    then have "m \<le> d" and "(a, d) \<in> set zs"
      using ranked_members(2) [OF rank] by (auto simp: candidates_def)
    moreover have "d \<noteq> 0" using \<open>m \<le> d\<close> that by auto
    moreover have "bt_contains sel k" using k selected_ids_mem unfolding sel_def by blast
    ultimately show "k \<in> set D" using t(2) unfolding D_def route_ids(1) by force
  qed
qed

lemma direct_count:
  fixes limit :: nat and m :: Sats
  assumes ids: "distinct (map (acc_miner_id \<circ> fst) zs)" and rank: "try_map rank_account zs = Ok ranked"
  defines "sel \<equiv> select_direct (Sorting_Algorithms.sort compare_ranked ranked) limit m"
  shows "length (fst (route_deltas sel zs)) \<le> limit"
    and "(b, e) \<in> set zs \<Longrightarrow> \<not> bt_contains sel (acc_miner_id b) \<Longrightarrow> m \<le> e \<Longrightarrow> m \<noteq> 0 \<Longrightarrow>
      length (fst (route_deltas sel zs)) = limit"
proof -
  let ?T = "selected_ids ranked limit m"
  let ?D = "map dp_miner_id (fst (route_deltas sel zs))"
  note D = direct_ids [OF ids rank, where limit = limit and m = m, folded sel_def]
  have le: "length ?D \<le> length ?T"
    using card_mono [OF finite_set D(1)] distinct_card [OF D(3)] distinct_card [OF D(4)] by simp
  also have "\<dots> \<le> limit" by (simp add: selected_ids_def)
  finally show "length (fst (route_deltas sel zs)) \<le> limit" by simp
  assume b: "(b, e) \<in> set zs" "\<not> bt_contains sel (acc_miner_id b)" "m \<le> e" and m: "m \<noteq> 0"
  obtain q where q: "(b, e, q) \<in> set (candidates ranked m)"
    using unselected_candidate [OF rank b(1,3)] by blast
  have "acc_miner_id b \<notin> set ?T" using b(2) selected_ids_mem unfolding sel_def by blast
  then have "length ?T = limit"
    using q by (cases "limit \<le> length (candidates ranked m)") (auto simp: selected_ids_def image_iff)
  then show "length (fst (route_deltas sel zs)) = limit"
    using le card_mono [OF finite_set D(2) [OF m]] distinct_card [OF D(4)] distinct_card [OF D(3)] by simp
qed


section \<open>Order and identity\<close>

text \<open>The schedule depends on the set of accounts and not on their order.\<close>

lemma build_order_independent:
  assumes "mset as = mset bs" and "distinct (map (to_ascii_lowercase \<circ> acc_miner_id) as)"
  shows "build_payout_schedule X as reward limit m = build_payout_schedule X bs reward limit m"
proof -
  have "sorted_accounts as = sorted_accounts bs"
    unfolding sorted_accounts_def
  proof (rule sort_perm)
    show "mset (map normalized_account as) = mset (map normalized_account bs)" using assms(1) by simp
    have "distinct (map acc_miner_id (map normalized_account as))"
      using assms(2) by (simp add: normalized_account_def comp_def)
    then show "x = y" if "x \<in> set (map normalized_account as)" "y \<in> set (map normalized_account as)"
      "compare (asc acc_miner_id) x y = Equiv" for x y
      using inj_on_key_eq [OF _ that(1,2), of acc_miner_id] that(3) by (simp split: if_splits)
  qed
  then show ?thesis by (simp add: build_eq)
qed

lemma no_score_no_reward:
  assumes "reward_deltas as reward = Ok ds" and "i < length as"
    and "acc_hashrate_score (as ! i) = 0" and "acc_idena_score (as ! i) = 0"
  shows "ds ! i = 0"
proof -
  obtain h g where h: "hamilton (map (unat \<circ> acc_hashrate_score) as) (unat reward div 2) h"
    and g: "hamilton (map (unat \<circ> acc_idena_score) as) (unat reward - unat reward div 2) g"
    and ds: "map unat ds = map2 (+) h g" and len: "length ds = length as"
    using reward_deltas_OkD [OF assms(1)] by (auto simp: reward_split_def)
  have "h ! i = 0" "g ! i = 0"
    using hamilton_zero_score [OF h] hamilton_zero_score [OF g] assms(2-4) by simp_all
  moreover have "length h = length as" "length g = length as"
    using h g by (auto simp: hamilton_def Let_def)
  ultimately have "map unat ds ! i = 0" unfolding ds using assms(2) by simp
  then show ?thesis using len assms(2) by simp
qed

lemma assemble_members:
  "length (ps_direct_outputs (assemble X r)) = length (fst r)"
  "set (ps_direct_outputs (assemble X r)) = set (fst r)"
  "set (ps_vault_allocations (assemble X r)) = set (snd r)"
  by (simp_all add: assemble_def Let_def split: prod.split)

lemma selected_minimum:
  assumes "distinct (map (acc_miner_id \<circ> fst) zs)" and "try_map rank_account zs = Ok ranked"
    and "bt_contains (select_direct (Sorting_Algorithms.sort compare_ranked ranked) limit m) (acc_miner_id a)"
    and "(a, d) \<in> set zs"
  shows "m \<le> d"
  using selected_candidate [OF assms] by (auto simp: candidates_def dest!: in_set_takeD)

lemma sorted_account_of_id:
  assumes "distinct (map (to_ascii_lowercase \<circ> acc_miner_id) as)" and "a \<in> set as"
    and "b \<in> set (sorted_accounts as)" and "to_ascii_lowercase (acc_miner_id a) = acc_miner_id b"
  shows "acc_unpaid_sats b = acc_unpaid_sats a"
proof -
  have "normalized_account a \<in> set (sorted_accounts as)" using assms(2) by (simp add: sorted_accounts_def)
  then have "b = normalized_account a"
    using assms inj_on_key_eq [of acc_miner_id "sorted_accounts as" b "normalized_account a"]
    by (simp add: distinct_sorted_accounts) (simp add: normalized_account_def)
  then show ?thesis by (simp add: normalized_account_def)
qed

text \<open>When the ranking succeeds, and that the sorted accounts carry the scores of the given ones.\<close>

lemma rank_account_not_Panic [simp]: "rank_account z \<noteq> Panic"
  by (cases z) (auto simp: rank_account_def bindR_Panic_iff)

lemma ranking_succeeds_iff:
  assumes "length ds = length as"
  shows "(\<exists>ranked. try_map rank_account (zip as ds) = Ok ranked) \<longleftrightarrow>
    list_all2 (\<lambda>a d. unat (acc_unpaid_sats a) + unat d < 2 ^ 64) as ds"
  using assms[symmetric]
  by (induction as ds rule: list_induct2)
    (auto simp: rank_account_def bindR_Ok_iff ok_or_Ok_iff checked_add_def)

lemma component_ok_sorted:
  assumes "\<And>a. score (normalized_account a) = score a"
  shows "component_ok score pool (sorted_accounts as) \<longleftrightarrow> component_ok score pool as"
proof -
  have "map (score \<circ> normalized_account) as = map score as" using assms by simp
  then have "nsum (map score (sorted_accounts as)) = nsum (map score as)"
    unfolding sorted_accounts_def nsum_sort map_map by (simp only:)
  then show ?thesis using assms by (simp add: component_ok_def sorted_accounts_def)
qed

section \<open>Properties\<close>

text \<open>Accounts for evaluation.\<close>

definition account :: "string \<Rightarrow> Sats \<Rightarrow> Score \<Rightarrow> Score \<Rightarrow> ParticipantAccount" where
  "account name unpaid hash idena = \<lparr>acc_miner_id = name, acc_btc_payout_script_hex = ''00'',
     acc_claim_owner_id = name, acc_unpaid_sats = unpaid, acc_hashrate_score = hash, acc_idena_score = idena\<rparr>"

definition three_accounts :: "ParticipantAccount list" where
  "three_accounts = [account ''Ann'' 0 1 0, account ''bob'' 5 1 1, account ''cy'' 0 1 2]"

definition three_schedule :: PayoutSchedule where
  "three_schedule = (case build_payout_schedule identity_hash three_accounts 9 1 1 of Ok s \<Rightarrow> s)"

lemma three_schedule_built: "build_payout_schedule identity_hash three_accounts 9 1 1 = Ok three_schedule"
  by code_simp

lemma build_conserves:
  assumes "build_payout_schedule X accounts reward_sats direct_limit min_direct_payout_sats = Ok s"
  shows "nsum (map dp_amount_sats (ps_direct_outputs s)) + nsum (map va_amount_sats (ps_vault_allocations s)) = unat reward_sats \<and>
    unat (ps_vault_output_sats s) = nsum (map va_amount_sats (ps_vault_allocations s))"
proof -
  from assms obtain ds ranked where ds: "reward_deltas (sorted_accounts accounts) reward_sats = Ok ds"
    and s: "s = assemble X (route_deltas (select_direct (Sorting_Algorithms.sort compare_ranked ranked)
      direct_limit min_direct_payout_sats) (zip (sorted_accounts accounts) ds))" by (rule build_OkE)
  have tot: "nsum (map snd (zip (sorted_accounts accounts) ds)) = unat reward_sats"
    using reward_deltas_OkD [OF ds] by simp
  show ?thesis using assemble_totals [OF tot, of X] s by simp
qed

text \<open>
  C7: A built schedule distributes exactly the reward: the direct outputs and the vault
  allocations add up to \<open>reward_sats\<close>, and the vault output is the sum of the allocations. No
  satoshi is lost or created by rounding, whatever the accounts are.
\<close>

theorem payout_conserves_reward:
  assumes "build_payout_schedule X accounts reward_sats direct_limit min_direct_payout_sats = Ok s"
  shows "sum_list (map (unat \<circ> dp_amount_sats) (ps_direct_outputs s)) +
      sum_list (map (unat \<circ> va_amount_sats) (ps_vault_allocations s)) = unat reward_sats \<and>
    unat (ps_vault_output_sats s) = sum_list (map (unat \<circ> va_amount_sats) (ps_vault_allocations s))"
  using build_conserves [OF assms] by (simp add: nsum_def)

theorem payout_conserves_reward_witness:
  "sum_list (map (unat \<circ> dp_amount_sats) (ps_direct_outputs three_schedule)) +
      sum_list (map (unat \<circ> va_amount_sats) (ps_vault_allocations three_schedule)) = 9"
  using payout_conserves_reward [OF three_schedule_built] by simp

text \<open>
  C8: The reward is halved, the hashrate half rounded down, and each half is split by
  largest-remainder apportionment: the deltas are sums of two share lists, one per pool, in which
  every share is the exact quota rounded down or up, the shares add up to the pool, and the
  quotas rounded up are those with the largest remainders.
\<close>

theorem reward_deltas_apportion:
  assumes "reward_deltas accounts reward_sats = Ok deltas"
  shows "reward_split accounts (unat reward_sats) (map unat deltas)"
  using reward_deltas_OkD [OF assms] by simp

theorem reward_deltas_apportion_witness:
  "reward_split three_accounts 9 [2, 3, 4]"
proof -
  have "reward_deltas three_accounts 9 = Ok [2, 3, 4]" by code_simp
  from reward_deltas_apportion [OF this] show ?thesis by simp
qed


text \<open>
  C14: A schedule built from accounts with distinct miner ids (compared case-insensitively, as
  the code normalises them) passes \<open>validate\<close>: its root matches, no amount is zero, both lists
  are in canonical order, no miner is listed twice, and the vault total is right.
\<close>

theorem built_schedule_validates:
  assumes "distinct (map (to_ascii_lowercase \<circ> acc_miner_id) accounts)"
    and "build_payout_schedule X accounts reward_sats direct_limit min_direct_payout_sats = Ok s"
  shows "validate_schedule X s = Ok ()"
proof -
  from assms(2) obtain ds ranked where ds: "reward_deltas (sorted_accounts accounts) reward_sats = Ok ds" and
    s: "s = assemble X (route_deltas (select_direct (Sorting_Algorithms.sort compare_ranked ranked)
      direct_limit min_direct_payout_sats) (zip (sorted_accounts accounts) ds))" by (rule build_OkE)
  have "nsum (map snd (zip (sorted_accounts accounts) ds)) = unat reward_sats"
    using reward_deltas_OkD [OF ds] by simp
  then show ?thesis
    unfolding validate_iff_well_formed s
    using assms(1) by (intro assemble_well_formed) (simp_all add: distinct_sorted_accounts sorted_accounts_normal)
qed

theorem built_schedule_validates_witness:
  "validate_schedule identity_hash three_schedule = Ok ()"
proof (rule built_schedule_validates)
  show "distinct (map (to_ascii_lowercase \<circ> acc_miner_id) three_accounts)" by code_simp
  show "build_payout_schedule identity_hash three_accounts 9 1 1 = Ok three_schedule" by (rule three_schedule_built)
qed



end
