(* ===== verification/Withdrawal.thy ===== *)
theory Withdrawal
  imports Extern Order
begin

text \<open>
  \<open>pohw-core/src/withdrawal.rs\<close>: withdrawal requests signed by the claim owner, the policy on
  destination scripts, the size and fee estimates, and the batch builder. A batch is shown to
  pay only valid requests and to charge exactly the estimated fee.
\<close>

section \<open>Data\<close>

definition MIN_WITHDRAWAL_REQUEST_SATS :: Sats where
  "MIN_WITHDRAWAL_REQUEST_SATS = 10000"

definition P2WPKH_DUST_SATS :: Sats where
  "P2WPKH_DUST_SATS = 546"

definition P2TR_DUST_SATS :: Sats where
  "P2TR_DUST_SATS = 330"

definition MAX_WITHDRAWAL_REQUEST_ID_LEN :: nat where
  "MAX_WITHDRAWAL_REQUEST_ID_LEN = 64"

definition SCHNORR_SIGNATURE_HEX_LEN :: nat where
  "SCHNORR_SIGNATURE_HEX_LEN = 128"

definition P2WPKH_SCRIPT_HEX_LEN :: nat where
  "P2WPKH_SCRIPT_HEX_LEN = 44"

definition P2TR_SCRIPT_HEX_LEN :: nat where
  "P2TR_SCRIPT_HEX_LEN = 68"

datatype WithdrawalOutputKind = P2wpkh | P2tr

record WithdrawalRequest =
  wr_request_id :: string
  wr_claim_owner_id :: string
  wr_claim_owner_pubkey_hex :: string
  wr_destination_script_hex :: string
  wr_amount_sats :: Sats
  wr_max_fee_rate_sat_vb :: u64
  wr_nonce :: u64
  wr_expiry_height :: u64
  wr_signature_hex :: "string option"
  wr_output_kind :: WithdrawalOutputKind

record WithdrawalOutput =
  wo_request_id :: string
  wo_destination_script_hex :: string
  wo_output_kind :: WithdrawalOutputKind
  wo_gross_amount_sats :: Sats
  wo_fee_sats :: Sats
  wo_net_amount_sats :: Sats

record WithdrawalBatch =
  wb_inputs :: nat
  wb_fee_rate_sat_vb :: u64
  wb_estimated_vsize :: u64
  wb_total_fee_sats :: Sats
  wb_outputs :: "WithdrawalOutput list"

datatype WithdrawalError =
    EmptyBatch
  | InputCountZero
  | DuplicateRequest string
  | InvalidRequestId string string
  | Expired string u64 u64
  | AmountBelowMinimum string Sats Sats
  | DustOutput string Sats WithdrawalOutputKind
  | InvalidDestinationScript string WithdrawalOutputKind string
  | MissingSignature string
  | InvalidOwnerPubkey string string
  | OwnerIdPubkeyMismatch string
  | InvalidSignature string string
  | FeeRateTooHigh string u64 u64
  | FeeExceedsAmount string Sats Sats
  | VsizeOverflow
  | FeeOverflow

section \<open>Normal forms and hashes\<close>

definition json_output_kind :: "WithdrawalOutputKind \<Rightarrow> json" where
  "json_output_kind k = JStr (case k of P2wpkh \<Rightarrow> ''P2wpkh'' | P2tr \<Rightarrow> ''P2tr'')"

definition json_WithdrawalOutput :: "WithdrawalOutput \<Rightarrow> json" where
  "json_WithdrawalOutput w = JObj [(''request_id'', JStr (wo_request_id w)),
     (''destination_script_hex'', JStr (wo_destination_script_hex w)),
     (''output_kind'', json_output_kind (wo_output_kind w)),
     (''gross_amount_sats'', JUInt (wo_gross_amount_sats w)),
     (''fee_sats'', JUInt (wo_fee_sats w)),
     (''net_amount_sats'', JUInt (wo_net_amount_sats w))]"

definition json_WithdrawalBatch :: "WithdrawalBatch \<Rightarrow> json" where
  "json_WithdrawalBatch b = JObj [(''inputs'', JNum (int (wb_inputs b))),
     (''fee_rate_sat_vb'', JUInt (wb_fee_rate_sat_vb b)),
     (''estimated_vsize'', JUInt (wb_estimated_vsize b)),
     (''total_fee_sats'', JUInt (wb_total_fee_sats b)),
     (''outputs'', JArr (map json_WithdrawalOutput (wb_outputs b)))]"

definition normalized_output :: "WithdrawalOutput \<Rightarrow> WithdrawalOutput" where
  "normalized_output w = w\<lparr>wo_destination_script_hex := to_ascii_lowercase (wo_destination_script_hex w)\<rparr>"

definition normalized_batch :: "WithdrawalBatch \<Rightarrow> WithdrawalBatch" where
  "normalized_batch b = b\<lparr>wb_outputs :=
     Sorting_Algorithms.sort (asc wo_request_id) (map normalized_output (wb_outputs b))\<rparr>"

definition batch_hash :: "extern \<Rightarrow> WithdrawalBatch \<Rightarrow> string" where
  "batch_hash X b = hash_hex X (sha256_tagged X (as_bytes ''POHW1_WITHDRAWAL_BATCH'')
     (canonical_json X (json_WithdrawalBatch (normalized_batch b))))"

definition normalized_request :: "WithdrawalRequest \<Rightarrow> WithdrawalRequest" where
  "normalized_request r = r\<lparr>
     wr_claim_owner_id := to_ascii_lowercase (wr_claim_owner_id r),
     wr_claim_owner_pubkey_hex := to_ascii_lowercase (wr_claim_owner_pubkey_hex r),
     wr_destination_script_hex := to_ascii_lowercase (wr_destination_script_hex r),
     wr_signature_hex := map_option to_ascii_lowercase (wr_signature_hex r)\<rparr>"

text \<open>The serialised \<open>WithdrawalSigningPayload\<close>: every field but the signature.\<close>

definition WithdrawalSigningPayload :: "WithdrawalRequest \<Rightarrow> json" where
  "WithdrawalSigningPayload r = JObj [(''request_id'', JStr (wr_request_id r)),
     (''claim_owner_id'', JStr (to_ascii_lowercase (wr_claim_owner_id r))),
     (''claim_owner_pubkey_hex'', JStr (to_ascii_lowercase (wr_claim_owner_pubkey_hex r))),
     (''destination_script_hex'', JStr (to_ascii_lowercase (wr_destination_script_hex r))),
     (''amount_sats'', JUInt (wr_amount_sats r)),
     (''max_fee_rate_sat_vb'', JUInt (wr_max_fee_rate_sat_vb r)),
     (''nonce'', JUInt (wr_nonce r)),
     (''expiry_height'', JUInt (wr_expiry_height r)),
     (''output_kind'', json_output_kind (wr_output_kind r))]"

definition withdrawal_signing_hash :: "extern \<Rightarrow> WithdrawalRequest \<Rightarrow> bytes" where
  "withdrawal_signing_hash X r = sha256_tagged X (as_bytes ''POHW1_WITHDRAWAL_REQUEST'')
     (canonical_json X (WithdrawalSigningPayload r))"

section \<open>Validation of a request\<close>

definition validate_request_id :: "string \<Rightarrow> (WithdrawalError, unit) res" where
  "validate_request_id request_id =
     (if request_id = [] \<or> length request_id > MAX_WITHDRAWAL_REQUEST_ID_LEN
      then Err (InvalidRequestId request_id
        (''must be 1-'' @ dec MAX_WITHDRAWAL_REQUEST_ID_LEN @ '' characters''))
      else if \<not> list_all (\<lambda>c. is_ascii_alphanumeric c \<or> c \<in> {CHR ''-'', CHR ''_'', CHR ''.''}) request_id
      then Err (InvalidRequestId request_id
        (''must contain only ASCII letters, digits, '' @ quoted ''-'' @ '', '' @ quoted ''_'' @ '' or '' @ quoted ''.''))
      else Ok ())"

definition validate_hex_exact :: "string \<Rightarrow> nat \<Rightarrow> 'e \<Rightarrow> ('e, unit) res" where
  "validate_hex_exact v expected_len e =
     (if length v \<noteq> expected_len \<or> \<not> list_all is_ascii_hexdigit v then Err e else Ok ())"

fun dust_threshold :: "WithdrawalOutputKind \<Rightarrow> Sats" where
  "dust_threshold P2wpkh = P2WPKH_DUST_SATS"
| "dust_threshold P2tr = P2TR_DUST_SATS"

fun script_hex_len :: "WithdrawalOutputKind \<Rightarrow> nat" where
  "script_hex_len P2wpkh = P2WPKH_SCRIPT_HEX_LEN"
| "script_hex_len P2tr = P2TR_SCRIPT_HEX_LEN"

fun matches_kind :: "extern \<Rightarrow> WithdrawalOutputKind \<Rightarrow> bytes \<Rightarrow> bool" where
  "matches_kind X P2wpkh script = is_p2wpkh X script"
| "matches_kind X P2tr script = is_p2tr X script"

definition validate_destination_script_policy ::
  "extern \<Rightarrow> string \<Rightarrow> string \<Rightarrow> WithdrawalOutputKind \<Rightarrow> Sats \<Rightarrow> (WithdrawalError, unit) res" where
  "validate_destination_script_policy X request_id script_hex kind net_amount_sats =
     bindR (validate_request_id request_id) (\<lambda>_.
     if net_amount_sats < dust_threshold kind
     then Err (DustOutput request_id net_amount_sats kind)
     else bindR (validate_hex_exact script_hex (script_hex_len kind)
       (InvalidDestinationScript request_id kind
         (''script must be '' @ dec (script_hex_len kind) @ '' hex characters''))) (\<lambda>_.
     bindR (lift_ext (InvalidDestinationScript request_id kind) (hex_decode X script_hex)) (\<lambda>script_bytes.
     if \<not> matches_kind X kind script_bytes
     then Err (InvalidDestinationScript request_id kind ''script template does not match output kind'')
     else Ok ())))"

definition validate_destination_script ::
  "extern \<Rightarrow> WithdrawalRequest \<Rightarrow> Sats \<Rightarrow> (WithdrawalError, unit) res" where
  "validate_destination_script X r net_amount_sats = validate_destination_script_policy X
     (wr_request_id r) (wr_destination_script_hex r) (wr_output_kind r) net_amount_sats"

definition verify_owner_signature :: "extern \<Rightarrow> WithdrawalRequest \<Rightarrow> (WithdrawalError, unit) res" where
  "verify_owner_signature X r =
     bindR (ok_or (MissingSignature (wr_request_id r)) (wr_signature_hex r)) (\<lambda>signature_hex.
     bindR (validate_hex_exact signature_hex SCHNORR_SIGNATURE_HEX_LEN
       (InvalidSignature (wr_request_id r)
         (''signature must be '' @ dec SCHNORR_SIGNATURE_HEX_LEN @ '' hex characters''))) (\<lambda>_.
     bindR (lift_ext (InvalidOwnerPubkey (wr_request_id r))
       (xonly_from_str X (wr_claim_owner_pubkey_hex r))) (\<lambda>owner_pubkey.
     bindR (lift_ext (InvalidSignature (wr_request_id r)) (hex_decode X signature_hex)) (\<lambda>signature_bytes.
     bindR (lift_ext (InvalidSignature (wr_request_id r)) (schnorr_from_slice X signature_bytes)) (\<lambda>signature.
     lift_ext (InvalidSignature (wr_request_id r))
       (verify_schnorr X signature (withdrawal_signing_hash X r) owner_pubkey))))))"

definition validate_request :: "extern \<Rightarrow> WithdrawalRequest \<Rightarrow> u64 \<Rightarrow> (WithdrawalError, unit) res" where
  "validate_request X self current_height = (let r = normalized_request self in
     bindR (validate_request_id (wr_request_id r)) (\<lambda>_.
     if current_height > wr_expiry_height r
     then Err (Expired (wr_request_id r) (wr_expiry_height r) current_height)
     else if wr_amount_sats r < MIN_WITHDRAWAL_REQUEST_SATS
     then Err (AmountBelowMinimum (wr_request_id r) (wr_amount_sats r) MIN_WITHDRAWAL_REQUEST_SATS)
     else if wr_claim_owner_id r \<noteq> wr_claim_owner_pubkey_hex r
     then Err (OwnerIdPubkeyMismatch (wr_request_id r))
     else bindR (validate_destination_script X r (wr_amount_sats r)) (\<lambda>_.
     verify_owner_signature X r)))"

section \<open>Size and fee estimates\<close>

definition estimate_batch_vsize :: "nat \<Rightarrow> nat \<Rightarrow> nat \<Rightarrow> (WithdrawalError, u64) res" where
  "estimate_batch_vsize inputs p2wpkh_outputs p2tr_outputs =
     bindR (ok_or VsizeOverflow (u64_try_from inputs)) (\<lambda>inputs.
     bindR (ok_or VsizeOverflow (u64_try_from p2wpkh_outputs)) (\<lambda>p2wpkh_outputs.
     bindR (ok_or VsizeOverflow (u64_try_from p2tr_outputs)) (\<lambda>p2tr_outputs.
     bindR (ok_or VsizeOverflow (checked_mul 115 inputs)) (\<lambda>input_weight.
     bindR (ok_or VsizeOverflow (checked_mul 62 p2wpkh_outputs)) (\<lambda>p2wpkh_weight.
     bindR (ok_or VsizeOverflow (checked_mul 86 p2tr_outputs)) (\<lambda>p2tr_weight.
     bindR (ok_or VsizeOverflow (Option.bind (Option.bind (checked_add 21 input_weight)
       (\<lambda>weight. checked_add weight p2wpkh_weight)) (\<lambda>weight. checked_add weight p2tr_weight))) (\<lambda>weight_x2.
     Ok (div_ceil weight_x2 2))))))))"

definition estimate_fee_sats :: "u64 \<Rightarrow> u64 \<Rightarrow> (WithdrawalError, Sats) res" where
  "estimate_fee_sats vsize fee_rate_sat_vb = ok_or FeeOverflow (checked_mul vsize fee_rate_sat_vb)"

section \<open>Building a batch\<close>

text \<open>The \<open>windows(2)\<close> loop that rejects a repeated request id.\<close>

fun reject_duplicates :: "WithdrawalRequest list \<Rightarrow> (WithdrawalError, unit) res" where
  "reject_duplicates (a # b # rest) =
     (if wr_request_id a = wr_request_id b then Err (DuplicateRequest (wr_request_id a))
      else reject_duplicates (b # rest))"
| "reject_duplicates _ = Ok ()"

definition check_batch_request ::
  "extern \<Rightarrow> u64 \<Rightarrow> u64 \<Rightarrow> WithdrawalRequest \<Rightarrow> (WithdrawalError, unit) res" where
  "check_batch_request X fee_rate_sat_vb current_height r =
     bindR (validate_request X r current_height) (\<lambda>_.
     if fee_rate_sat_vb > wr_max_fee_rate_sat_vb r
     then Err (FeeRateTooHigh (wr_request_id r) fee_rate_sat_vb (wr_max_fee_rate_sat_vb r))
     else Ok ())"

text \<open>
  The loop that assigns the fees: the first \<open>remainder\<close> outputs pay one satoshi more. The
  additions and subtractions are unchecked in the source.
\<close>

fun assign_fees ::
  "extern \<Rightarrow> Sats \<Rightarrow> Sats \<Rightarrow> WithdrawalRequest list \<Rightarrow> (WithdrawalError, WithdrawalOutput list) res" where
  "assign_fees X base_fee remainder [] = Ok []"
| "assign_fees X base_fee remainder (r # rest) =
     (let fee_sats = (if remainder > 0 then base_fee + 1 else base_fee);
          remainder' = (if remainder > 0 then remainder - 1 else remainder)
      in if wr_amount_sats r \<le> fee_sats
      then Err (FeeExceedsAmount (wr_request_id r) (wr_amount_sats r) fee_sats)
      else bindR (validate_destination_script X r (wr_amount_sats r - fee_sats)) (\<lambda>_.
        bindR (assign_fees X base_fee remainder' rest) (\<lambda>outputs.
        Ok (\<lparr>wo_request_id = wr_request_id r,
             wo_destination_script_hex = wr_destination_script_hex r,
             wo_output_kind = wr_output_kind r,
             wo_gross_amount_sats = wr_amount_sats r,
             wo_fee_sats = fee_sats,
             wo_net_amount_sats = wr_amount_sats r - fee_sats\<rparr> # outputs))))"

text \<open>\<open>requests.len() as Sats\<close> is the length modulo \<open>2 ^ 64\<close>; dividing by zero would panic.\<close>

definition build_withdrawal_batch ::
  "extern \<Rightarrow> WithdrawalRequest list \<Rightarrow> nat \<Rightarrow> u64 \<Rightarrow> u64 \<Rightarrow> (WithdrawalError, WithdrawalBatch) res" where
  "build_withdrawal_batch X requests0 inputs fee_rate_sat_vb current_height =
     (if requests0 = [] then Err EmptyBatch
      else if inputs = 0 then Err InputCountZero
      else let requests = Sorting_Algorithms.sort (asc wr_request_id) (map normalized_request requests0) in
      bindR (reject_duplicates requests) (\<lambda>_.
      bindR (try_each (check_batch_request X fee_rate_sat_vb current_height) requests) (\<lambda>_.
      let p2wpkh_outputs = length (filter (\<lambda>r. wr_output_kind r = P2wpkh) requests);
          p2tr_outputs = length requests - p2wpkh_outputs
      in bindR (estimate_batch_vsize inputs p2wpkh_outputs p2tr_outputs) (\<lambda>estimated_vsize.
      bindR (estimate_fee_sats estimated_vsize fee_rate_sat_vb) (\<lambda>total_fee_sats.
      let n = (of_nat (length requests) :: Sats) in
      if n = 0 then Panic else
      bindR (assign_fees X (total_fee_sats div n) (total_fee_sats mod n) requests) (\<lambda>outputs.
      Ok \<lparr>wb_inputs = inputs, wb_fee_rate_sat_vb = fee_rate_sat_vb,
          wb_estimated_vsize = estimated_vsize, wb_total_fee_sats = total_fee_sats,
          wb_outputs = outputs\<rparr>))))))"

section \<open>Normal forms\<close>

lemma normalized_request_idem [simp]: "normalized_request (normalized_request r) = normalized_request r"
  by (cases "wr_signature_hex r") (simp_all add: normalized_request_def)

lemma max_fee_rate_normalized [simp]: "wr_max_fee_rate_sat_vb (normalized_request r) = wr_max_fee_rate_sat_vb r"
  by (simp add: normalized_request_def)

lemma normalized_output_idem [simp]: "normalized_output (normalized_output w) = normalized_output w"
  by (simp add: normalized_output_def)

lemma normalized_batch_idem: "normalized_batch (normalized_batch b) = normalized_batch b"
proof -
  have "map normalized_output (Sorting_Algorithms.sort (asc wo_request_id) (map normalized_output ws)) =
      Sorting_Algorithms.sort (asc wo_request_id) (map normalized_output ws)" for ws
    by (rule map_sort_fixed) auto
  then show ?thesis by (simp add: normalized_batch_def)
qed

interpretation batch_digest: canonical_digest normalized_batch json_WithdrawalBatch
  by unfold_locales (rule normalized_batch_idem)

lemma batch_hash_normalized: "batch_hash X (normalized_batch b) = batch_hash X b"
  using batch_digest.digest_norm [of X "''POHW1_WITHDRAWAL_BATCH''" b]
  by (simp add: batch_digest.digest_def batch_hash_def)

lemma signing_hash_normalized: "withdrawal_signing_hash X (normalized_request r) = withdrawal_signing_hash X r"
  by (simp add: withdrawal_signing_hash_def WithdrawalSigningPayload_def normalized_request_def)

lemma validate_request_normalized: "validate_request X (normalized_request r) h = validate_request X r h"
  by (simp add: validate_request_def)

text \<open>Validation returns on every input.\<close>

lemma validate_policy_not_Panic [simp]: "validate_destination_script_policy X rid s k n \<noteq> Panic"
  by (auto simp: validate_destination_script_policy_def validate_request_id_def validate_hex_exact_def bindR_Panic_iff)

lemma validate_request_not_Panic [simp]: "validate_request X r h \<noteq> Panic"
  by (auto simp: validate_request_def validate_destination_script_def verify_owner_signature_def Let_def
      validate_request_id_def validate_hex_exact_def bindR_Panic_iff)

section \<open>Size and fee estimates\<close>

lemma estimate_batch_vsize_Ok_iff:
  "estimate_batch_vsize inputs wpkh tr = Ok v \<longleftrightarrow>
     21 + 115 * inputs + 62 * wpkh + 86 * tr < 2 ^ 64 \<and>
     unat v = (21 + 115 * inputs + 62 * wpkh + 86 * tr + 1) div 2" (is "?l \<longleftrightarrow> ?w < _ \<and> _")
proof
  assume ?l
  then obtain z where "unat z = ?w" "v = div_ceil z 2"
    by (auto simp: estimate_batch_vsize_def res_simps checked_simps bind_eq_Some_conv)
  then show "?w < 2 ^ 64 \<and> unat v = (?w + 1) div 2" using unat_bound64 [of z] by (simp add: unat_div_ceil_2)
next
  assume r: "?w < 2 ^ 64 \<and> unat v = (?w + 1) div 2"
  have "(\<exists>w :: u64. unat w = n \<and> P w) \<longleftrightarrow> P (of_nat n)" and "unat (of_nat n :: u64) = n"
    if "n \<le> ?w" for n P
    using that r unat_of_nat_exact [of n, where 'w = 64] by (auto simp flip: of_nat_unat_word)
  then have "estimate_batch_vsize inputs wpkh tr = Ok (div_ceil (of_nat ?w) 2)"
    by (simp add: estimate_batch_vsize_def res_simps checked_simps bind_eq_Some_conv del: of_nat_add of_nat_mult)
  moreover have "div_ceil (of_nat ?w) 2 = v"
    using r by (intro unat_eq_word) (simp add: unat_div_ceil_2 unat_of_nat_exact del: of_nat_add of_nat_mult)
  ultimately show ?l by simp
qed

lemma estimate_fee_Ok_iff: "estimate_fee_sats v rate = Ok fee \<longleftrightarrow> unat fee = unat v * unat rate"
  by (simp add: estimate_fee_sats_def res_simps checked_simps)

section \<open>Assigning the fees\<close>

definition pays :: "extern \<Rightarrow> Sats \<Rightarrow> WithdrawalRequest \<Rightarrow> WithdrawalOutput \<Rightarrow> bool" where
  "pays X base_fee r w \<longleftrightarrow>
     wo_request_id w = wr_request_id r \<and> wo_destination_script_hex w = wr_destination_script_hex r \<and>
     wo_output_kind w = wr_output_kind r \<and> wo_gross_amount_sats w = wr_amount_sats r \<and>
     unat (wo_fee_sats w) \<in> {unat base_fee, unat base_fee + 1} \<and>
     unat (wo_net_amount_sats w) + unat (wo_fee_sats w) = unat (wo_gross_amount_sats w) \<and>
     validate_destination_script X r (wo_net_amount_sats w) = Ok ()"

lemma assign_fees_Ok:
  assumes "assign_fees X base_fee remainder rs = Ok ws" and "remainder \<noteq> 0 \<longrightarrow> unat base_fee + 1 < 2 ^ 64"
  shows "list_all2 (pays X base_fee) rs ws \<and>
    nsum (map wo_fee_sats ws) = length rs * unat base_fee + min (unat remainder) (length rs)"
  using assms
proof (induction X base_fee remainder rs arbitrary: ws rule: assign_fees.induct)
  case (1 X base_fee remainder)
  then show ?case by simp
next
  case (2 X base_fee remainder r rest)
  let ?fee = "if remainder > 0 then base_fee + 1 else base_fee"
  let ?rem = "if remainder > 0 then remainder - 1 else remainder"
  obtain vs where lt: "?fee < wr_amount_sats r"
    and ok: "validate_destination_script X r (wr_amount_sats r - ?fee) = Ok ()"
    and vs: "assign_fees X base_fee ?rem rest = Ok vs"
    and ws: "ws = \<lparr>wo_request_id = wr_request_id r, wo_destination_script_hex = wr_destination_script_hex r,
      wo_output_kind = wr_output_kind r, wo_gross_amount_sats = wr_amount_sats r,
      wo_fee_sats = ?fee, wo_net_amount_sats = wr_amount_sats r - ?fee\<rparr> # vs"
    using 2(2) by (auto simp: Let_def bindR_Ok_iff not_le split: if_splits)
  have fee: "unat ?fee = unat base_fee + (if remainder > 0 then 1 else 0)"
    using 2(3) unat_add_of_nat [of base_fee 1] by (auto simp: word_greater_zero_iff)
  have rem: "unat ?rem = unat remainder - 1" by (simp add: unat_minus_one word_greater_zero_iff)
  have IH: "list_all2 (pays X base_fee) rest vs \<and>
    nsum (map wo_fee_sats vs) = length rest * unat base_fee + min (unat ?rem) (length rest)"
    using 2(1) [OF refl refl _ vs] lt 2(3) by (auto simp: word_greater_zero_iff)
  have net: "unat (wr_amount_sats r - ?fee) = unat (wr_amount_sats r) - unat ?fee"
    using lt by (intro unat_sub_exact) simp
  have le: "unat ?fee \<le> unat (wr_amount_sats r)" using lt by (simp add: word_less_nat_alt)
  have "pays X base_fee r (hd ws)" using ws ok fee net le by (auto simp: pays_def)
  moreover have "nsum (map wo_fee_sats ws) = length (r # rest) * unat base_fee + min (unat remainder) (length (r # rest))"
    using IH fee rem ws by (cases "remainder = 0") (auto simp: word_greater_zero_iff min_def)
  ultimately show ?case using IH ws by simp
qed


section \<open>The batch\<close>

definition sorted_requests :: "WithdrawalRequest list \<Rightarrow> WithdrawalRequest list" where
  "sorted_requests rs = Sorting_Algorithms.sort (asc wr_request_id) (map normalized_request rs)"

lemma sorted_requests_ids: "sorted_wrt (\<le>) (map wr_request_id (sorted_requests rs))"
proof -
  have "Sorting_Algorithms.sorted (asc wr_request_id) (sorted_requests rs)" by (simp add: sorted_requests_def)
  then show ?thesis
    unfolding sorted_iff_wrt sorted_wrt_map by (rule sorted_wrt_mono_rel [rotated]) (auto split: if_splits)
qed

lemma sorted_requests_ids_perm:
  assumes "mset rs = mset qs"
  shows "map wr_request_id (sorted_requests rs) = map wr_request_id (sorted_requests qs)"
proof -
  have "mset (map wr_request_id (sorted_requests rs)) = mset (map wr_request_id (sorted_requests qs))"
    using assms by (simp add: sorted_requests_def)
  then show ?thesis using sorted_requests_ids by (metis properties_for_sort)
qed

lemma reject_duplicates_ids: "map wr_request_id rs = map wr_request_id qs \<Longrightarrow> reject_duplicates rs = reject_duplicates qs"
  by (induction rs arbitrary: qs rule: reject_duplicates.induct) (auto simp: Cons_eq_map_conv)

lemma reject_duplicates_Ok_iff:
  "sorted_wrt (\<le>) (map wr_request_id rs) \<Longrightarrow> reject_duplicates rs = Ok () \<longleftrightarrow> distinct (map wr_request_id rs)"
proof (induction rs rule: reject_duplicates.induct)
  case (1 a b rest)
  show ?case
  proof (cases "wr_request_id a = wr_request_id b")
    case False
    with 1(2) have "wr_request_id a < wr_request_id b" and "\<forall>r \<in> set rest. wr_request_id b \<le> wr_request_id r" by auto
    then have "wr_request_id a \<notin> set (map wr_request_id (b # rest))" by auto
    with 1 False show ?thesis by simp
  qed simp
qed simp_all

lemma sorted_requests_perm:
  assumes "mset rs = mset qs" and "distinct (map wr_request_id (sorted_requests rs))"
  shows "sorted_requests rs = sorted_requests qs"
  unfolding sorted_requests_def
proof (rule sort_perm)
  show "mset (map normalized_request rs) = mset (map normalized_request qs)" using assms(1) by simp
  have "distinct (map wr_request_id (map normalized_request rs))"
    using assms(2) by (simp add: sorted_requests_def del: map_map)
  then show "x = y" if "x \<in> set (map normalized_request rs)" "y \<in> set (map normalized_request rs)"
    "compare (asc wr_request_id) x y = Equiv" for x y
    using inj_on_key_eq [OF _ that(1,2), of wr_request_id] that(3) by (simp split: if_splits)
qed

lemma sorted_requests_kinds:
  "length (filter (\<lambda>r. wr_output_kind r = P2wpkh) (sorted_requests rs)) = length (filter (\<lambda>r. wr_output_kind r = P2wpkh) rs)"
  "length (sorted_requests rs) - length (filter (\<lambda>r. wr_output_kind r = P2wpkh) rs)
     = length (filter (\<lambda>r. wr_output_kind r = P2tr) rs)"
proof -
  show "length (filter (\<lambda>r. wr_output_kind r = P2wpkh) (sorted_requests rs)) = length (filter (\<lambda>r. wr_output_kind r = P2wpkh) rs)"
    by (simp add: sorted_requests_def filter_map comp_def normalized_request_def)
  have "wr_output_kind r = P2tr \<longleftrightarrow> wr_output_kind r \<noteq> P2wpkh" for r :: WithdrawalRequest
    by (cases "wr_output_kind r") simp_all
  then show "length (sorted_requests rs) - length (filter (\<lambda>r. wr_output_kind r = P2wpkh) rs)
     = length (filter (\<lambda>r. wr_output_kind r = P2tr) rs)"
    using sum_length_filter_compl [of "\<lambda>r. wr_output_kind r = P2wpkh" rs] by (simp add: sorted_requests_def)
qed

text \<open>What a successful build went through.\<close>

lemma build_batch_OkE:
  assumes "build_withdrawal_batch X rs inputs rate h = Ok b"
  obtains "rs \<noteq> []" and "distinct (map wr_request_id (sorted_requests rs))"
    and "\<forall>r \<in> set (sorted_requests rs). check_batch_request X rate h r = Ok ()"
    and "unat (wb_estimated_vsize b) = (21 + 115 * inputs
      + 62 * length (filter (\<lambda>r. wr_output_kind r = P2wpkh) rs)
      + 86 * length (filter (\<lambda>r. wr_output_kind r = P2tr) rs) + 1) div 2"
    and "unat (wb_total_fee_sats b) = unat (wb_estimated_vsize b) * unat rate"
    and "length rs < 2 ^ 64"
    and "assign_fees X (wb_total_fee_sats b div of_nat (length rs)) (wb_total_fee_sats b mod of_nat (length rs))
      (sorted_requests rs) = Ok (wb_outputs b)"
    and "wb_inputs b = inputs" and "wb_fee_rate_sat_vb b = rate"
proof -
  let ?rs = "sorted_requests rs"
  let ?wpkh = "length (filter (\<lambda>r. wr_output_kind r = P2wpkh) ?rs)"
  have kinds: "?wpkh = length (filter (\<lambda>r. wr_output_kind r = P2wpkh) rs)"
    "length ?rs - length (filter (\<lambda>r. wr_output_kind r = P2wpkh) rs) = length (filter (\<lambda>r. wr_output_kind r = P2tr) rs)"
    by (rule sorted_requests_kinds)+
  from assms obtain outs where "rs \<noteq> []" and dup: "reject_duplicates ?rs = Ok ()"
    and checks: "\<forall>r \<in> set ?rs. check_batch_request X rate h r = Ok ()"
    and vsize: "estimate_batch_vsize inputs ?wpkh (length ?rs - ?wpkh) = Ok (wb_estimated_vsize b)"
    and fee: "estimate_fee_sats (wb_estimated_vsize b) rate = Ok (wb_total_fee_sats b)"
    and outs: "assign_fees X (wb_total_fee_sats b div of_nat (length ?rs)) (wb_total_fee_sats b mod of_nat (length ?rs))
      ?rs = Ok (wb_outputs b)" and "wb_inputs b = inputs" "wb_fee_rate_sat_vb b = rate"
    unfolding build_withdrawal_batch_def sorted_requests_def [symmetric]
    by (auto simp: Let_def bindR_Ok_iff try_each_Ok_iff split: if_splits)
  have len: "length ?rs = length rs" by (simp add: sorted_requests_def)
  have "distinct (map wr_request_id ?rs)" using dup sorted_requests_ids by (simp add: reject_duplicates_Ok_iff)
  moreover from vsize [unfolded estimate_batch_vsize_Ok_iff kinds]
  have "21 + 115 * inputs + 62 * length (filter (\<lambda>r. wr_output_kind r = P2wpkh) rs)
      + 86 * length (filter (\<lambda>r. wr_output_kind r = P2tr) rs) < 2 ^ 64" and
    v: "unat (wb_estimated_vsize b) = (21 + 115 * inputs + 62 * length (filter (\<lambda>r. wr_output_kind r = P2wpkh) rs)
      + 86 * length (filter (\<lambda>r. wr_output_kind r = P2tr) rs) + 1) div 2" by auto
  moreover from this(1) have "length rs < 2 ^ 64" using kinds len by simp
  ultimately show thesis
    using that \<open>rs \<noteq> []\<close> checks v fee outs len \<open>wb_inputs b = inputs\<close> \<open>wb_fee_rate_sat_vb b = rate\<close>
    by (simp add: estimate_fee_Ok_iff)
qed


lemma batch_outputs:
  assumes "build_withdrawal_batch X rs inputs rate h = Ok b"
  shows "list_all2 (pays X (wb_total_fee_sats b div of_nat (length rs))) (sorted_requests rs) (wb_outputs b)"
    and "nsum (map wo_fee_sats (wb_outputs b)) = unat (wb_total_fee_sats b)"
proof -
  let ?fee = "wb_total_fee_sats b" and ?n = "of_nat (length rs) :: Sats"
  from assms have ne: "rs \<noteq> []" and lt: "length rs < 2 ^ 64" and
    fees: "assign_fees X (?fee div ?n) (?fee mod ?n) (sorted_requests rs) = Ok (wb_outputs b)"
    by (blast elim: build_batch_OkE)+
  have n: "unat ?n = length rs" using lt by (simp add: unat_of_nat_exact)
  have len: "length (sorted_requests rs) = length rs" by (simp add: sorted_requests_def)
  have div_mod: "unat (?fee div ?n) = unat ?fee div length rs" "unat (?fee mod ?n) = unat ?fee mod length rs"
    by (simp_all add: unat_div unat_mod n)
  have room: "?fee mod ?n \<noteq> 0 \<longrightarrow> unat (?fee div ?n) + 1 < 2 ^ 64"
  proof
    assume "?fee mod ?n \<noteq> 0"
    then have "unat ?fee mod length rs \<noteq> 0" using div_mod(2) by (metis unat_zero_iff)
    then have "1 < length rs" using ne by (cases "length rs = 1") (auto simp: Suc_lessI)
    then have "unat ?fee div length rs \<le> unat ?fee div 2" by (intro div_le_mono2) simp_all
    then show "unat (?fee div ?n) + 1 < 2 ^ 64" using div_mod(1) unat_bound64 [of ?fee] by simp
  qed
  note res = assign_fees_Ok [OF fees room]
  then show "list_all2 (pays X (?fee div ?n)) (sorted_requests rs) (wb_outputs b)" by blast
  have "unat ?fee mod length rs < length rs" using ne by simp
  then show "nsum (map wo_fee_sats (wb_outputs b)) = unat ?fee"
    using res len div_mod by (simp add: min_def mult.commute)
qed

section \<open>Properties\<close>

text \<open>Two requests for evaluation.\<close>

definition sample_request :: "string \<Rightarrow> WithdrawalOutputKind \<Rightarrow> WithdrawalRequest" where
  "sample_request rid kind = \<lparr>wr_request_id = rid, wr_claim_owner_id = ''AB'', wr_claim_owner_pubkey_hex = ''ab'',
     wr_destination_script_hex = replicate (script_hex_len kind) CHR ''A'', wr_amount_sats = 20000,
     wr_max_fee_rate_sat_vb = 5, wr_nonce = 1, wr_expiry_height = 9,
     wr_signature_hex = Some (replicate 128 CHR ''0''), wr_output_kind = kind\<rparr>"

definition sample_batch :: WithdrawalBatch where
  "sample_batch = (case build_withdrawal_batch identity_hash
     [sample_request ''r2'' P2wpkh, sample_request ''r1'' P2tr] 1 3 7 of Ok b \<Rightarrow> b)"

lemma sample_batch_built:
  "build_withdrawal_batch identity_hash [sample_request ''r2'' P2wpkh, sample_request ''r1'' P2tr] 1 3 7
    = Ok sample_batch"
  by code_simp

text \<open>
  C28: A batch charges exactly its fee: the total fee is the estimated size times the fee rate,
  the size is half of \<open>21 + 115 inputs + 62 P2WPKH outputs + 86 P2TR outputs\<close> rounded up, the
  fees of the outputs add up to the total and differ by at most one satoshi, and every output
  pays its gross amount minus its fee, which is not dust.
\<close>

theorem batch_fee_accounting:
  assumes "build_withdrawal_batch X requests inputs fee_rate_sat_vb current_height = Ok batch"
  shows "unat (wb_total_fee_sats batch) = unat (wb_estimated_vsize batch) * unat fee_rate_sat_vb \<and>
    unat (wb_estimated_vsize batch) = (21 + 115 * inputs + 62 * length (filter (\<lambda>r. wr_output_kind r = P2wpkh) requests)
      + 86 * length (filter (\<lambda>r. wr_output_kind r = P2tr) requests) + 1) div 2 \<and>
    sum_list (map (unat \<circ> wo_fee_sats) (wb_outputs batch)) = unat (wb_total_fee_sats batch) \<and>
    (\<forall>v \<in> set (wb_outputs batch). \<forall>w \<in> set (wb_outputs batch). unat (wo_fee_sats v) \<le> unat (wo_fee_sats w) + 1) \<and>
    (\<forall>w \<in> set (wb_outputs batch). dust_threshold (wo_output_kind w) \<le> wo_net_amount_sats w \<and>
      unat (wo_net_amount_sats w) + unat (wo_fee_sats w) = unat (wo_gross_amount_sats w))"
proof -
  note outs = batch_outputs [OF assms]
  have mem: "\<exists>r \<in> set (sorted_requests requests). pays X (wb_total_fee_sats batch div of_nat (length requests)) r w"
    if "w \<in> set (wb_outputs batch)" for w
    using outs(1) that by (rule list_all2_member)
  have "sum_list (map (unat \<circ> wo_fee_sats) (wb_outputs batch)) = unat (wb_total_fee_sats batch)"
    using outs(2) by (simp add: nsum_def)
  moreover have "unat (wo_fee_sats v) \<le> unat (wo_fee_sats w) + 1"
    if "v \<in> set (wb_outputs batch)" "w \<in> set (wb_outputs batch)" for v w
    using mem [OF that(1)] mem [OF that(2)] by (auto simp: pays_def)
  moreover have "dust_threshold (wo_output_kind w) \<le> wo_net_amount_sats w"
    "unat (wo_net_amount_sats w) + unat (wo_fee_sats w) = unat (wo_gross_amount_sats w)"
    if "w \<in> set (wb_outputs batch)" for w
    using mem [OF that] by (auto simp: pays_def validate_destination_script_def
        validate_destination_script_policy_def bindR_Ok_iff not_less split: if_splits)
  ultimately show ?thesis using assms by (blast elim: build_batch_OkE)
qed

theorem batch_fee_accounting_witness:
  "sum_list (map (unat \<circ> wo_fee_sats) (wb_outputs sample_batch)) = unat (wb_total_fee_sats sample_batch) \<and>
    unat (wb_estimated_vsize sample_batch) = 142"
  using batch_fee_accounting [OF sample_batch_built] by (simp add: sample_request_def)

text \<open>
  C29: A batch pays only authorised requests, each exactly once: request ids are distinct, and
  the outputs are, in the order of their ids, one per given request, to its script and for its
  amount, and every such request is valid at the current height, with an owner signature that
  verifies, and accepts the fee rate.
\<close>

theorem batch_pays_valid_requests:
  assumes "build_withdrawal_batch X requests inputs fee_rate_sat_vb current_height = Ok batch"
  shows "sorted_wrt (<) (map wo_request_id (wb_outputs batch)) \<and>
    mset (map (\<lambda>w. (wo_request_id w, wo_destination_script_hex w, wo_output_kind w, wo_gross_amount_sats w)) (wb_outputs batch))
      = mset (map (\<lambda>r. (wr_request_id r, to_ascii_lowercase (wr_destination_script_hex r), wr_output_kind r, wr_amount_sats r)) requests) \<and>
    (\<forall>r \<in> set requests. validate_request X r current_height = Ok () \<and> fee_rate_sat_vb \<le> wr_max_fee_rate_sat_vb r \<and>
      verify_owner_signature X (normalized_request r) = Ok ())"
proof -
  let ?key = "\<lambda>w. (wo_request_id w, wo_destination_script_hex w, wo_output_kind w, wo_gross_amount_sats w)"
  let ?rkey = "\<lambda>r. (wr_request_id r, wr_destination_script_hex r, wr_output_kind r, wr_amount_sats r)"
  from assms have dist: "distinct (map wr_request_id (sorted_requests requests))"
    and checks: "\<forall>r \<in> set (sorted_requests requests). check_batch_request X fee_rate_sat_vb current_height r = Ok ()"
    by (blast elim: build_batch_OkE)+
  have keys: "map ?key (wb_outputs batch) = map ?rkey (sorted_requests requests)"
    using batch_outputs(1) [OF assms] by (induction rule: list_all2_induct) (auto simp: pays_def)
  then have ids: "map wo_request_id (wb_outputs batch) = map wr_request_id (sorted_requests requests)"
    by (metis (no_types, lifting) fst_conv list.map_comp map_eq_conv comp_apply)
  have "sorted_wrt (<) (map wo_request_id (wb_outputs batch))"
    unfolding ids using sorted_requests_ids dist by (simp add: strict_sorted_iff)
  moreover have "mset (map ?key (wb_outputs batch)) = mset (map (\<lambda>r. (wr_request_id r,
      to_ascii_lowercase (wr_destination_script_hex r), wr_output_kind r, wr_amount_sats r)) requests)"
    unfolding keys by (simp add: sorted_requests_def normalized_request_def multiset.map_comp comp_def)
  moreover have "validate_request X r current_height = Ok ()" "fee_rate_sat_vb \<le> wr_max_fee_rate_sat_vb r"
    if "r \<in> set requests" for r
  proof -
    have "normalized_request r \<in> set (sorted_requests requests)" using that by (simp add: sorted_requests_def)
    with checks have "check_batch_request X fee_rate_sat_vb current_height (normalized_request r) = Ok ()" by blast
    then show "validate_request X r current_height = Ok ()" "fee_rate_sat_vb \<le> wr_max_fee_rate_sat_vb r"
      by (auto simp: check_batch_request_def validate_request_normalized bindR_Ok_iff not_less split: if_splits)
  qed
  moreover have "verify_owner_signature X (normalized_request r) = Ok ()"
    if "validate_request X r current_height = Ok ()" for r
    using that by (auto simp: validate_request_def Let_def bindR_Ok_iff split: if_splits)
  ultimately show ?thesis by blast
qed

theorem batch_pays_valid_requests_witness:
  "sorted_wrt (<) (map wo_request_id (wb_outputs sample_batch)) \<and>
    validate_request identity_hash (sample_request ''r1'' P2tr) 7 = Ok ()"
  using batch_pays_valid_requests [OF sample_batch_built] by simp

text \<open>
  C30: The result of building a batch, success or error, does not depend on the order in which
  the requests are given.
\<close>

theorem batch_order_independent:
  assumes "mset requests = mset requests'"
  shows "build_withdrawal_batch X requests inputs fee_rate_sat_vb current_height =
    build_withdrawal_batch X requests' inputs fee_rate_sat_vb current_height"
proof -
  have dup: "reject_duplicates (sorted_requests requests) = reject_duplicates (sorted_requests requests')"
    by (rule reject_duplicates_ids [OF sorted_requests_ids_perm [OF assms]])
  have nil: "requests = [] \<longleftrightarrow> requests' = []" using assms by auto
  show ?thesis
  proof (cases "reject_duplicates (sorted_requests requests) = Ok ()")
    case True
    then have "distinct (map wr_request_id (sorted_requests requests))"
      using sorted_requests_ids by (simp add: reject_duplicates_Ok_iff)
    then have "sorted_requests requests = sorted_requests requests'" by (rule sorted_requests_perm [OF assms])
    then show ?thesis using nil by (simp add: build_withdrawal_batch_def sorted_requests_def)
  next
    case False
    then show ?thesis
      using dup nil unfolding build_withdrawal_batch_def sorted_requests_def [symmetric]
      by (cases "reject_duplicates (sorted_requests requests')") (auto simp: Let_def)
  qed
qed

theorem batch_order_independent_witness:
  "build_withdrawal_batch identity_hash [sample_request ''r2'' P2wpkh, sample_request ''r1'' P2tr] 1 3 7 =
    build_withdrawal_batch identity_hash [sample_request ''r1'' P2tr, sample_request ''r2'' P2wpkh] 1 3 7"
  by (rule batch_order_independent) simp

end
