(* ===== verification/Ledger.thy ===== *)
theory Ledger
  imports Payout Withdrawal
begin

text \<open>
  \<open>pohw-core/src/ledger.rs\<close>: the claim ledger that credits vault allocations, reserves
  withdrawals and forgets them when they are paid. Its reachable states are an inductive
  relation with three ghost components: what was credited, what was paid, and the
  (owner, nonce) pairs of the reservations made.
\<close>

section \<open>State and operations\<close>

record PendingWithdrawal =
  pw_request_id :: string
  pw_claim_owner_id :: string
  pw_gross_amount_sats :: Sats
  pw_fee_sats :: Sats
  pw_net_amount_sats :: Sats

record ClaimLedger =
  cl_balances :: "(string, Sats) btree"
  cl_pending_withdrawals :: "(string, PendingWithdrawal) btree"
  cl_last_withdrawal_nonce_by_owner :: "(string, u64) btree"

datatype LedgerError =
    InsufficientBalance string Sats Sats
  | DuplicateWithdrawal string
  | StaleNonce string u64 u64
  | BalanceOverflow string
  | InvalidWithdrawal WithdrawalError

definition default_ledger :: ClaimLedger where
  "default_ledger = \<lparr>cl_balances = bt_empty, cl_pending_withdrawals = bt_empty,
     cl_last_withdrawal_nonce_by_owner = bt_empty\<rparr>"

text \<open>The value behind \<open>entry(key).or_default()\<close>.\<close>

definition or_default :: "(string, Sats) btree \<Rightarrow> string \<Rightarrow> Sats" where
  "or_default m k = (case bt_get m k of None \<Rightarrow> 0 | Some b \<Rightarrow> b)"

definition balance :: "ClaimLedger \<Rightarrow> string \<Rightarrow> Sats" where
  "balance l claim_owner_id = (case bt_get (cl_balances l) (to_ascii_lowercase claim_owner_id) of
     None \<Rightarrow> 0 | Some b \<Rightarrow> b)"

text \<open>\<open>entry(key).or_default()\<close> leaves the key in the map also when the addition overflows.\<close>

definition apply_vault_allocation :: "VaultAllocation \<Rightarrow> (ClaimLedger, LedgerError, unit) act" where
  "apply_vault_allocation a l = (let key = to_ascii_lowercase (va_claim_owner_id a);
     entry = or_default (cl_balances l) key;
     l0 = l\<lparr>cl_balances := bt_insert key entry (cl_balances l)\<rparr>
     in case checked_add entry (va_amount_sats a) of
       None \<Rightarrow> (Err (BalanceOverflow key), l0)
     | Some b \<Rightarrow> (Ok (), l0\<lparr>cl_balances := bt_insert key b (cl_balances l0)\<rparr>))"

primrec apply_vault_allocations :: "VaultAllocation list \<Rightarrow> (ClaimLedger, LedgerError, unit) act" where
  "apply_vault_allocations [] = retA ()"
| "apply_vault_allocations (a # as) = bindA (apply_vault_allocation a) (\<lambda>_. apply_vault_allocations as)"

definition apply_payout_schedule :: "PayoutSchedule \<Rightarrow> (ClaimLedger, LedgerError, unit) act" where
  "apply_payout_schedule s = apply_vault_allocations (ps_vault_allocations s)"

text \<open>The guards of \<open>reserve_withdrawal\<close>, in their order, and the mutation after them.\<close>

definition check_reservation ::
  "extern \<Rightarrow> WithdrawalRequest \<Rightarrow> Sats \<Rightarrow> u64 \<Rightarrow> ClaimLedger \<Rightarrow> (LedgerError, unit) res" where
  "check_reservation X r fee_sats current_height l = (let key = to_ascii_lowercase (wr_claim_owner_id r) in
     bindR (map_err InvalidWithdrawal (validate_request X r current_height)) (\<lambda>_.
     let available = balance l key in
     if wr_amount_sats r > available
     then Err (InsufficientBalance key (wr_amount_sats r) available)
     else if bt_contains (cl_pending_withdrawals l) (wr_request_id r)
     then Err (DuplicateWithdrawal (wr_request_id r))
     else if fee_sats \<ge> wr_amount_sats r
     then Err (InvalidWithdrawal (FeeExceedsAmount (wr_request_id r) (wr_amount_sats r) fee_sats))
     else bindR (map_err InvalidWithdrawal (validate_destination_script_policy X (wr_request_id r)
       (wr_destination_script_hex r) (wr_output_kind r) (wr_amount_sats r - fee_sats))) (\<lambda>_.
     case bt_get (cl_last_withdrawal_nonce_by_owner l) key of
       Some last_nonce \<Rightarrow> if wr_nonce r \<le> last_nonce then Err (StaleNonce key (wr_nonce r) last_nonce) else Ok ()
     | None \<Rightarrow> Ok ())))"

definition reserve_withdrawal ::
  "extern \<Rightarrow> WithdrawalRequest \<Rightarrow> Sats \<Rightarrow> u64 \<Rightarrow> (ClaimLedger, LedgerError, PendingWithdrawal) act" where
  "reserve_withdrawal X r fee_sats current_height =
     bindA (readA (check_reservation X r fee_sats current_height)) (\<lambda>_ l.
       let key = to_ascii_lowercase (wr_claim_owner_id r);
           entry = or_default (cl_balances l) key;
           pending = \<lparr>pw_request_id = wr_request_id r, pw_claim_owner_id = key,
             pw_gross_amount_sats = wr_amount_sats r, pw_fee_sats = fee_sats,
             pw_net_amount_sats = wr_amount_sats r - fee_sats\<rparr>
       in (Ok pending, l\<lparr>
         cl_balances := bt_insert key (entry - wr_amount_sats r) (cl_balances l),
         cl_pending_withdrawals := bt_insert (wr_request_id r) pending (cl_pending_withdrawals l),
         cl_last_withdrawal_nonce_by_owner :=
           bt_insert key (wr_nonce r) (cl_last_withdrawal_nonce_by_owner l)\<rparr>))"

definition mark_paid :: "string \<Rightarrow> ClaimLedger \<Rightarrow> PendingWithdrawal option \<times> ClaimLedger" where
  "mark_paid request_id l = (bt_get (cl_pending_withdrawals l) request_id,
     l\<lparr>cl_pending_withdrawals := bt_remove request_id (cl_pending_withdrawals l)\<rparr>)"

definition pending_withdrawal :: "ClaimLedger \<Rightarrow> string \<Rightarrow> PendingWithdrawal option" where
  "pending_withdrawal l request_id = bt_get (cl_pending_withdrawals l) request_id"

definition pending_withdrawal_count :: "ClaimLedger \<Rightarrow> nat" where
  "pending_withdrawal_count l = bt_len (cl_pending_withdrawals l)"

section \<open>Totals\<close>

definition claims :: "ClaimLedger \<Rightarrow> nat" where
  "claims l = bt_sum unat (cl_balances l)"

definition pending :: "ClaimLedger \<Rightarrow> nat" where
  "pending l = bt_sum (unat \<circ> pw_gross_amount_sats) (cl_pending_withdrawals l)"

lemma balances_insert:
  "bt_sum unat (bt_insert k b m) + unat (or_default m k) = bt_sum unat m + unat b"
  by (simp add: bt_sum_insert bt_sum_split [of unat m k] or_default_def split: option.split)

lemma balance_or_default: "balance l (to_ascii_lowercase k) = or_default (cl_balances l) (to_ascii_lowercase k)"
  by (simp add: balance_def or_default_def)

lemma apply_vault_allocation_Ok:
  assumes "apply_vault_allocation a l = (Ok (), l')"
  shows "claims l' = claims l + unat (va_amount_sats a)"
    and "cl_last_withdrawal_nonce_by_owner l' = cl_last_withdrawal_nonce_by_owner l"
    and "cl_pending_withdrawals l' = cl_pending_withdrawals l"
proof -
  let ?k = "to_ascii_lowercase (va_claim_owner_id a)"
  obtain b where b: "unat b = unat (or_default (cl_balances l) ?k) + unat (va_amount_sats a)"
    and l': "l' = l\<lparr>cl_balances := bt_insert ?k b (cl_balances l)\<rparr>"
    using assms by (auto simp: apply_vault_allocation_def Let_def checked_simps btm.ins_ins split: option.splits)
  show "claims l' = claims l + unat (va_amount_sats a)"
    using balances_insert [of ?k b "cl_balances l"] b by (simp add: l' claims_def)
  show "cl_last_withdrawal_nonce_by_owner l' = cl_last_withdrawal_nonce_by_owner l"
    "cl_pending_withdrawals l' = cl_pending_withdrawals l" by (simp_all add: l')
qed

lemma apply_vault_allocation_Err:
  assumes "apply_vault_allocation a l = (Err e, l')"
  shows "l' = l"
proof (cases "bt_get (cl_balances l) (to_ascii_lowercase (va_claim_owner_id a))")
  case None
  then have "or_default (cl_balances l) (to_ascii_lowercase (va_claim_owner_id a)) = 0"
    by (simp add: or_default_def)
  then show ?thesis
    using assms unat_bound64 [of "va_amount_sats a"] by (simp add: apply_vault_allocation_def Let_def checked_add_def)
next
  case (Some b)
  then show ?thesis
    using assms by (auto simp: apply_vault_allocation_def Let_def or_default_def btm.ins_same split: option.splits)
qed

lemma apply_vault_allocation_not_Panic: "fst (apply_vault_allocation a l) \<noteq> Panic"
  by (auto simp: apply_vault_allocation_def Let_def split: option.splits)

lemma apply_vault_allocations_Ok:
  "apply_vault_allocations as l = (Ok (), l') \<Longrightarrow> claims l' = claims l + nsum (map va_amount_sats as)"
  by (induction as arbitrary: l) (auto simp: res_simps apply_vault_allocation_Ok)

text \<open>What a successful reservation does, and that a failed one does nothing.\<close>

lemma check_reservation_Ok_iff:
  "check_reservation X r fee h l = Ok () \<longleftrightarrow>
     validate_request X r h = Ok () \<and>
     wr_amount_sats r \<le> or_default (cl_balances l) (to_ascii_lowercase (wr_claim_owner_id r)) \<and>
     bt_get (cl_pending_withdrawals l) (wr_request_id r) = None \<and> fee < wr_amount_sats r \<and>
     validate_destination_script_policy X (wr_request_id r) (wr_destination_script_hex r) (wr_output_kind r)
       (wr_amount_sats r - fee) = Ok () \<and>
     (\<forall>n. bt_get (cl_last_withdrawal_nonce_by_owner l) (to_ascii_lowercase (wr_claim_owner_id r)) = Some n \<longrightarrow> n < wr_nonce r)"
  by (auto simp: check_reservation_def Let_def bindR_Ok_iff map_err_Ok_iff balance_or_default not_less not_le
      split: option.splits if_splits)

lemma reserve_Ok_iff:
  "reserve_withdrawal X r fee h l = (Ok p, l') \<longleftrightarrow> check_reservation X r fee h l = Ok () \<and>
     p = \<lparr>pw_request_id = wr_request_id r, pw_claim_owner_id = to_ascii_lowercase (wr_claim_owner_id r),
       pw_gross_amount_sats = wr_amount_sats r, pw_fee_sats = fee, pw_net_amount_sats = wr_amount_sats r - fee\<rparr> \<and>
     l' = l\<lparr>cl_balances := bt_insert (to_ascii_lowercase (wr_claim_owner_id r))
         (or_default (cl_balances l) (to_ascii_lowercase (wr_claim_owner_id r)) - wr_amount_sats r) (cl_balances l),
       cl_pending_withdrawals := bt_insert (wr_request_id r) p (cl_pending_withdrawals l),
       cl_last_withdrawal_nonce_by_owner :=
         bt_insert (to_ascii_lowercase (wr_claim_owner_id r)) (wr_nonce r) (cl_last_withdrawal_nonce_by_owner l)\<rparr>"
  by (auto simp: reserve_withdrawal_def res_simps Let_def)

lemma reserve_Ok:
  assumes "reserve_withdrawal X r fee h l = (Ok p, l')"
  shows "claims l' + unat (wr_amount_sats r) = claims l"
    and "pending l' = pending l + unat (wr_amount_sats r)"
    and "unat (pw_net_amount_sats p) + unat (pw_fee_sats p) = unat (wr_amount_sats r)"
proof -
  let ?k = "to_ascii_lowercase (wr_claim_owner_id r)"
  note ok = assms [unfolded reserve_Ok_iff check_reservation_Ok_iff]
  have "unat (or_default (cl_balances l) ?k - wr_amount_sats r) + unat (wr_amount_sats r)
      = unat (or_default (cl_balances l) ?k)"
    using ok by (simp add: unat_sub_exact word_le_nat_alt)
  then show "claims l' + unat (wr_amount_sats r) = claims l"
    using balances_insert [of ?k "or_default (cl_balances l) ?k - wr_amount_sats r" "cl_balances l"] ok
    by (simp add: claims_def)
  show "pending l' = pending l + unat (wr_amount_sats r)"
    using ok bt_sum_split [of "unat \<circ> pw_gross_amount_sats" "cl_pending_withdrawals l" "wr_request_id r"]
    by (simp add: pending_def bt_sum_insert)
  show "unat (pw_net_amount_sats p) + unat (pw_fee_sats p) = unat (wr_amount_sats r)"
    using ok unat_sub_exact [of fee "wr_amount_sats r"] less_imp_le [of fee "wr_amount_sats r"]
    by (auto simp: word_le_nat_alt)
qed

lemma reserve_Err: "reserve_withdrawal X r fee h l = (Err e, l') \<Longrightarrow> l' = l"
  by (auto simp: reserve_withdrawal_def bindA_Err_iff res_simps Let_def)

lemma reserve_not_Panic: "fst (reserve_withdrawal X r fee h l) \<noteq> Panic"
proof -
  have "check_reservation X r fee h l \<noteq> Panic"
    by (auto simp: check_reservation_def Let_def bindR_Panic_iff map_err_Panic_iff split: option.splits)
  then show ?thesis
    by (auto simp: reserve_withdrawal_def bindA_def readA_def Let_def split: res.splits)
qed

section \<open>Reachable states\<close>

text \<open>
  \<open>ledger_reachable X l credited paid reserved\<close>: some sequence of operations on the default
  ledger, failing ones included, ends in \<open>l\<close>.
\<close>

inductive ledger_reachable :: "extern \<Rightarrow> ClaimLedger \<Rightarrow> nat \<Rightarrow> nat \<Rightarrow> (string \<times> u64) list \<Rightarrow> bool" for X where
  start: "ledger_reachable X default_ledger 0 0 []"
| credit: "ledger_reachable X l c p ns \<Longrightarrow> apply_vault_allocation a l = (Ok (), l') \<Longrightarrow>
    ledger_reachable X l' (c + unat (va_amount_sats a)) p ns"
| credit_fails: "ledger_reachable X l c p ns \<Longrightarrow> apply_vault_allocation a l = (Err e, l') \<Longrightarrow>
    ledger_reachable X l' c p ns"
| reserve: "ledger_reachable X l c p ns \<Longrightarrow> reserve_withdrawal X r fee h l = (Ok pw, l') \<Longrightarrow>
    ledger_reachable X l' c p ((to_ascii_lowercase (wr_claim_owner_id r), wr_nonce r) # ns)"
| reserve_fails: "ledger_reachable X l c p ns \<Longrightarrow> reserve_withdrawal X r fee h l = (Err e, l') \<Longrightarrow>
    ledger_reachable X l' c p ns"
| pay: "ledger_reachable X l c p ns \<Longrightarrow> mark_paid rid l = (Some pw, l') \<Longrightarrow>
    ledger_reachable X l' c (p + unat (pw_gross_amount_sats pw)) ns"
| pay_unknown: "ledger_reachable X l c p ns \<Longrightarrow> mark_paid rid l = (None, l') \<Longrightarrow>
    ledger_reachable X l' c p ns"

lemma mark_paid_Some:
  "mark_paid rid l = (Some pw, l') \<Longrightarrow> claims l' = claims l \<and> pending l = pending l' + unat (pw_gross_amount_sats pw) \<and>
     cl_last_withdrawal_nonce_by_owner l' = cl_last_withdrawal_nonce_by_owner l"
  using bt_sum_split [of "unat \<circ> pw_gross_amount_sats" "cl_pending_withdrawals l" rid]
  by (auto simp: mark_paid_def claims_def pending_def)

lemma mark_paid_None: "mark_paid rid l = (None, l') \<Longrightarrow> l' = l"
  by (auto simp: mark_paid_def btm.rem_fresh)

text \<open>A whole payout schedule is a sequence of credits, also when it stops half-way.\<close>

lemma allocations_reachable:
  "ledger_reachable X l c p ns \<Longrightarrow> apply_vault_allocations as l = (res, l') \<Longrightarrow>
     \<exists>c'. ledger_reachable X l' c' p ns"
proof (induction as arbitrary: l c)
  case Nil
  then show ?case by (auto simp: res_simps)
next
  case (Cons a as)
  obtain r l1 where step: "apply_vault_allocation a l = (r, l1)" by fastforce
  show ?case
  proof (cases r)
    case (Ok u)
    with step Cons.prems show ?thesis
      by (intro Cons.IH [OF ledger_reachable.credit]) (auto simp: bindA_def)
  next
    case (Err e)
    with step Cons.prems have "l' = l1" by (auto simp: bindA_def)
    with Err step Cons.prems(1) show ?thesis by (blast intro: ledger_reachable.credit_fails)
  next
    case Panic
    with step apply_vault_allocation_not_Panic show ?thesis by (metis fst_conv)
  qed
qed

lemma reachable_totals: "ledger_reachable X l c p ns \<Longrightarrow> claims l + pending l + p = c"
proof (induction rule: ledger_reachable.induct)
  case start
  then show ?case by (simp add: default_ledger_def claims_def pending_def)
next
  case (credit l c p ns a l')
  then show ?case by (simp add: apply_vault_allocation_Ok pending_def)
next
  case (reserve l c p ns r fee h pw l')
  then show ?case using reserve_Ok [OF reserve.hyps(2)] by simp
next
  case (pay l c p ns rid pw l')
  then show ?case using mark_paid_Some [OF pay.hyps(2)] by simp
qed (auto dest: apply_vault_allocation_Err reserve_Err mark_paid_None)

text \<open>The last nonce stored for an owner bounds every nonce it ever reserved with.\<close>

definition nonces_bounded :: "ClaimLedger \<Rightarrow> (string \<times> u64) list \<Rightarrow> bool" where
  "nonces_bounded l ns \<longleftrightarrow> distinct ns \<and>
     (\<forall>(k, n) \<in> set ns. \<exists>m. bt_get (cl_last_withdrawal_nonce_by_owner l) k = Some m \<and> n \<le> m)"

lemma reachable_nonces: "ledger_reachable X l c p ns \<Longrightarrow> nonces_bounded l ns"
proof (induction rule: ledger_reachable.induct)
  case start
  then show ?case by (simp add: nonces_bounded_def)
next
  case (credit l c p ns a l')
  then show ?case by (simp add: nonces_bounded_def apply_vault_allocation_Ok)
next
  case (reserve l c p ns r fee h pw l')
  note ok = reserve.hyps(2) [unfolded reserve_Ok_iff check_reservation_Ok_iff]
  let ?k = "to_ascii_lowercase (wr_claim_owner_id r)"
  have below: "n < wr_nonce r" if "(?k, n) \<in> set ns" for n
    using that reserve.IH ok unfolding nonces_bounded_def by force
  then show ?case
    using reserve.IH ok below unfolding nonces_bounded_def by (fastforce intro: less_imp_le)
next
  case (pay l c p ns rid pw l')
  then show ?case using mark_paid_Some [OF pay.hyps(2)] by (simp add: nonces_bounded_def)
qed (auto dest: apply_vault_allocation_Err reserve_Err mark_paid_None)

section \<open>Properties\<close>

text \<open>A ledger for evaluation: a credit, then a reservation.\<close>

definition sample_allocation :: VaultAllocation where
  "sample_allocation = \<lparr>va_miner_id = ''m'', va_claim_owner_id = ''Ab'', va_amount_sats = 30000\<rparr>"

definition credited_ledger :: ClaimLedger where
  "credited_ledger = snd (apply_vault_allocation sample_allocation default_ledger)"

definition sample_pending :: PendingWithdrawal where
  "sample_pending = \<lparr>pw_request_id = ''r1'', pw_claim_owner_id = ''ab'', pw_gross_amount_sats = 20000,
     pw_fee_sats = 100, pw_net_amount_sats = 19900\<rparr>"

definition reserved_ledger :: ClaimLedger where
  "reserved_ledger = snd (reserve_withdrawal identity_hash (sample_request ''r1'' P2tr) 100 7 credited_ledger)"

lemma sample_reachable: "ledger_reachable identity_hash reserved_ledger 30000 0 [(''ab'', 1)]"
proof -
  have "fst (apply_vault_allocation sample_allocation default_ledger) = Ok ()" by code_simp
  then have "apply_vault_allocation sample_allocation default_ledger = (Ok (), credited_ledger)"
    by (simp add: credited_ledger_def prod_eq_iff)
  from ledger_reachable.credit [OF ledger_reachable.start this]
  have credited: "ledger_reachable identity_hash credited_ledger 30000 0 []"
    by (simp add: sample_allocation_def)
  have "fst (reserve_withdrawal identity_hash (sample_request ''r1'' P2tr) 100 7 credited_ledger) = Ok sample_pending"
    by code_simp
  then have "reserve_withdrawal identity_hash (sample_request ''r1'' P2tr) 100 7 credited_ledger = (Ok sample_pending, reserved_ledger)"
    by (simp add: reserved_ledger_def prod_eq_iff)
  moreover have "to_ascii_lowercase (wr_claim_owner_id (sample_request ''r1'' P2tr)) = ''ab''"
    "wr_nonce (sample_request ''r1'' P2tr) = 1" by code_simp+
  ultimately show ?thesis
    using ledger_reachable.reserve [OF credited] by metis
qed

text \<open>
  C31: Claims are conserved: in every reachable ledger, balances plus pending withdrawals plus
  everything paid out is exactly what was credited. No operation, failing or not, creates or
  loses a satoshi, and no balance underflows.
\<close>

theorem ledger_conserves_claims:
  assumes "ledger_reachable X l credited paid reserved"
  shows "bt_sum unat (cl_balances l) + bt_sum (unat \<circ> pw_gross_amount_sats) (cl_pending_withdrawals l) + paid = credited"
  using reachable_totals [OF assms] by (simp add: claims_def pending_def)

theorem ledger_conserves_claims_witness:
  "bt_sum unat (cl_balances reserved_ledger) +
    bt_sum (unat \<circ> pw_gross_amount_sats) (cl_pending_withdrawals reserved_ledger) = 30000"
  using ledger_conserves_claims [OF sample_reachable] by simp

text \<open>
  C32: A withdrawal authorisation is good for one reservation: in every reachable ledger, a
  request whose owner has already reserved with the same nonce is rejected, also after the
  earlier withdrawal was paid and forgotten, whatever its id, amount and fee.
\<close>

theorem reservation_not_replayed:
  assumes "ledger_reachable X l credited paid reserved"
    and "(to_ascii_lowercase (wr_claim_owner_id r), wr_nonce r) \<in> set reserved"
  shows "\<exists>e. reserve_withdrawal X r fee_sats current_height l = (Err e, l)"
proof (cases "reserve_withdrawal X r fee_sats current_height l")
  case (Pair res l')
  show ?thesis
  proof (cases res)
    case (Ok pw)
    obtain m where "bt_get (cl_last_withdrawal_nonce_by_owner l) (to_ascii_lowercase (wr_claim_owner_id r)) = Some m"
      and "wr_nonce r \<le> m"
      using reachable_nonces [OF assms(1)] assms(2) by (auto simp: nonces_bounded_def)
    with Ok Pair show ?thesis by (auto simp: reserve_Ok_iff check_reservation_Ok_iff)
  next
    case (Err e)
    with Pair reserve_Err show ?thesis by blast
  next
    case Panic
    with Pair reserve_not_Panic show ?thesis by (metis fst_conv)
  qed
qed

theorem reservation_not_replayed_witness:
  "\<exists>e. reserve_withdrawal identity_hash (sample_request ''r1'' P2tr) 100 7 reserved_ledger = (Err e, reserved_ledger)"
proof (rule reservation_not_replayed [OF sample_reachable])
  show "(to_ascii_lowercase (wr_claim_owner_id (sample_request ''r1'' P2tr)), wr_nonce (sample_request ''r1'' P2tr))
    \<in> set [(''ab'', 1)]" by code_simp
qed

end
