(* ===== verification/Rewards.thy ===== *)
theory Rewards
  imports Extern
begin

text \<open>
  \<open>pohw-core/src/replay.rs\<close>: folding Idena reward events into per-address scores. The fold is
  shown to compute, for every address, the sums of its events by class.
\<close>

datatype RewardKind =
  Validation | Proposer | FinalCommittee | Invitation | Invitee | ContractOracle | Other

record RewardEvent =
  re_idena_address :: string
  re_kind :: RewardKind
  re_amount_atoms :: Score
  re_source_height :: u64
  re_source_hash :: string

record RewardScore =
  rs_validation_reward_score :: Score
  rs_proposer_reward_score :: Score
  rs_committee_reward_score :: Score
  rs_ignored_invitation_score :: Score
  rs_ignored_other_score :: Score

datatype RewardReplayError = ScoreOverflow string

definition default_score :: RewardScore where
  "default_score = \<lparr>rs_validation_reward_score = 0, rs_proposer_reward_score = 0,
     rs_committee_reward_score = 0, rs_ignored_invitation_score = 0, rs_ignored_other_score = 0\<rparr>"

definition eligible_score :: "RewardScore \<Rightarrow> (RewardReplayError, Score) res" where
  "eligible_score s = ok_or (ScoreOverflow ''<score>'')
     (Option.bind (checked_add (rs_validation_reward_score s) (rs_proposer_reward_score s))
       (\<lambda>score. checked_add score (rs_committee_reward_score s)))"

type_synonym RewardReplay = "(string, RewardScore) btree"

text \<open>The match on the kind: the entry with the event added, or nothing on overflow.\<close>

fun add_reward :: "RewardKind \<Rightarrow> Score \<Rightarrow> RewardScore \<Rightarrow> RewardScore option" where
  "add_reward Validation v s = map_option (\<lambda>t. s\<lparr>rs_validation_reward_score := t\<rparr>)
     (checked_add (rs_validation_reward_score s) v)"
| "add_reward Proposer v s = map_option (\<lambda>t. s\<lparr>rs_proposer_reward_score := t\<rparr>)
     (checked_add (rs_proposer_reward_score s) v)"
| "add_reward FinalCommittee v s = map_option (\<lambda>t. s\<lparr>rs_committee_reward_score := t\<rparr>)
     (checked_add (rs_committee_reward_score s) v)"
| "add_reward Invitation v s = map_option (\<lambda>t. s\<lparr>rs_ignored_invitation_score := t\<rparr>)
     (checked_add (rs_ignored_invitation_score s) v)"
| "add_reward Invitee v s = map_option (\<lambda>t. s\<lparr>rs_ignored_invitation_score := t\<rparr>)
     (checked_add (rs_ignored_invitation_score s) v)"
| "add_reward ContractOracle v s = map_option (\<lambda>t. s\<lparr>rs_ignored_other_score := t\<rparr>)
     (checked_add (rs_ignored_other_score s) v)"
| "add_reward Other v s = map_option (\<lambda>t. s\<lparr>rs_ignored_other_score := t\<rparr>)
     (checked_add (rs_ignored_other_score s) v)"

text \<open>\<open>entry(..).or_default()\<close> stays in the map when the addition overflows.\<close>

definition apply_reward :: "RewardEvent \<Rightarrow> (RewardReplay, RewardReplayError, unit) act" where
  "apply_reward e scores = (let idena_address = to_ascii_lowercase (re_idena_address e);
     entry = (case bt_get scores idena_address of None \<Rightarrow> default_score | Some s \<Rightarrow> s)
     in case add_reward (re_kind e) (re_amount_atoms e) entry of
       None \<Rightarrow> (Err (ScoreOverflow idena_address), bt_insert idena_address entry scores)
     | Some entry' \<Rightarrow> (Ok (), bt_insert idena_address entry' scores))"

definition score_for :: "RewardReplay \<Rightarrow> string \<Rightarrow> RewardScore" where
  "score_for scores idena_address =
     (case bt_get scores (to_ascii_lowercase idena_address) of None \<Rightarrow> default_score | Some s \<Rightarrow> s)"

text \<open>A replay: events applied one after the other while they succeed.\<close>

primrec replay_rewards :: "RewardEvent list \<Rightarrow> (RewardReplay, RewardReplayError, unit) act" where
  "replay_rewards [] = retA ()"
| "replay_rewards (e # es) = bindA (apply_reward e) (\<lambda>_. replay_rewards es)"

section \<open>Sums by class\<close>

definition reward_total :: "RewardKind set \<Rightarrow> string \<Rightarrow> RewardEvent list \<Rightarrow> nat" where
  "reward_total kinds address es = (\<Sum>e \<leftarrow> es.
     if re_kind e \<in> kinds \<and> to_ascii_lowercase (re_idena_address e) = to_ascii_lowercase address
     then unat (re_amount_atoms e) else 0)"

text \<open>The class of events behind each field.\<close>

definition score_class :: "RewardScore \<Rightarrow> (RewardKind set \<times> nat) list" where
  "score_class s = [({Validation}, unat (rs_validation_reward_score s)),
     ({Proposer}, unat (rs_proposer_reward_score s)), ({FinalCommittee}, unat (rs_committee_reward_score s)),
     ({Invitation, Invitee}, unat (rs_ignored_invitation_score s)),
     ({ContractOracle, Other}, unat (rs_ignored_other_score s))]"

lemma add_reward_classes:
  "add_reward k v s = Some t \<Longrightarrow>
     score_class t = map (\<lambda>(ks, n). (ks, n + (if k \<in> ks then unat v else 0))) (score_class s)"
  by (cases k) (auto simp: score_class_def checked_simps)

lemma apply_reward_Ok:
  assumes "apply_reward e scores = (Ok (), scores')"
  shows "score_class (score_for scores' a) =
    map (\<lambda>(ks, n). (ks, n + reward_total ks a [e])) (score_class (score_for scores a))"
proof (cases "to_ascii_lowercase (re_idena_address e) = to_ascii_lowercase a")
  case True
  with assms have "add_reward (re_kind e) (re_amount_atoms e) (score_for scores a) = Some (score_for scores' a)"
    by (auto simp: apply_reward_def Let_def score_for_def split: option.splits)
  from add_reward_classes [OF this] True show ?thesis
    by (simp add: reward_total_def)
next
  case False
  with assms have "score_for scores' a = score_for scores a"
    by (auto simp: apply_reward_def Let_def score_for_def split: option.splits)
  with False show ?thesis by (simp add: reward_total_def case_prod_unfold)
qed

lemma reward_total_Cons: "reward_total ks a (e # es) = reward_total ks a [e] + reward_total ks a es"
  by (simp add: reward_total_def)

lemma replay_classes:
  "replay_rewards es scores = (Ok (), scores') \<Longrightarrow>
     score_class (score_for scores' a) =
       map (\<lambda>(ks, n). (ks, n + reward_total ks a es)) (score_class (score_for scores a))"
proof (induction es arbitrary: scores)
  case Nil
  then show ?case by (simp add: res_simps reward_total_def case_prod_unfold)
next
  case (Cons e es)
  then obtain s1 where "apply_reward e scores = (Ok (), s1)" and "replay_rewards es s1 = (Ok (), scores')"
    by (auto simp: res_simps)
  with Cons.IH [of s1] apply_reward_Ok [of e scores s1 a] show ?case
    by (simp add: reward_total_Cons [of _ _ e es] case_prod_unfold add.assoc)
qed

lemma reward_total_Un:
  "ks \<inter> ls = {} \<Longrightarrow> reward_total (ks \<union> ls) a es = reward_total ks a es + reward_total ls a es"
  by (induction es) (auto simp: reward_total_def)

section \<open>Properties\<close>

text \<open>
  C33: After a replay of any list of events, the eligible score of an address is the sum of its
  validation, proposer and final-committee rewards (addresses compared case-insensitively);
  invitations, invitee rewards, oracle contracts and other events never contribute.
\<close>

theorem replay_eligible_score:
  assumes "replay_rewards events bt_empty = (Ok (), scores)" and "eligible_score (score_for scores address) = Ok score"
  shows "unat score = reward_total {Validation, Proposer, FinalCommittee} address events"
proof -
  have "score_class (score_for bt_empty address) = map (\<lambda>ks. (ks, 0))
      [{Validation}, {Proposer}, {FinalCommittee}, {Invitation, Invitee}, {ContractOracle, Other}]"
    by (simp add: score_class_def score_for_def default_score_def)
  with replay_classes [OF assms(1), of address]
  have classes: "unat (rs_validation_reward_score (score_for scores address)) = reward_total {Validation} address events"
    "unat (rs_proposer_reward_score (score_for scores address)) = reward_total {Proposer} address events"
    "unat (rs_committee_reward_score (score_for scores address)) = reward_total {FinalCommittee} address events"
    by (simp_all add: score_class_def)
  have "reward_total {Validation, Proposer, FinalCommittee} address events = reward_total {Validation} address events
      + reward_total {Proposer} address events + reward_total {FinalCommittee} address events"
    using reward_total_Un [of "{Validation}" "{Proposer, FinalCommittee}" address events]
      reward_total_Un [of "{Proposer}" "{FinalCommittee}" address events] by (simp add: insert_commute)
  moreover have "unat score = unat (rs_validation_reward_score (score_for scores address))
      + unat (rs_proposer_reward_score (score_for scores address))
      + unat (rs_committee_reward_score (score_for scores address))"
    using assms(2) by (auto simp: eligible_score_def res_simps checked_simps bind_eq_Some_conv)
  ultimately show ?thesis using classes by simp
qed

definition sample_event :: "string \<Rightarrow> RewardKind \<Rightarrow> Score \<Rightarrow> RewardEvent" where
  "sample_event a k v = \<lparr>re_idena_address = a, re_kind = k, re_amount_atoms = v, re_source_height = 1,
     re_source_hash = ''00''\<rparr>"

definition sample_events :: "RewardEvent list" where
  "sample_events = [sample_event ''0xAB'' Validation 5, sample_event ''0xab'' Invitation 7,
     sample_event ''0xab'' Proposer 2, sample_event ''0xcd'' Validation 9]"

theorem replay_eligible_score_witness:
  "unat (7 :: Score) = reward_total {Validation, Proposer, FinalCommittee} ''0xaB'' sample_events"
proof (rule replay_eligible_score)
  let ?s = "snd (replay_rewards sample_events bt_empty)"
  have "fst (replay_rewards sample_events bt_empty) = Ok ()" by code_simp
  then show "replay_rewards sample_events bt_empty = (Ok (), ?s)" by (simp add: prod_eq_iff)
  show "eligible_score (score_for ?s ''0xaB'') = Ok 7" by code_simp
qed

end
