(* ===== verification/Snapshot.thy ===== *)
theory Snapshot
  imports Merkle Order
begin

text \<open>
  \<open>pohw-core/src/snapshot.rs\<close>: the daily identity snapshot, built from leaves sorted by address
  and verified against its score root.
\<close>

section \<open>Data\<close>

datatype IdenaStatus =
  Invite | Candidate | Newbie | Verified | Suspended | Zombie | Killed | Human | Undefined

fun status_is_block_eligible :: "IdenaStatus \<Rightarrow> bool" where
  "status_is_block_eligible Newbie = True"
| "status_is_block_eligible Verified = True"
| "status_is_block_eligible Human = True"
| "status_is_block_eligible _ = False"

fun status_name :: "IdenaStatus \<Rightarrow> string" where
  "status_name Invite = ''Invite''"
| "status_name Candidate = ''Candidate''"
| "status_name Newbie = ''Newbie''"
| "status_name Verified = ''Verified''"
| "status_name Suspended = ''Suspended''"
| "status_name Zombie = ''Zombie''"
| "status_name Killed = ''Killed''"
| "status_name Human = ''Human''"
| "status_name Undefined = ''Undefined''"

record SnapshotLeaf =
  sl_idena_address :: string
  sl_status :: IdenaStatus
  sl_pubkey :: string
  sl_validation_reward_score :: Score
  sl_proposer_reward_score :: Score
  sl_committee_reward_score :: Score
  sl_ignored_invitation_score :: Score
  sl_identity_root :: string
  sl_formula_version :: u16

datatype SnapshotError =
    ScoreOverflow string
  | FormulaVersionMismatch u16 u16
  | LeafFormulaVersionMismatch string u16 u16
  | DuplicateAddress string
  | IdentityRootMismatch string string string
  | ScoreRootMismatch string string
  | InvalidIdenaAddress string string
  | InvalidIdentityRoot

record Snapshot =
  sn_snapshot_day :: naive_date
  sn_idena_height :: u64
  sn_idena_block_hash :: string
  sn_identity_root :: string
  sn_score_root :: string
  sn_formula_version :: u16
  sn_leaves :: "SnapshotLeaf list"

definition json_SnapshotLeaf :: "SnapshotLeaf \<Rightarrow> json" where
  "json_SnapshotLeaf l = JObj [(''idena_address'', JStr (sl_idena_address l)),
     (''status'', JStr (status_name (sl_status l))),
     (''pubkey'', JStr (sl_pubkey l)),
     (''validation_reward_score'', JUInt (sl_validation_reward_score l)),
     (''proposer_reward_score'', JUInt (sl_proposer_reward_score l)),
     (''committee_reward_score'', JUInt (sl_committee_reward_score l)),
     (''ignored_invitation_score'', JUInt (sl_ignored_invitation_score l)),
     (''identity_root'', JStr (sl_identity_root l)),
     (''formula_version'', JUInt (sl_formula_version l))]"

section \<open>Operations\<close>

definition normalized_leaf :: "SnapshotLeaf \<Rightarrow> SnapshotLeaf" where
  "normalized_leaf l = l\<lparr>
     sl_idena_address := to_ascii_lowercase (sl_idena_address l),
     sl_pubkey := to_ascii_lowercase (sl_pubkey l),
     sl_identity_root := to_ascii_lowercase (sl_identity_root l)\<rparr>"

definition leaf_eligible_score :: "SnapshotLeaf \<Rightarrow> (SnapshotError, Score) res" where
  "leaf_eligible_score l = ok_or (ScoreOverflow (sl_idena_address l))
     (Option.bind (checked_add (sl_validation_reward_score l) (sl_proposer_reward_score l))
       (\<lambda>score. checked_add score (sl_committee_reward_score l)))"

definition leaf_is_block_eligible :: "SnapshotLeaf \<Rightarrow> bool" where
  "leaf_is_block_eligible l \<longleftrightarrow>
     sl_formula_version l = FORMULA_VERSION \<and> status_is_block_eligible (sl_status l)"

definition compare_leaves :: "SnapshotLeaf comparator" where
  "compare_leaves = asc sl_idena_address"

definition build_snapshot ::
  "extern \<Rightarrow> naive_date \<Rightarrow> u64 \<Rightarrow> string \<Rightarrow> string \<Rightarrow> u16 \<Rightarrow> SnapshotLeaf list \<Rightarrow> Snapshot" where
  "build_snapshot X snapshot_day idena_height idena_block_hash identity_root formula_version leaves0 =
     (let leaves = Sorting_Algorithms.sort compare_leaves (map normalized_leaf leaves0) in
      \<lparr>sn_snapshot_day = snapshot_day,
       sn_idena_height = idena_height,
       sn_idena_block_hash = to_ascii_lowercase idena_block_hash,
       sn_identity_root = to_ascii_lowercase identity_root,
       sn_score_root = merkle_root X (map json_SnapshotLeaf leaves),
       sn_formula_version = formula_version,
       sn_leaves = leaves\<rparr>)"

definition validate_idena_address :: "string \<Rightarrow> (SnapshotError, unit) res" where
  "validate_idena_address v = (case strip_prefix ''0x'' v of
     None \<Rightarrow> Err (InvalidIdenaAddress v ''address must start with 0x'')
   | Some hex_part \<Rightarrow>
       if length hex_part \<noteq> 40 \<or> \<not> list_all is_ascii_hexdigit hex_part
       then Err (InvalidIdenaAddress v ''address must contain 20 bytes encoded as 40 hex characters'')
       else Ok ())"

text \<open>The loop over the sorted leaves; \<open>prev\<close> is the address of the leaf before.\<close>

fun check_leaves ::
  "u16 \<Rightarrow> string \<Rightarrow> string option \<Rightarrow> SnapshotLeaf list \<Rightarrow> (SnapshotError, unit) res" where
  "check_leaves version expected_root prev [] = Ok ()"
| "check_leaves version expected_root prev (l # ls) =
     bindR (validate_idena_address (sl_idena_address l)) (\<lambda>_.
     if sl_formula_version l \<noteq> version
     then Err (LeafFormulaVersionMismatch (sl_idena_address l) version (sl_formula_version l))
     else if prev = Some (sl_idena_address l) then Err (DuplicateAddress (sl_idena_address l))
     else if sl_identity_root l \<noteq> expected_root
     then Err (IdentityRootMismatch (sl_idena_address l) expected_root (sl_identity_root l))
     else check_leaves version expected_root (Some (sl_idena_address l)) ls)"

definition verify_score_root :: "extern \<Rightarrow> Snapshot \<Rightarrow> (SnapshotError, unit) res" where
  "verify_score_root X s =
     (if sn_formula_version s \<noteq> FORMULA_VERSION
      then Err (FormulaVersionMismatch FORMULA_VERSION (sn_formula_version s))
      else let leaves = Sorting_Algorithms.sort compare_leaves (map normalized_leaf (sn_leaves s)) in
      bindR (check_leaves (sn_formula_version s) (to_ascii_lowercase (sn_identity_root s)) None leaves) (\<lambda>_.
      let expected = merkle_root X (map json_SnapshotLeaf leaves) in
      if sn_score_root s \<noteq> expected then Err (ScoreRootMismatch expected (sn_score_root s))
      else Ok ()))"

definition identity_proof_root_hex :: "Snapshot \<Rightarrow> (SnapshotError, string) res" where
  "identity_proof_root_hex s = (let normalized = to_ascii_lowercase (sn_identity_root s);
     v = (case strip_prefix ''0x'' normalized of None \<Rightarrow> normalized | Some t \<Rightarrow> t)
     in if length v \<noteq> 64 \<or> \<not> list_all is_ascii_hexdigit v then Err InvalidIdentityRoot else Ok v)"

section \<open>What verification accepts\<close>

definition address_valid :: "string \<Rightarrow> bool" where
  "address_valid a \<longleftrightarrow> (\<exists>h. a = ''0x'' @ h \<and> length h = 40 \<and> list_all is_ascii_hexdigit h)"

lemma validate_address_Ok_iff: "validate_idena_address a = Ok () \<longleftrightarrow> address_valid a"
proof (cases "\<exists>h. a = ''0x'' @ h")
  case True
  then show ?thesis by (auto simp: validate_idena_address_def address_valid_def split: if_splits)
next
  case False
  then have "strip_prefix ''0x'' a = None" unfolding strip_prefix_None_iff .
  with False show ?thesis by (auto simp: validate_idena_address_def address_valid_def)
qed

lemma normalized_leaf_idem [simp]: "normalized_leaf (normalized_leaf l) = normalized_leaf l"
  by (simp add: normalized_leaf_def)

definition sorted_leaves :: "SnapshotLeaf list \<Rightarrow> SnapshotLeaf list" where
  "sorted_leaves ls = Sorting_Algorithms.sort compare_leaves (map normalized_leaf ls)"

lemma sorted_leaves_idem [simp]: "sorted_leaves (sorted_leaves ls) = sorted_leaves ls"
proof -
  have "map normalized_leaf (sorted_leaves ls) = sorted_leaves ls"
    unfolding sorted_leaves_def by (rule map_sort_fixed) auto
  then show ?thesis by (simp add: sorted_leaves_def)
qed

lemma sorted_leaves_addresses: "sorted_wrt (\<le>) (map sl_idena_address (sorted_leaves ls))"
proof -
  have "Sorting_Algorithms.sorted compare_leaves (sorted_leaves ls)" by (simp add: sorted_leaves_def)
  then show ?thesis
    unfolding sorted_iff_wrt sorted_wrt_map
    by (rule sorted_wrt_mono_rel [rotated]) (auto simp: compare_leaves_def split: if_splits)
qed

lemma check_leaves_Ok_iff:
  "sorted_wrt (\<le>) (map sl_idena_address ls) \<Longrightarrow> \<forall>p. prev = Some p \<longrightarrow> (\<forall>l \<in> set ls. p \<le> sl_idena_address l) \<Longrightarrow>
   check_leaves v root prev ls = Ok () \<longleftrightarrow>
     distinct (map sl_idena_address ls) \<and> (\<forall>p. prev = Some p \<longrightarrow> p \<notin> sl_idena_address ` set ls) \<and>
     (\<forall>l \<in> set ls. address_valid (sl_idena_address l) \<and> sl_formula_version l = v \<and> sl_identity_root l = root)"
proof (induction ls arbitrary: prev)
  case Nil
  then show ?case by simp
next
  case (Cons l ls)
  then have IH: "check_leaves v root (Some (sl_idena_address l)) ls = Ok () \<longleftrightarrow>
     distinct (map sl_idena_address ls) \<and> sl_idena_address l \<notin> sl_idena_address ` set ls \<and>
     (\<forall>l \<in> set ls. address_valid (sl_idena_address l) \<and> sl_formula_version l = v \<and> sl_identity_root l = root)"
    by simp
  have prev: "(\<forall>p. prev = Some p \<longrightarrow> p \<notin> sl_idena_address ` set (l # ls)) \<longleftrightarrow> prev \<noteq> Some (sl_idena_address l)"
    if "sl_idena_address l \<notin> sl_idena_address ` set ls"
    using that Cons.prems by fastforce
  show ?case using IH prev by (auto simp: bindR_Ok_iff validate_address_Ok_iff)
qed

lemma verify_Ok_iff:
  "verify_score_root X s = Ok () \<longleftrightarrow> sn_formula_version s = FORMULA_VERSION \<and>
     sn_score_root s = merkle_root X (map json_SnapshotLeaf (sorted_leaves (sn_leaves s))) \<and>
     distinct (map (to_ascii_lowercase \<circ> sl_idena_address) (sn_leaves s)) \<and>
     (\<forall>l \<in> set (sn_leaves s). address_valid (to_ascii_lowercase (sl_idena_address l)) \<and>
       sl_formula_version l = FORMULA_VERSION \<and>
       to_ascii_lowercase (sl_identity_root l) = to_ascii_lowercase (sn_identity_root s))"
proof -
  let ?ls = "sorted_leaves (sn_leaves s)"
  have ids: "distinct (map sl_idena_address ?ls) \<longleftrightarrow>
      distinct (map (to_ascii_lowercase \<circ> sl_idena_address) (sn_leaves s))"
    by (simp add: sorted_leaves_def normalized_leaf_def comp_def)
  have chk: "check_leaves v root None ?ls = Ok () \<longleftrightarrow> distinct (map sl_idena_address ?ls) \<and>
     (\<forall>l \<in> set ?ls. address_valid (sl_idena_address l) \<and> sl_formula_version l = v \<and> sl_identity_root l = root)"
    for v root
    using check_leaves_Ok_iff [OF sorted_leaves_addresses, of None "sn_leaves s" v root] by simp
  have mem: "set ?ls = normalized_leaf ` set (sn_leaves s)" by (simp add: sorted_leaves_def)
  show ?thesis
    unfolding verify_score_root_def sorted_leaves_def [symmetric] Let_def
    by (auto simp: bindR_Ok_iff chk ids mem normalized_leaf_def)
qed

section \<open>Properties\<close>

text \<open>
  C34: Verification accepts exactly the well-formed snapshots. A built snapshot verifies if and
  only if the formula version is the current one, the addresses are distinct case-insensitively
  (so that no leaf is repeated), every address is \<open>0x\<close> and 40 hex digits, and every leaf has the
  formula version and the identity root of the snapshot.
\<close>

theorem built_snapshot_verifies_iff:
  "verify_score_root X (build_snapshot X day height block_hash identity_root version leaves) = Ok () \<longleftrightarrow>
     version = FORMULA_VERSION \<and>
     distinct (map (to_ascii_lowercase \<circ> sl_idena_address) leaves) \<and>
     list_all (\<lambda>l. address_valid (to_ascii_lowercase (sl_idena_address l)) \<and> sl_formula_version l = FORMULA_VERSION \<and>
       to_ascii_lowercase (sl_identity_root l) = to_ascii_lowercase identity_root) leaves"
proof -
  let ?s = "build_snapshot X day height block_hash identity_root version leaves"
  have s: "sn_leaves ?s = sorted_leaves leaves" "sn_formula_version ?s = version"
    "sn_identity_root ?s = to_ascii_lowercase identity_root"
    "sn_score_root ?s = merkle_root X (map json_SnapshotLeaf (sorted_leaves leaves))"
    by (simp_all add: build_snapshot_def sorted_leaves_def Let_def)
  have "distinct (map (to_ascii_lowercase \<circ> sl_idena_address) (sorted_leaves leaves)) \<longleftrightarrow>
      distinct (map (to_ascii_lowercase \<circ> sl_idena_address) leaves)"
    by (simp add: sorted_leaves_def normalized_leaf_def comp_def)
  then show ?thesis
    unfolding verify_Ok_iff s sorted_leaves_idem
    by (auto simp: sorted_leaves_def normalized_leaf_def list_all_iff)
qed

end
