(* ===== verification/Anchor.thy ===== *)
theory Anchor
  imports Extern Order
begin

text \<open>
  \<open>pohw-core/src/idena_anchor.rs\<close>: anchors into the Idena chain (block, miner registration,
  sharechain checkpoint), their one-line record format, the checkpoint quorum, and the policy
  that decides which anchors are final and fresh.
\<close>

section \<open>Constants, errors and field checks\<close>

definition IDENA_HASH_HEX_LEN :: nat where
  "IDENA_HASH_HEX_LEN = 66"

definition IDENA_ADDRESS_HEX_LEN :: nat where
  "IDENA_ADDRESS_HEX_LEN = 42"

definition ZERO_SHARE_PARENT_HASH :: string where
  "ZERO_SHARE_PARENT_HASH = replicate 64 CHR ''0''"

definition CHECKPOINT_QUORUM_NUMERATOR :: u32 where
  "CHECKPOINT_QUORUM_NUMERATOR = 2"

definition CHECKPOINT_QUORUM_DENOMINATOR :: u32 where
  "CHECKPOINT_QUORUM_DENOMINATOR = 3"

definition CHECKPOINT_MIN_INTERVAL_BLOCKS :: u64 where
  "CHECKPOINT_MIN_INTERVAL_BLOCKS = 6"

definition MAX_CHECKPOINT_MINERS :: nat where
  "MAX_CHECKPOINT_MINERS = 48"

datatype IdenaAnchorError =
    UnsupportedPolicyVersion u16
  | InvalidBlockHeight
  | InvalidRegistrationSequence
  | InvalidRegistrationBlock
  | InvalidRegistrationTimestamp
  | InvalidRegistryRecord
  | InvalidCheckpointRecord
  | InvalidCheckpointParent
  | InvalidCheckpointQuorum
  | InvalidCheckpointScore
  | InvalidActivationHeight
  | InvalidFinalityConfirmations
  | InvalidAnchorAgeWindow
  | ZeroRegistryContractAddress
  | InvalidRegistryEcosystemCid
  | InvalidMinimumRegistrationBurn
  | InvalidHandoffVersionBit u8
  | InvalidExperimentId
  | InvalidMinerId
  | InvalidIdenaAddress
  | InvalidHex string nat
  | ExperimentMismatch
  | RegistryContractMismatch
  | PolicyCommitmentMismatch
  | RegistrationBeforeActivation
  | CheckpointBeforeActivation
  | AnchorBeforeActivation
  | IdenaTipNotFinalized
  | AnchorNotFinalized u64 u64
  | StaleAnchor u64 u64

text \<open>The \<open>Display\<close> texts of the errors, which other components embed in theirs.\<close>

fun anchor_error_string :: "IdenaAnchorError \<Rightarrow> string" where
  "anchor_error_string (UnsupportedPolicyVersion v0) = ''unsupported Idena anchor policy version '' @ show_word v0"
| "anchor_error_string InvalidBlockHeight = ''invalid Idena block height''"
| "anchor_error_string InvalidRegistrationSequence = ''invalid miner registration sequence''"
| "anchor_error_string InvalidRegistrationBlock = ''invalid miner registration block''"
| "anchor_error_string InvalidRegistrationTimestamp = ''invalid miner registration timestamp''"
| "anchor_error_string InvalidRegistryRecord = ''invalid or noncanonical miner registry record''"
| "anchor_error_string InvalidCheckpointRecord = ''invalid or noncanonical sharechain checkpoint record''"
| "anchor_error_string InvalidCheckpointParent = ''checkpoint parent does not match its round''"
| "anchor_error_string InvalidCheckpointQuorum = ''checkpoint registered/supporting miner quorum is invalid''"
| "anchor_error_string InvalidCheckpointScore = ''checkpoint cumulative score must be a positive canonical u128 decimal''"
| "anchor_error_string InvalidActivationHeight = ''invalid Idena anchor activation height''"
| "anchor_error_string InvalidFinalityConfirmations = ''Idena anchor finality confirmations must be greater than zero''"
| "anchor_error_string InvalidAnchorAgeWindow = ''Idena anchor age window must cover the finality confirmation depth''"
| "anchor_error_string ZeroRegistryContractAddress = ''registry contract address must not be the zero address''"
| "anchor_error_string InvalidRegistryEcosystemCid = ''registry ecosystem CID must be canonical CIDv1 base32 with SHA2-256 multihash''"
| "anchor_error_string InvalidMinimumRegistrationBurn = ''minimum registration burn must be a positive canonical u128 decimal''"
| "anchor_error_string (InvalidHandoffVersionBit v0) = ''Bitcoin handoff version bit '' @ show_word v0 @ '' is outside the versionbits range 0-28''"
| "anchor_error_string InvalidExperimentId = ''invalid experiment id''"
| "anchor_error_string InvalidMinerId = ''invalid miner id''"
| "anchor_error_string InvalidIdenaAddress = ''invalid Idena address''"
| "anchor_error_string (InvalidHex field bytes) = ''invalid '' @ field @ '': expected '' @ dec bytes @ '' lowercase hexadecimal bytes''"
| "anchor_error_string ExperimentMismatch = ''miner registry experiment does not match the active policy''"
| "anchor_error_string RegistryContractMismatch = ''miner registry contract does not match the active policy''"
| "anchor_error_string PolicyCommitmentMismatch = ''Idena anchor policy commitment does not match the active policy''"
| "anchor_error_string RegistrationBeforeActivation = ''miner registration predates Idena anchor-policy activation''"
| "anchor_error_string CheckpointBeforeActivation = ''sharechain checkpoint predates Idena anchor-policy activation''"
| "anchor_error_string AnchorBeforeActivation = ''Idena block anchor predates policy activation''"
| "anchor_error_string IdenaTipNotFinalized = ''Idena tip does not have the configured finality depth''"
| "anchor_error_string (AnchorNotFinalized anchor_height finalized_height) = ''Idena block anchor '' @ show_word anchor_height @ '' is newer than finalized height '' @ show_word finalized_height"
| "anchor_error_string (StaleAnchor age maximum) = ''Idena block anchor is '' @ show_word age @ '' blocks old, above maximum '' @ show_word maximum"

definition validate_experiment_id :: "string \<Rightarrow> (IdenaAnchorError, unit) res" where
  "validate_experiment_id v =
     (if v = [] \<or> length v > 64 \<or> v \<noteq> to_ascii_lowercase v
       \<or> \<not> list_all (\<lambda>c. is_ascii_lowercase c \<or> is_ascii_digit c \<or> c \<in> set ''._:/-'') v
      then Err InvalidExperimentId else Ok ())"

definition validate_miner_id :: "string \<Rightarrow> (IdenaAnchorError, unit) res" where
  "validate_miner_id v =
     (if v = [] \<or> length v > 64
       \<or> \<not> list_all (\<lambda>c. is_ascii_alphanumeric c \<or> c \<in> {CHR ''-'', CHR ''_'', CHR ''.''}) v
      then Err InvalidMinerId else Ok ())"

definition validate_prefixed_hex :: "string \<Rightarrow> string \<Rightarrow> nat \<Rightarrow> (IdenaAnchorError, unit) res" where
  "validate_prefixed_hex field v bytes =
     (if length v \<noteq> bytes * 2 + 2 \<or> take 2 v \<noteq> ''0x''
       \<or> list_ex (\<lambda>c. \<not> is_ascii_hexdigit c) (drop 2 v) \<or> v \<noteq> to_ascii_lowercase v
      then Err (InvalidHex field bytes) else Ok ())"

definition validate_unprefixed_hex :: "string \<Rightarrow> string \<Rightarrow> nat \<Rightarrow> (IdenaAnchorError, unit) res" where
  "validate_unprefixed_hex field v bytes =
     (if length v \<noteq> bytes * 2 \<or> list_ex (\<lambda>c. \<not> is_ascii_hexdigit c) v \<or> v \<noteq> to_ascii_lowercase v
      then Err (InvalidHex field bytes) else Ok ())"

definition normalize_idena_hash :: "string \<Rightarrow> (IdenaAnchorError, string) res" where
  "normalize_idena_hash v =
     bindR (validate_prefixed_hex ''Idena block hash'' v 32) (\<lambda>_. Ok (to_ascii_lowercase v))"

definition normalize_idena_address :: "string \<Rightarrow> (IdenaAnchorError, string) res" where
  "normalize_idena_address v =
     (case validate_prefixed_hex ''Idena address'' v 20 of
        Ok _ \<Rightarrow> Ok (to_ascii_lowercase v) | Err _ \<Rightarrow> Err InvalidIdenaAddress | Panic \<Rightarrow> Panic)"

text \<open>\<open>str::trim_start_matches("0x")\<close> strips the prefix as often as it occurs.\<close>

function trim_start_0x :: "string \<Rightarrow> string" where
  "trim_start_0x s = (case strip_prefix ''0x'' s of None \<Rightarrow> s | Some t \<Rightarrow> trim_start_0x t)"
  by pat_completeness auto
termination
  by (relation "measure length") (auto simp: strip_prefix_Some_iff)

declare trim_start_0x.simps [simp del]

definition miner_registry_storage_key :: "string \<Rightarrow> u32 \<Rightarrow> (IdenaAnchorError, string) res" where
  "miner_registry_storage_key idena_address registration_sequence =
     (if registration_sequence = 0 then Err InvalidRegistrationSequence
      else bindR (normalize_idena_address idena_address) (\<lambda>address.
        Ok (''miner:'' @ trim_start_0x address @ '':'' @ show_word registration_sequence)))"

text \<open>The canonical decimal test shared by two checks of the source, and their errors.\<close>

definition noncanonical_digits :: "string \<Rightarrow> bool" where
  "noncanonical_digits v \<longleftrightarrow>
     v = [] \<or> (length v > 1 \<and> hd v = CHR ''0'') \<or> list_ex (\<lambda>c. \<not> is_ascii_digit c) v"

definition positive_u128 :: "string \<Rightarrow> bool" where
  "positive_u128 v \<longleftrightarrow> (case parse_word v :: u128 option of None \<Rightarrow> False | Some n \<Rightarrow> n > 0)"

definition validate_positive_canonical_u128 :: "string \<Rightarrow> (IdenaAnchorError, unit) res" where
  "validate_positive_canonical_u128 v =
     (if noncanonical_digits v \<or> \<not> positive_u128 v then Err InvalidMinimumRegistrationBurn else Ok ())"

definition validate_positive_checkpoint_score :: "string \<Rightarrow> (IdenaAnchorError, unit) res" where
  "validate_positive_checkpoint_score v =
     (if noncanonical_digits v \<or> \<not> positive_u128 v then Err InvalidCheckpointScore else Ok ())"

definition validate_canonical_cid_v1 :: "extern \<Rightarrow> string \<Rightarrow> (IdenaAnchorError, unit) res" where
  "validate_canonical_cid_v1 X v = (case parse_cid X v of
     None \<Rightarrow> Err InvalidRegistryEcosystemCid
   | Some c \<Rightarrow>
       if \<not> cid_is_v1 c \<or> cid_to_string c \<noteq> v \<or> cid_hash_code c \<noteq> 18 \<or> cid_digest_len c \<noteq> 32
       then Err InvalidRegistryEcosystemCid else Ok ())"

section \<open>Block anchors\<close>

record IdenaBlockAnchorV1 =
  ba_height :: u64
  ba_hash :: string

definition normalized_block_anchor :: "IdenaBlockAnchorV1 \<Rightarrow> IdenaBlockAnchorV1" where
  "normalized_block_anchor a = a\<lparr>ba_hash := to_ascii_lowercase (ba_hash a)\<rparr>"

definition validate_block_anchor :: "IdenaBlockAnchorV1 \<Rightarrow> (IdenaAnchorError, unit) res" where
  "validate_block_anchor a = (if ba_height a = 0 then Err InvalidBlockHeight
     else validate_prefixed_hex ''Idena block hash'' (ba_hash a) 32)"

section \<open>Miner registrations\<close>

record MinerRegistryAnchorV1 =
  mr_contract_address :: string
  mr_experiment_id :: string
  mr_registration_sequence :: u32
  mr_registration_block :: u64
  mr_registration_epoch :: u16
  mr_registration_timestamp :: int
  mr_registration_commitment :: string

definition normalized_registry_anchor :: "MinerRegistryAnchorV1 \<Rightarrow> MinerRegistryAnchorV1" where
  "normalized_registry_anchor a = a\<lparr>
     mr_contract_address := to_ascii_lowercase (mr_contract_address a),
     mr_experiment_id := to_ascii_lowercase (mr_experiment_id a),
     mr_registration_commitment := to_ascii_lowercase (mr_registration_commitment a)\<rparr>"

definition validate_registry :: "MinerRegistryAnchorV1 \<Rightarrow> (IdenaAnchorError, unit) res" where
  "validate_registry a =
     bindR (validate_prefixed_hex ''registry contract address'' (mr_contract_address a) 20) (\<lambda>_.
     bindR (validate_experiment_id (mr_experiment_id a)) (\<lambda>_.
     if mr_registration_sequence a = 0 then Err InvalidRegistrationSequence
     else if mr_registration_block a = 0 then Err InvalidRegistrationBlock
     else if mr_registration_timestamp a \<le> 0 then Err InvalidRegistrationTimestamp
     else validate_unprefixed_hex ''registration commitment'' (mr_registration_commitment a) 32))"

definition registry_storage_key :: "MinerRegistryAnchorV1 \<Rightarrow> string \<Rightarrow> (IdenaAnchorError, string) res" where
  "registry_storage_key a idena_address =
     miner_registry_storage_key idena_address (mr_registration_sequence a)"

definition registry_record_line :: "MinerRegistryAnchorV1 \<Rightarrow> string \<Rightarrow> (IdenaAnchorError, string) res" where
  "registry_record_line a miner_id =
     bindR (validate_miner_id miner_id) (\<lambda>_.
     bindR (validate_registry a) (\<lambda>_.
     Ok (join_with CHR ''|'' [''1'', to_ascii_lowercase miner_id,
       to_ascii_lowercase (mr_registration_commitment a),
       show_word (mr_registration_sequence a), show_word (mr_registration_block a),
       show_word (mr_registration_epoch a), show_int (mr_registration_timestamp a)])))"

definition registry_from_record_line ::
  "string \<Rightarrow> string \<Rightarrow> string \<Rightarrow> (IdenaAnchorError, string \<times> MinerRegistryAnchorV1) res" where
  "registry_from_record_line contract_address experiment_id record =
     (if length record > 512 \<or> list_ex is_ascii_control record then Err InvalidRegistryRecord
      else let fields = split_on CHR ''|'' record in
      if length fields \<noteq> 7 \<or> fields ! 0 \<noteq> ''1'' then Err InvalidRegistryRecord
      else let miner_id = fields ! 1 in
      bindR (validate_miner_id miner_id) (\<lambda>_.
      bindR (ok_or InvalidRegistryRecord (parse_word (fields ! 3))) (\<lambda>sequence.
      bindR (ok_or InvalidRegistryRecord (parse_word (fields ! 4))) (\<lambda>block.
      bindR (ok_or InvalidRegistryRecord (parse_word (fields ! 5))) (\<lambda>epoch.
      bindR (ok_or InvalidRegistryRecord (parse_i64 (fields ! 6))) (\<lambda>timestamp.
      let anchor = normalized_registry_anchor
        \<lparr>mr_contract_address = contract_address, mr_experiment_id = experiment_id,
         mr_registration_sequence = sequence, mr_registration_block = block,
         mr_registration_epoch = epoch, mr_registration_timestamp = timestamp,
         mr_registration_commitment = fields ! 2\<rparr>
      in bindR (validate_registry anchor) (\<lambda>_.
      bindR (registry_record_line anchor miner_id) (\<lambda>line.
      if line \<noteq> record then Err InvalidRegistryRecord else Ok (miner_id, anchor)))))))))"

section \<open>Sharechain checkpoints\<close>

record SharechainCheckpointAnchorV1 =
  cp_contract_address :: string
  cp_experiment_id :: string
  cp_round :: u32
  cp_share_tip_hash :: string
  cp_share_height :: u64
  cp_cumulative_score :: string
  cp_parent_checkpoint_tip :: string
  cp_finalization_block :: u64
  cp_finalization_block_hash :: string
  cp_finalization_epoch :: u16
  cp_finalization_timestamp :: int
  cp_support_count :: u32
  cp_registered_count :: u32
  cp_registered_miners :: "string list"
  cp_supporters :: "string list"

definition normalized_checkpoint :: "SharechainCheckpointAnchorV1 \<Rightarrow> SharechainCheckpointAnchorV1" where
  "normalized_checkpoint c = c\<lparr>
     cp_contract_address := to_ascii_lowercase (cp_contract_address c),
     cp_experiment_id := to_ascii_lowercase (cp_experiment_id c),
     cp_share_tip_hash := to_ascii_lowercase (cp_share_tip_hash c),
     cp_parent_checkpoint_tip := to_ascii_lowercase (cp_parent_checkpoint_tip c),
     cp_finalization_block_hash := to_ascii_lowercase (cp_finalization_block_hash c),
     cp_registered_miners := map to_ascii_lowercase (cp_registered_miners c),
     cp_supporters := map to_ascii_lowercase (cp_supporters c)\<rparr>"

definition checkpoint_quorum_threshold :: "u32 \<Rightarrow> (IdenaAnchorError, u32) res" where
  "checkpoint_quorum_threshold registered_count =
     (if registered_count = 0 \<or> unat registered_count > MAX_CHECKPOINT_MINERS
      then Err InvalidCheckpointQuorum
      else ok_or InvalidCheckpointQuorum
        (map_option (\<lambda>v. v div CHECKPOINT_QUORUM_DENOMINATOR)
          (Option.bind (checked_mul registered_count CHECKPOINT_QUORUM_NUMERATOR)
            (\<lambda>v. checked_add v (CHECKPOINT_QUORUM_DENOMINATOR - 1)))))"

text \<open>The loop of \<open>validate_checkpoint_miner_list\<close> with its two locals.\<close>

fun check_miners ::
  "string btset \<Rightarrow> string option \<Rightarrow> string list \<Rightarrow> (IdenaAnchorError, unit) res" where
  "check_miners seen previous [] = Ok ()"
| "check_miners seen previous (m # ms) =
     bindR (validate_miner_id m) (\<lambda>_.
     if m \<noteq> to_ascii_lowercase m
       \<or> (case previous of None \<Rightarrow> False | Some v \<Rightarrow> v \<ge> m)
       \<or> bt_contains seen m
     then Err InvalidCheckpointRecord
     else check_miners (bs_insert m seen) (Some m) ms)"

definition validate_checkpoint_miner_list :: "string list \<Rightarrow> (IdenaAnchorError, unit) res" where
  "validate_checkpoint_miner_list miners = check_miners bt_empty None miners"

text \<open>\<open>slice::binary_search(..).is_ok()\<close>, by halving the interval \<open>[lo, hi)\<close>.\<close>

function bisect :: "'a::linorder list \<Rightarrow> 'a \<Rightarrow> nat \<Rightarrow> nat \<Rightarrow> bool" where
  "bisect xs x lo hi = (if hi \<le> lo then False
     else let mid = (lo + hi) div 2 in
       if xs ! mid = x then True
       else if xs ! mid < x then bisect xs x (mid + 1) hi
       else bisect xs x lo mid)"
  by pat_completeness auto
termination
  by (relation "measure (\<lambda>(xs, x, lo, hi). hi - lo)") auto

declare bisect.simps [simp del]

definition binary_search :: "'a::linorder list \<Rightarrow> 'a \<Rightarrow> bool" where
  "binary_search xs x = bisect xs x 0 (length xs)"

definition validate_checkpoint :: "SharechainCheckpointAnchorV1 \<Rightarrow> (IdenaAnchorError, unit) res" where
  "validate_checkpoint c =
     bindR (validate_prefixed_hex ''registry contract address'' (cp_contract_address c) 20) (\<lambda>_.
     bindR (validate_experiment_id (cp_experiment_id c)) (\<lambda>_.
     if cp_round c = 0 \<or> cp_share_height c = 0 \<or> cp_finalization_block c = 0
     then Err InvalidCheckpointRecord
     else if cp_finalization_timestamp c \<le> 0 then Err InvalidCheckpointRecord
     else bindR (validate_unprefixed_hex ''checkpoint share tip'' (cp_share_tip_hash c) 32) (\<lambda>_.
     if cp_share_tip_hash c = ZERO_SHARE_PARENT_HASH then Err InvalidCheckpointRecord
     else bindR (validate_unprefixed_hex ''checkpoint parent share tip'' (cp_parent_checkpoint_tip c) 32) (\<lambda>_.
     if (cp_round c = 1) \<noteq> (cp_parent_checkpoint_tip c = ZERO_SHARE_PARENT_HASH)
     then Err InvalidCheckpointParent
     else bindR (validate_prefixed_hex ''checkpoint finalization block hash'' (cp_finalization_block_hash c) 32) (\<lambda>_.
     bindR (validate_positive_checkpoint_score (cp_cumulative_score c)) (\<lambda>_.
     bindR (validate_checkpoint_miner_list (cp_registered_miners c)) (\<lambda>_.
     bindR (validate_checkpoint_miner_list (cp_supporters c)) (\<lambda>_.
     if cp_registered_miners c = [] \<or> length (cp_registered_miners c) > MAX_CHECKPOINT_MINERS
       \<or> unat (cp_support_count c) \<noteq> length (cp_supporters c)
       \<or> unat (cp_registered_count c) \<noteq> length (cp_registered_miners c)
       \<or> \<not> list_all (binary_search (cp_registered_miners c)) (cp_supporters c)
     then Err InvalidCheckpointQuorum
     else bindR (checkpoint_quorum_threshold (cp_registered_count c)) (\<lambda>threshold.
     if cp_support_count c < threshold then Err InvalidCheckpointQuorum else Ok ())))))))))"

definition checkpoint_record_line :: "SharechainCheckpointAnchorV1 \<Rightarrow> (IdenaAnchorError, string) res" where
  "checkpoint_record_line c =
     bindR (validate_checkpoint c) (\<lambda>_.
     Ok (join_with CHR ''|'' [''1'', show_word (cp_round c), cp_share_tip_hash c,
       show_word (cp_share_height c), cp_cumulative_score c, cp_parent_checkpoint_tip c,
       show_word (cp_finalization_block c), show_word (cp_finalization_epoch c),
       show_int (cp_finalization_timestamp c), show_word (cp_support_count c),
       show_word (cp_registered_count c), join_with CHR '','' (cp_registered_miners c),
       join_with CHR '','' (cp_supporters c)]))"

definition parse_checkpoint_field :: "(string \<Rightarrow> 'a option) \<Rightarrow> string \<Rightarrow> (IdenaAnchorError, 'a) res" where
  "parse_checkpoint_field parse v =
     (if noncanonical_digits v then Err InvalidCheckpointRecord
      else ok_or InvalidCheckpointRecord (parse v))"

definition parse_checkpoint_miner_list :: "string \<Rightarrow> (IdenaAnchorError, string list) res" where
  "parse_checkpoint_miner_list v =
     (if v = [] then Ok []
      else let miners = split_on CHR '','' v in
        bindR (validate_checkpoint_miner_list miners) (\<lambda>_. Ok miners))"

definition checkpoint_from_record_line ::
  "string \<Rightarrow> string \<Rightarrow> string \<Rightarrow> string \<Rightarrow> (IdenaAnchorError, SharechainCheckpointAnchorV1) res" where
  "checkpoint_from_record_line contract_address experiment_id finalization_block_hash record =
     (if length record > 4096 \<or> list_ex is_ascii_control record then Err InvalidCheckpointRecord
      else let fields = split_on CHR ''|'' record in
      if length fields \<noteq> 13 \<or> fields ! 0 \<noteq> ''1'' then Err InvalidCheckpointRecord
      else
      bindR (parse_checkpoint_field parse_word (fields ! 1)) (\<lambda>round.
      bindR (parse_checkpoint_field parse_word (fields ! 3)) (\<lambda>share_height.
      bindR (parse_checkpoint_field parse_word (fields ! 6)) (\<lambda>finalization_block.
      bindR (parse_checkpoint_field parse_word (fields ! 7)) (\<lambda>finalization_epoch.
      bindR (parse_checkpoint_field parse_i64 (fields ! 8)) (\<lambda>finalization_timestamp.
      bindR (parse_checkpoint_field parse_word (fields ! 9)) (\<lambda>support_count.
      bindR (parse_checkpoint_field parse_word (fields ! 10)) (\<lambda>registered_count.
      bindR (parse_checkpoint_miner_list (fields ! 11)) (\<lambda>registered_miners.
      bindR (parse_checkpoint_miner_list (fields ! 12)) (\<lambda>supporters.
      let checkpoint = normalized_checkpoint
        \<lparr>cp_contract_address = contract_address, cp_experiment_id = experiment_id,
         cp_round = round, cp_share_tip_hash = fields ! 2, cp_share_height = share_height,
         cp_cumulative_score = fields ! 4, cp_parent_checkpoint_tip = fields ! 5,
         cp_finalization_block = finalization_block,
         cp_finalization_block_hash = finalization_block_hash,
         cp_finalization_epoch = finalization_epoch,
         cp_finalization_timestamp = finalization_timestamp,
         cp_support_count = support_count, cp_registered_count = registered_count,
         cp_registered_miners = registered_miners, cp_supporters = supporters\<rparr>
      in bindR (validate_checkpoint checkpoint) (\<lambda>_.
      bindR (checkpoint_record_line checkpoint) (\<lambda>line.
      if line \<noteq> record then Err InvalidCheckpointRecord else Ok checkpoint))))))))))))"

definition checkpoint_storage_key :: "SharechainCheckpointAnchorV1 \<Rightarrow> string" where
  "checkpoint_storage_key c = ''checkpoint:final:'' @ show_word (cp_round c)"

definition finalization_anchor :: "SharechainCheckpointAnchorV1 \<Rightarrow> IdenaBlockAnchorV1" where
  "finalization_anchor c = \<lparr>ba_height = cp_finalization_block c, ba_hash = cp_finalization_block_hash c\<rparr>"

section \<open>The anchor policy\<close>

record IdenaAnchorPolicyV2 =
  ap_schema_version :: u16
  ap_experiment_id :: string
  ap_registry_contract_address :: string
  ap_registry_deployment_tx_hash :: string
  ap_registry_deployment_payload_sha256 :: string
  ap_registry_contract_code_hash :: string
  ap_registry_contract_wasm_sha256 :: string
  ap_registry_ecosystem_cid :: string
  ap_minimum_registration_burn_atoms :: string
  ap_activation_idena_height :: u64
  ap_finality_confirmations :: u64
  ap_max_anchor_age_blocks :: u64
  ap_handoff_version_bit :: u8

definition json_IdenaAnchorPolicyV2 :: "IdenaAnchorPolicyV2 \<Rightarrow> json" where
  "json_IdenaAnchorPolicyV2 p = JObj [(''schema_version'', JUInt (ap_schema_version p)),
     (''experiment_id'', JStr (ap_experiment_id p)),
     (''registry_contract_address'', JStr (ap_registry_contract_address p)),
     (''registry_deployment_tx_hash'', JStr (ap_registry_deployment_tx_hash p)),
     (''registry_deployment_payload_sha256'', JStr (ap_registry_deployment_payload_sha256 p)),
     (''registry_contract_code_hash'', JStr (ap_registry_contract_code_hash p)),
     (''registry_contract_wasm_sha256'', JStr (ap_registry_contract_wasm_sha256 p)),
     (''registry_ecosystem_cid'', JStr (ap_registry_ecosystem_cid p)),
     (''minimum_registration_burn_atoms'', JStr (ap_minimum_registration_burn_atoms p)),
     (''activation_idena_height'', JUInt (ap_activation_idena_height p)),
     (''finality_confirmations'', JUInt (ap_finality_confirmations p)),
     (''max_anchor_age_blocks'', JUInt (ap_max_anchor_age_blocks p)),
     (''handoff_version_bit'', JUInt (ap_handoff_version_bit p))]"

definition normalized_policy :: "IdenaAnchorPolicyV2 \<Rightarrow> IdenaAnchorPolicyV2" where
  "normalized_policy p = p\<lparr>
     ap_experiment_id := to_ascii_lowercase (ap_experiment_id p),
     ap_registry_contract_address := to_ascii_lowercase (ap_registry_contract_address p),
     ap_registry_deployment_tx_hash := to_ascii_lowercase (ap_registry_deployment_tx_hash p),
     ap_registry_deployment_payload_sha256 := to_ascii_lowercase (ap_registry_deployment_payload_sha256 p),
     ap_registry_contract_code_hash := to_ascii_lowercase (ap_registry_contract_code_hash p),
     ap_registry_contract_wasm_sha256 := to_ascii_lowercase (ap_registry_contract_wasm_sha256 p)\<rparr>"

definition validate_policy :: "extern \<Rightarrow> IdenaAnchorPolicyV2 \<Rightarrow> (IdenaAnchorError, unit) res" where
  "validate_policy X p =
     (if ap_schema_version p \<noteq> 2 then Err (UnsupportedPolicyVersion (ap_schema_version p)) else
     bindR (validate_experiment_id (ap_experiment_id p)) (\<lambda>_.
     bindR (validate_prefixed_hex ''registry contract address'' (ap_registry_contract_address p) 20) (\<lambda>_.
     if list_all (\<lambda>c. c = CHR ''0'') (drop 2 (ap_registry_contract_address p))
     then Err ZeroRegistryContractAddress else
     bindR (validate_prefixed_hex ''registry deployment transaction hash''
       (ap_registry_deployment_tx_hash p) 32) (\<lambda>_.
     bindR (validate_unprefixed_hex ''registry deployment payload SHA-256''
       (ap_registry_deployment_payload_sha256 p) 32) (\<lambda>_.
     bindR (validate_unprefixed_hex ''registry contract WASM SHA-256''
       (ap_registry_contract_wasm_sha256 p) 32) (\<lambda>_.
     bindR (validate_unprefixed_hex ''registry contract code hash''
       (ap_registry_contract_code_hash p) 32) (\<lambda>_.
     bindR (validate_canonical_cid_v1 X (ap_registry_ecosystem_cid p)) (\<lambda>_.
     bindR (validate_positive_canonical_u128 (ap_minimum_registration_burn_atoms p)) (\<lambda>_.
     if ap_activation_idena_height p = 0 then Err InvalidActivationHeight
     else if ap_finality_confirmations p = 0 then Err InvalidFinalityConfirmations
     else if ap_max_anchor_age_blocks p < ap_finality_confirmations p then Err InvalidAnchorAgeWindow
     else if ap_handoff_version_bit p > 28 then Err (InvalidHandoffVersionBit (ap_handoff_version_bit p))
     else Ok ())))))))))"

definition policy_commitment_hash :: "extern \<Rightarrow> IdenaAnchorPolicyV2 \<Rightarrow> (IdenaAnchorError, string) res" where
  "policy_commitment_hash X self = (let policy = normalized_policy self in
     bindR (validate_policy X policy) (\<lambda>_.
     Ok (hash_hex X (sha256_tagged X (as_bytes ''POHW_IDENA_ANCHOR_POLICY_V2'')
       (canonical_json X (json_IdenaAnchorPolicyV2 policy))))))"

definition validate_registry_anchor ::
  "extern \<Rightarrow> IdenaAnchorPolicyV2 \<Rightarrow> MinerRegistryAnchorV1 \<Rightarrow> (IdenaAnchorError, unit) res" where
  "validate_registry_anchor X p a =
     bindR (validate_policy X p) (\<lambda>_.
     bindR (validate_registry a) (\<lambda>_.
     if \<not> eq_ignore_ascii_case (mr_experiment_id a) (ap_experiment_id p) then Err ExperimentMismatch
     else if \<not> eq_ignore_ascii_case (mr_contract_address a) (ap_registry_contract_address p)
     then Err RegistryContractMismatch
     else if mr_registration_block a < ap_activation_idena_height p then Err RegistrationBeforeActivation
     else Ok ()))"

definition validate_checkpoint_anchor ::
  "extern \<Rightarrow> IdenaAnchorPolicyV2 \<Rightarrow> SharechainCheckpointAnchorV1 \<Rightarrow> (IdenaAnchorError, unit) res" where
  "validate_checkpoint_anchor X p c =
     bindR (validate_policy X p) (\<lambda>_.
     bindR (validate_checkpoint c) (\<lambda>_.
     if \<not> eq_ignore_ascii_case (cp_experiment_id c) (ap_experiment_id p) then Err ExperimentMismatch
     else if \<not> eq_ignore_ascii_case (cp_contract_address c) (ap_registry_contract_address p)
     then Err RegistryContractMismatch
     else if cp_finalization_block c < ap_activation_idena_height p then Err CheckpointBeforeActivation
     else Ok ()))"

definition validate_finalized_block_anchor ::
  "extern \<Rightarrow> IdenaAnchorPolicyV2 \<Rightarrow> IdenaBlockAnchorV1 \<Rightarrow> u64 \<Rightarrow> (IdenaAnchorError, u64) res" where
  "validate_finalized_block_anchor X p a current_idena_height =
     bindR (validate_policy X p) (\<lambda>_.
     bindR (validate_block_anchor a) (\<lambda>_.
     bindR (ok_or IdenaTipNotFinalized (checked_sub current_idena_height (ap_finality_confirmations p))) (\<lambda>finalized_height.
     if ba_height a > finalized_height then Err (AnchorNotFinalized (ba_height a) finalized_height)
     else if ba_height a < ap_activation_idena_height p then Err AnchorBeforeActivation
     else Ok finalized_height)))"

definition validate_live_block_anchor ::
  "extern \<Rightarrow> IdenaAnchorPolicyV2 \<Rightarrow> IdenaBlockAnchorV1 \<Rightarrow> u64 \<Rightarrow> (IdenaAnchorError, u64) res" where
  "validate_live_block_anchor X p a current_idena_height =
     bindR (validate_finalized_block_anchor X p a current_idena_height) (\<lambda>finalized_height.
     let age = finalized_height - ba_height a in
     if age > ap_max_anchor_age_blocks p then Err (StaleAnchor age (ap_max_anchor_age_blocks p))
     else Ok finalized_height)"

text \<open>A valid policy keeps the shift below 29, so that it neither panics nor wraps.\<close>

definition bootstrap_limits_active :: "IdenaAnchorPolicyV2 \<Rightarrow> u32 \<Rightarrow> bool" where
  "bootstrap_limits_active p bitcoin_header_version \<longleftrightarrow>
     and bitcoin_header_version (push_bit (unat (ap_handoff_version_bit p)) 1) = 0"

section \<open>Characterisations\<close>

lemma validate_miner_id_Ok_iff:
  "validate_miner_id v = Ok () \<longleftrightarrow> v \<noteq> [] \<and> length v \<le> 64 \<and>
     list_all (\<lambda>c. is_ascii_alphanumeric c \<or> c \<in> {CHR ''-'', CHR ''_'', CHR ''.''}) v"
  by (auto simp: validate_miner_id_def not_less)

lemma validate_prefixed_hex_Ok_iff:
  "validate_prefixed_hex f v n = Ok () \<longleftrightarrow> length v = n * 2 + 2 \<and> take 2 v = ''0x'' \<and>
     list_all is_ascii_hexdigit (drop 2 v) \<and> to_ascii_lowercase v = v"
  by (auto simp: validate_prefixed_hex_def list_all_iff list_ex_iff)

lemma validate_unprefixed_hex_Ok_iff:
  "validate_unprefixed_hex f v n = Ok () \<longleftrightarrow> length v = n * 2 \<and> list_all is_ascii_hexdigit v \<and>
     to_ascii_lowercase v = v"
  by (auto simp: validate_unprefixed_hex_def list_all_iff list_ex_iff)

lemma validate_experiment_id_lower: "validate_experiment_id v = Ok () \<Longrightarrow> to_ascii_lowercase v = v"
  by (auto simp: validate_experiment_id_def split: if_splits)

lemma validate_registry_Ok_iff:
  "validate_registry a = Ok () \<longleftrightarrow>
     validate_prefixed_hex ''registry contract address'' (mr_contract_address a) 20 = Ok () \<and>
     validate_experiment_id (mr_experiment_id a) = Ok () \<and>
     mr_registration_sequence a \<noteq> 0 \<and> mr_registration_block a \<noteq> 0 \<and> 0 < mr_registration_timestamp a \<and>
     validate_unprefixed_hex ''registration commitment'' (mr_registration_commitment a) 32 = Ok ()"
  by (auto simp: validate_registry_def res_simps split: if_splits)

text \<open>The list of miners is accepted when it is strictly increasing, so duplicates cannot occur.\<close>

lemma check_miners_Ok_iff:
  "\<forall>k. bt_get seen k \<noteq> None \<longrightarrow> (\<exists>p. previous = Some p \<and> k \<le> p) \<Longrightarrow>
   check_miners seen previous ms = Ok () \<longleftrightarrow> sorted_wrt (<) ms \<and>
     (\<forall>p. previous = Some p \<longrightarrow> (\<forall>m \<in> set ms. p < m)) \<and>
     (\<forall>m \<in> set ms. validate_miner_id m = Ok () \<and> to_ascii_lowercase m = m)"
proof (induction ms arbitrary: seen previous)
  case Nil
  then show ?case by simp
next
  case (Cons m ms)
  have ord: "(case previous of None \<Rightarrow> False | Some v \<Rightarrow> v \<ge> m) \<longleftrightarrow> \<not> (\<forall>p. previous = Some p \<longrightarrow> p < m)"
    by (auto split: option.splits)
  have fresh: "bt_get seen m = None" if "\<forall>p. previous = Some p \<longrightarrow> p < m"
    using Cons.prems that by (metis leD option.distinct(1))
  have IH: "check_miners (bs_insert m seen) (Some m) ms = Ok () \<longleftrightarrow> sorted_wrt (<) ms \<and>
     (\<forall>k \<in> set ms. m < k) \<and> (\<forall>m \<in> set ms. validate_miner_id m = Ok () \<and> to_ascii_lowercase m = m)"
    if "\<forall>p. previous = Some p \<longrightarrow> p < m"
  proof -
    have "\<forall>k. bt_get (bs_insert m seen) k \<noteq> None \<longrightarrow> (\<exists>p. Some m = Some p \<and> k \<le> p)"
      using Cons.prems that by (auto split: if_splits intro: order_trans less_imp_le)
    from Cons.IH [OF this] show ?thesis by simp
  qed
  show ?case
  proof (cases "\<forall>p. previous = Some p \<longrightarrow> p < m")
    case True
    then have "\<forall>k \<in> set ms. m < k \<Longrightarrow> \<forall>p. previous = Some p \<longrightarrow> (\<forall>m \<in> set ms. p < m)"
      using less_trans by fastforce
    with IH [OF True] fresh [OF True] True show ?thesis
      unfolding check_miners.simps ord by (auto simp: bindR_Ok_iff)
  next
    case False
    then show ?thesis unfolding check_miners.simps ord by (auto simp: bindR_Ok_iff)
  qed
qed

lemma validate_miner_list_Ok_iff:
  "validate_checkpoint_miner_list ms = Ok () \<longleftrightarrow> sorted_wrt (<) ms \<and>
     (\<forall>m \<in> set ms. validate_miner_id m = Ok () \<and> to_ascii_lowercase m = m)"
  unfolding validate_checkpoint_miner_list_def by (subst check_miners_Ok_iff) auto

lemma bisect_iff:
  "sorted_wrt (<) xs \<Longrightarrow> hi \<le> length xs \<Longrightarrow> bisect xs x lo hi \<longleftrightarrow> (\<exists>i. lo \<le> i \<and> i < hi \<and> xs ! i = x)"
proof (induction xs x lo hi rule: bisect.induct)
  case (1 xs x lo hi)
  show ?case
  proof (cases "hi \<le> lo")
    case True
    then show ?thesis by (subst bisect.simps) auto
  next
    case False
    define mid where "mid = (lo + hi) div 2"
    from False have mid: "lo \<le> mid" "mid < hi" by (auto simp: mid_def)
    have mono: "xs ! i < xs ! j" if "i < j" "j < hi" for i j
      using that 1(3,4) by (auto simp: sorted_wrt_iff_nth_less)
    consider "xs ! mid = x" | "xs ! mid < x" | "x < xs ! mid" using linorder_less_linear by blast
    then show ?thesis
    proof cases
      assume "xs ! mid = x"
      with False mid show ?thesis by (subst bisect.simps) (auto simp: Let_def mid_def [symmetric])
    next
      assume lt: "xs ! mid < x"
      have "i \<ge> mid + 1" if "i < hi" "xs ! i = x" for i
        using mono [of i mid] that lt mid by (metis Suc_eq_plus1 Suc_leI less_asym' linorder_neqE_nat)
      moreover have "bisect xs x lo hi = bisect xs x (mid + 1) hi"
        using lt False by (subst bisect.simps) (auto simp: Let_def mid_def)
      moreover have "bisect xs x (mid + 1) hi \<longleftrightarrow> (\<exists>i. mid + 1 \<le> i \<and> i < hi \<and> xs ! i = x)"
        using lt by (intro 1(1) [OF False mid_def] 1(3,4)) auto
      ultimately show ?thesis using mid by (metis add_leD1 order_trans)
    next
      assume gt: "x < xs ! mid"
      have "i < mid" if "i < hi" "xs ! i = x" for i
        using mono [of mid i] that gt mid by (metis less_asym' linorder_neqE_nat)
      moreover have "bisect xs x lo hi = bisect xs x lo mid"
        using gt False by (subst bisect.simps) (auto simp: Let_def mid_def)
      moreover have "bisect xs x lo mid \<longleftrightarrow> (\<exists>i. lo \<le> i \<and> i < mid \<and> xs ! i = x)"
        using gt mid 1(4) by (intro 1(2) [OF False mid_def] 1(3)) auto
      ultimately show ?thesis using mid by (metis order_less_trans)
    qed
  qed
qed

lemma binary_search_iff: "sorted_wrt (<) xs \<Longrightarrow> binary_search xs x \<longleftrightarrow> x \<in> set xs"
  by (simp add: binary_search_def bisect_iff in_set_conv_nth)

lemma quorum_threshold_Ok_iff:
  "checkpoint_quorum_threshold n = Ok t \<longleftrightarrow> n \<noteq> 0 \<and> unat n \<le> 48 \<and> unat t = (2 * unat n + 2) div 3"
proof (cases "n \<noteq> 0 \<and> unat n \<le> 48")
  case True
  then have "unat n * 2 < 2 ^ 32" by simp
  then have mul: "unat (n * 2) = unat n * 2" by (simp add: unat_mul_exact)
  have add: "unat (n * 2 + 2) = unat n * 2 + 2" using True mul by (simp add: unat_add_exact)
  have "checked_mul n 2 = Some (n * 2)" and "checked_add (n * 2) 2 = Some (n * 2 + 2)"
    using mul add by (simp_all add: checked_simps)
  then have "checkpoint_quorum_threshold n = Ok ((n * 2 + 2) div 3)"
    using True
    by (simp add: checkpoint_quorum_threshold_def CHECKPOINT_QUORUM_NUMERATOR_def
        CHECKPOINT_QUORUM_DENOMINATOR_def MAX_CHECKPOINT_MINERS_def)
  moreover have "unat ((n * 2 + 2) div 3) = (2 * unat n + 2) div 3"
    by (simp add: unat_div_distrib add mult.commute)
  ultimately show ?thesis using True by (metis res.inject(1) unat_eq_word)
next
  case False
  then show ?thesis by (auto simp: checkpoint_quorum_threshold_def MAX_CHECKPOINT_MINERS_def)
qed

lemma validate_checkpoint_Ok_iff:
  "validate_checkpoint c = Ok () \<longleftrightarrow>
     validate_prefixed_hex ''registry contract address'' (cp_contract_address c) 20 = Ok () \<and>
     validate_experiment_id (cp_experiment_id c) = Ok () \<and>
     cp_round c \<noteq> 0 \<and> cp_share_height c \<noteq> 0 \<and> cp_finalization_block c \<noteq> 0 \<and> 0 < cp_finalization_timestamp c \<and>
     validate_unprefixed_hex ''checkpoint share tip'' (cp_share_tip_hash c) 32 = Ok () \<and>
     cp_share_tip_hash c \<noteq> ZERO_SHARE_PARENT_HASH \<and>
     validate_unprefixed_hex ''checkpoint parent share tip'' (cp_parent_checkpoint_tip c) 32 = Ok () \<and>
     (cp_round c = 1 \<longleftrightarrow> cp_parent_checkpoint_tip c = ZERO_SHARE_PARENT_HASH) \<and>
     validate_prefixed_hex ''checkpoint finalization block hash'' (cp_finalization_block_hash c) 32 = Ok () \<and>
     validate_positive_checkpoint_score (cp_cumulative_score c) = Ok () \<and>
     validate_checkpoint_miner_list (cp_registered_miners c) = Ok () \<and>
     validate_checkpoint_miner_list (cp_supporters c) = Ok () \<and>
     cp_registered_miners c \<noteq> [] \<and> length (cp_registered_miners c) \<le> 48 \<and>
     unat (cp_support_count c) = length (cp_supporters c) \<and>
     unat (cp_registered_count c) = length (cp_registered_miners c) \<and>
     set (cp_supporters c) \<subseteq> set (cp_registered_miners c) \<and>
     2 * length (cp_registered_miners c) \<le> 3 * length (cp_supporters c)"
  (is "_ \<longleftrightarrow> ?a \<and> ?b \<and> ?c \<and> ?d \<and> ?e \<and> ?f \<and> ?g \<and> ?h \<and> ?i \<and> ?j \<and> ?k \<and> ?l \<and> ?m \<and> ?n \<and> ?quorum")
proof -
  have q: "(\<not> (cp_registered_miners c = [] \<or> length (cp_registered_miners c) > MAX_CHECKPOINT_MINERS
       \<or> unat (cp_support_count c) \<noteq> length (cp_supporters c)
       \<or> unat (cp_registered_count c) \<noteq> length (cp_registered_miners c)
       \<or> \<not> list_all (binary_search (cp_registered_miners c)) (cp_supporters c)) \<and>
     (\<exists>t. checkpoint_quorum_threshold (cp_registered_count c) = Ok t \<and> t \<le> cp_support_count c)) \<longleftrightarrow> ?quorum"
    if m: ?m
  proof -
    have srt: "sorted_wrt (<) (cp_registered_miners c)" using m by (simp add: validate_miner_list_Ok_iff)
    have sub: "list_all (binary_search (cp_registered_miners c)) (cp_supporters c) \<longleftrightarrow>
        set (cp_supporters c) \<subseteq> set (cp_registered_miners c)"
      using binary_search_iff [OF srt] by (auto simp: list_all_iff)
    have "(\<exists>t. checkpoint_quorum_threshold (cp_registered_count c) = Ok t \<and> t \<le> cp_support_count c) \<longleftrightarrow>
        2 * length (cp_registered_miners c) \<le> 3 * length (cp_supporters c)"
      if *: "cp_registered_miners c \<noteq> []" "length (cp_registered_miners c) \<le> 48"
        "unat (cp_support_count c) = length (cp_supporters c)"
        "unat (cp_registered_count c) = length (cp_registered_miners c)"
    proof -
      let ?t = "of_nat ((2 * length (cp_registered_miners c) + 2) div 3) :: u32"
      have t: "unat ?t = (2 * length (cp_registered_miners c) + 2) div 3"
        using *(2) by (intro unat_of_nat_exact) simp
      have "cp_registered_count c \<noteq> 0" using *(1,4) by (metis length_0_conv unat_zero_iff)
      then have "checkpoint_quorum_threshold (cp_registered_count c) = Ok u \<longleftrightarrow> u = ?t" for u
        using *(2,4) t by (auto simp: quorum_threshold_Ok_iff word_unat_eq_iff)
      then have "(\<exists>u. checkpoint_quorum_threshold (cp_registered_count c) = Ok u \<and> u \<le> cp_support_count c) \<longleftrightarrow>
          (2 * length (cp_registered_miners c) + 2) div 3 \<le> length (cp_supporters c)"
        unfolding word_le_nat_alt by (simp only: *(3) t simp_thms)
      also have "\<dots> \<longleftrightarrow> 2 * length (cp_registered_miners c) \<le> 3 * length (cp_supporters c)" by linarith
      finally show ?thesis .
    qed
    then show ?thesis unfolding sub MAX_CHECKPOINT_MINERS_def by auto
  qed
  have "validate_checkpoint c = Ok () \<longleftrightarrow> ?a \<and> ?b \<and> ?c \<and> ?d \<and> ?e \<and> ?f \<and> ?g \<and> ?h \<and> ?i \<and> ?j \<and> ?k \<and> ?l \<and> ?m \<and> ?n \<and>
     (\<not> (cp_registered_miners c = [] \<or> length (cp_registered_miners c) > MAX_CHECKPOINT_MINERS
       \<or> unat (cp_support_count c) \<noteq> length (cp_supporters c)
       \<or> unat (cp_registered_count c) \<noteq> length (cp_registered_miners c)
       \<or> \<not> list_all (binary_search (cp_registered_miners c)) (cp_supporters c)) \<and>
     (\<exists>t. checkpoint_quorum_threshold (cp_registered_count c) = Ok t \<and> t \<le> cp_support_count c))"
    unfolding validate_checkpoint_def bindR_Ok_iff by (auto split: if_splits simp: not_less bindR_Ok_iff)
  with q show ?thesis by blast
qed

section \<open>The record format\<close>

text \<open>The bytes a field of a record may hold.\<close>

definition plain :: "string \<Rightarrow> bool" where
  "plain f \<longleftrightarrow> list_all (\<lambda>c. \<not> is_ascii_control c \<and> c \<noteq> CHR ''|'') f"

lemma plain_digits: "list_all is_ascii_digit f \<Longrightarrow> plain f"
  unfolding plain_def by (erule list.pred_mono_strong) (auto simp: class_defs code_def)

lemma plain_show_word [simp]: "plain (show_word w)"
  by (rule plain_digits) (rule show_word_digits)

lemma plain_show_int: "0 \<le> i \<Longrightarrow> plain (show_int i)"
  by (simp add: show_int_def plain_digits dec_digits)

lemma plain_hex: "list_all is_ascii_hexdigit f \<Longrightarrow> plain f"
  unfolding plain_def by (erule list.pred_mono_strong) (auto simp: class_defs code_def)

lemma plain_append [simp]: "plain (f @ g) \<longleftrightarrow> plain f \<and> plain g"
  by (simp add: plain_def)

lemma miner_id_plain: "validate_miner_id m = Ok () \<Longrightarrow> plain m \<and> CHR '','' \<notin> set m"
  unfolding validate_miner_id_Ok_iff plain_def list_all_iff
  by (auto simp: class_defs code_def)

lemma miner_id_lowercase [simp]: "validate_miner_id (to_ascii_lowercase m) = validate_miner_id m"
proof -
  have "(\<lambda>c. is_ascii_alphanumeric (ascii_lower c) \<or> ascii_lower c \<in> {CHR ''-'', CHR ''_'', CHR ''.''}) =
      (\<lambda>c. is_ascii_alphanumeric c \<or> c \<in> {CHR ''-'', CHR ''_'', CHR ''.''})"
    by (simp add: fun_eq_iff ascii_lower_eq_punct is_ascii_lowercase_def is_ascii_uppercase_def code_def)
  then show ?thesis
    unfolding validate_miner_id_def to_ascii_lowercase_def by (simp add: list.pred_map comp_def)
qed

lemma separators_printable: "\<not> is_ascii_control CHR ''|''" "\<not> is_ascii_control CHR '',''"
  by (simp_all add: is_ascii_control_def code_def)

text \<open>A line of plain fields splits into them and has no control bytes.\<close>

lemma plain_line:
  assumes "fs \<noteq> []" and "list_all plain fs"
  shows "split_on CHR ''|'' (join_with CHR ''|'' fs) = fs"
    and "list_ex is_ascii_control (join_with CHR ''|'' fs) = False"
proof -
  show "split_on CHR ''|'' (join_with CHR ''|'' fs) = fs"
    using assms by (intro split_join) (auto simp: list_all_iff plain_def)
  have "\<not> is_ascii_control c" if "c \<in> set (join_with CHR ''|'' fs)" for c
    using assms(2) that set_join_with [of "CHR ''|''" fs] separators_printable
    unfolding list_all_iff plain_def by blast
  then show "list_ex is_ascii_control (join_with CHR ''|'' fs) = False"
    by (auto simp: list_ex_iff)
qed

lemma plain_join: "list_all plain fs \<Longrightarrow> plain (join_with CHR '','' fs)"
  using set_join_with [of "CHR '',''" fs] separators_printable
  unfolding list_all_iff plain_def by fastforce

lemma length_show_u16: "length (show_word (w :: u16)) \<le> 5"
  using unat_bound [of w] by (simp add: show_word_def length_dec)

lemma length_show_u32: "length (show_word (w :: u32)) \<le> 10"
  using unat_bound [of w] by (simp add: show_word_def length_dec)

lemma length_show_u64: "length (show_word (w :: u64)) \<le> 20"
  using unat_bound [of w] by (simp add: show_word_def length_dec)

lemma length_show_int: "0 \<le> i \<Longrightarrow> i < 2 ^ 63 \<Longrightarrow> length (show_int i) \<le> 19"
  by (simp add: show_int_def length_dec nat_less_iff)

lemma registry_normal: "validate_registry a = Ok () \<Longrightarrow> normalized_registry_anchor a = a"
  by (cases a) (auto simp: validate_registry_Ok_iff validate_prefixed_hex_Ok_iff
      validate_unprefixed_hex_Ok_iff validate_experiment_id_lower normalized_registry_anchor_def)

text \<open>
  C37: The registry record line round-trips. Every line that \<open>canonical_record_line\<close> prints for an
  anchor (whose timestamp is an \<open>i64\<close>) is parsed back, under the anchor's contract and experiment,
  to the same anchor and the lower-cased miner id; the length limit of the parser never rejects it.
\<close>

theorem registry_record_roundtrip:
  assumes line: "registry_record_line a miner_id = Ok line"
    and ts: "mr_registration_timestamp a < 2 ^ 63"
  shows "registry_from_record_line (mr_contract_address a) (mr_experiment_id a) line =
    Ok (to_ascii_lowercase miner_id, a)"
proof -
  let ?id = "to_ascii_lowercase miner_id"
  let ?fs = "[''1'', ?id, mr_registration_commitment a, show_word (mr_registration_sequence a),
    show_word (mr_registration_block a), show_word (mr_registration_epoch a),
    show_int (mr_registration_timestamp a)]"
  from line have id: "validate_miner_id ?id = Ok ()" and v: "validate_registry a = Ok ()"
    and l0: "line = join_with CHR ''|'' (?fs[2 := to_ascii_lowercase (mr_registration_commitment a)])"
    by (auto simp: registry_record_line_def res_simps)
  from v have hex: "list_all is_ascii_hexdigit (mr_registration_commitment a)"
    and len: "length (mr_registration_commitment a) = 64"
    and lower: "to_ascii_lowercase (mr_registration_commitment a) = mr_registration_commitment a"
    and pos: "0 < mr_registration_timestamp a"
    by (auto simp: validate_registry_Ok_iff validate_unprefixed_hex_Ok_iff)
  have l: "line = join_with CHR ''|'' ?fs" using l0 lower by simp
  have "list_all plain ?fs"
    using id hex pos by (simp add: miner_id_plain plain_hex plain_show_int)
      (simp add: plain_def class_defs code_def)
  from plain_line [OF _ this] have split: "split_on CHR ''|'' line = ?fs"
    and ctl: "list_ex is_ascii_control line = False" by (simp_all add: l)
  have "length ?id \<le> 64" using id by (simp add: validate_miner_id_Ok_iff)
  then have short: "\<not> 512 < length line"
    using len length_show_u32 [of "mr_registration_sequence a"] length_show_u64 [of "mr_registration_block a"]
      length_show_u16 [of "mr_registration_epoch a"] length_show_int [of "mr_registration_timestamp a"] pos ts
    by (simp add: l)
  have again: "registry_record_line a ?id = Ok line"
    using id v by (simp add: registry_record_line_def l lower)
  have int: "parse_i64 (show_int (mr_registration_timestamp a)) = Some (mr_registration_timestamp a)"
    using pos ts by (intro parse_show_int) auto
  have norm: "normalized_registry_anchor
    \<lparr>mr_contract_address = mr_contract_address a, mr_experiment_id = mr_experiment_id a,
     mr_registration_sequence = mr_registration_sequence a, mr_registration_block = mr_registration_block a,
     mr_registration_epoch = mr_registration_epoch a, mr_registration_timestamp = mr_registration_timestamp a,
     mr_registration_commitment = mr_registration_commitment a\<rparr> = a"
    using registry_normal [OF v] by (cases a) simp
  from id v again short ctl int show ?thesis
    unfolding registry_from_record_line_def split by (simp add: Let_def norm)
qed

lemma canonical_not_noncanonical: "canonical_digits v \<Longrightarrow> \<not> noncanonical_digits v"
  by (auto simp: canonical_digits_def noncanonical_digits_def list_ex_iff list_all_iff)

lemma parse_field_show_word [simp]: "parse_checkpoint_field parse_word (show_word w) = Ok w"
  using canonical_not_noncanonical [of "show_word w"] by (simp add: parse_checkpoint_field_def show_word_def)
    (simp add: show_word_def [symmetric])

lemma parse_field_show_int:
  "0 \<le> i \<Longrightarrow> i < 2 ^ 63 \<Longrightarrow> parse_checkpoint_field parse_i64 (show_int i) = Ok i"
  using canonical_not_noncanonical [of "show_int i"] parse_show_int [of i]
  by (simp add: parse_checkpoint_field_def) (simp add: show_int_def)

lemma parse_miner_list_join:
  assumes "validate_checkpoint_miner_list ms = Ok ()"
  shows "parse_checkpoint_miner_list (join_with CHR '','' ms) = Ok ms"
proof (cases "ms = []")
  case True
  then show ?thesis by (simp add: parse_checkpoint_miner_list_def)
next
  case False
  have ids: "\<forall>m \<in> set ms. validate_miner_id m = Ok ()" using assms by (simp add: validate_miner_list_Ok_iff)
  then have ne: "join_with CHR '','' ms \<noteq> []"
    using False by (subst join_with_Nil_iff) (auto simp: validate_miner_id_Ok_iff)
  have "split_on CHR '','' (join_with CHR '','' ms) = ms"
    using False ids miner_id_plain by (intro split_join) auto
  with ne assms show ?thesis by (simp add: parse_checkpoint_miner_list_def Let_def)
qed

lemma miner_list_plain:
  "validate_checkpoint_miner_list ms = Ok () \<Longrightarrow> plain (join_with CHR '','' ms)"
  using miner_id_plain by (intro plain_join) (auto simp: validate_miner_list_Ok_iff list_all_iff)

lemma miner_list_lower:
  "validate_checkpoint_miner_list ms = Ok () \<Longrightarrow> map to_ascii_lowercase ms = ms"
  by (rule map_idI) (auto simp: validate_miner_list_Ok_iff)

lemma score_plain: "validate_positive_checkpoint_score s = Ok () \<Longrightarrow> plain s"
  by (rule plain_digits)
    (auto simp: validate_positive_checkpoint_score_def noncanonical_digits_def list_ex_iff list_all_iff split: if_splits)

lemma checkpoint_normal: "validate_checkpoint c = Ok () \<Longrightarrow> normalized_checkpoint c = c"
  by (cases c) (simp add: validate_checkpoint_Ok_iff validate_prefixed_hex_Ok_iff
      validate_unprefixed_hex_Ok_iff validate_experiment_id_lower normalized_checkpoint_def miner_list_lower)

text \<open>
  C38: The checkpoint record line round-trips up to the length limit. The line that
  \<open>canonical_record_line\<close> prints for a valid checkpoint (whose timestamp is an \<open>i64\<close>) is parsed back
  to the same checkpoint when it is at most 4096 bytes long, and is rejected when it is longer.
\<close>

theorem checkpoint_record_roundtrip:
  assumes line: "checkpoint_record_line c = Ok line"
    and ts: "cp_finalization_timestamp c < 2 ^ 63"
  shows "checkpoint_from_record_line (cp_contract_address c) (cp_experiment_id c) (cp_finalization_block_hash c) line =
    (if length line \<le> 4096 then Ok c else Err InvalidCheckpointRecord)"
proof -
  let ?fs = "[''1'', show_word (cp_round c), cp_share_tip_hash c,
       show_word (cp_share_height c), cp_cumulative_score c, cp_parent_checkpoint_tip c,
       show_word (cp_finalization_block c), show_word (cp_finalization_epoch c),
       show_int (cp_finalization_timestamp c), show_word (cp_support_count c),
       show_word (cp_registered_count c), join_with CHR '','' (cp_registered_miners c),
       join_with CHR '','' (cp_supporters c)]"
  from line have v: "validate_checkpoint c = Ok ()" and l: "line = join_with CHR ''|'' ?fs"
    by (auto simp: checkpoint_record_line_def res_simps)
  from v have pos: "0 < cp_finalization_timestamp c"
    and lists: "validate_checkpoint_miner_list (cp_registered_miners c) = Ok ()"
      "validate_checkpoint_miner_list (cp_supporters c) = Ok ()"
    by (simp_all only: validate_checkpoint_Ok_iff)
  have "plain (cp_share_tip_hash c)" "plain (cp_parent_checkpoint_tip c)" "plain (cp_cumulative_score c)"
    using v by (simp_all add: validate_checkpoint_Ok_iff validate_unprefixed_hex_Ok_iff plain_hex score_plain)
  moreover have "plain ''1''" by (simp add: plain_def class_defs code_def)
  ultimately have "list_all plain ?fs"
    using pos lists by (simp add: plain_show_int miner_list_plain)
  from plain_line [OF _ this] have split: "split_on CHR ''|'' line = ?fs"
    and ctl: "list_ex is_ascii_control line = False" by (simp_all only: l list.distinct simp_thms)
  have norm: "normalized_checkpoint
    \<lparr>cp_contract_address = cp_contract_address c, cp_experiment_id = cp_experiment_id c,
     cp_round = cp_round c, cp_share_tip_hash = cp_share_tip_hash c, cp_share_height = cp_share_height c,
     cp_cumulative_score = cp_cumulative_score c, cp_parent_checkpoint_tip = cp_parent_checkpoint_tip c,
     cp_finalization_block = cp_finalization_block c, cp_finalization_block_hash = cp_finalization_block_hash c,
     cp_finalization_epoch = cp_finalization_epoch c, cp_finalization_timestamp = cp_finalization_timestamp c,
     cp_support_count = cp_support_count c, cp_registered_count = cp_registered_count c,
     cp_registered_miners = cp_registered_miners c, cp_supporters = cp_supporters c\<rparr> = c"
    using checkpoint_normal [OF v] by (cases c) simp
  have int: "parse_checkpoint_field parse_i64 (show_int (cp_finalization_timestamp c)) = Ok (cp_finalization_timestamp c)"
    using pos ts by (intro parse_field_show_int) auto
  from v line ctl int lists show ?thesis
    unfolding checkpoint_from_record_line_def split
    by (simp add: Let_def norm parse_miner_list_join not_less)
qed

text \<open>A valid checkpoint whose 38 registered miners and 26 supporters have ids of 64 bytes.\<close>

definition wide_miner :: "nat \<Rightarrow> string" where
  "wide_miner n = char_of (97 + n div 26) # char_of (97 + n mod 26) # replicate 62 CHR ''z''"

definition wide_checkpoint :: SharechainCheckpointAnchorV1 where
  "wide_checkpoint = \<lparr>cp_contract_address = ''0x'' @ replicate 40 CHR ''1'', cp_experiment_id = ''exp'',
     cp_round = 1, cp_share_tip_hash = replicate 64 CHR ''a'', cp_share_height = 1,
     cp_cumulative_score = ''1'', cp_parent_checkpoint_tip = ZERO_SHARE_PARENT_HASH,
     cp_finalization_block = 1, cp_finalization_block_hash = ''0x'' @ replicate 64 CHR ''b'',
     cp_finalization_epoch = 1, cp_finalization_timestamp = 1, cp_support_count = 26,
     cp_registered_count = 38, cp_registered_miners = map wide_miner [0..<38],
     cp_supporters = map wide_miner [0..<26]\<rparr>"

lemma wide_miner_less:
  assumes "i < j" and "j < 676"
  shows "wide_miner i < wide_miner j"
proof -
  have b: "97 + i div 26 < 256" "97 + j div 26 < 256" "97 + i mod 26 < 256" "97 + j mod 26 < 256"
    using assms by (auto simp: less_mult_imp_div_less intro: order_less_le_trans [OF mod_less_divisor])
  have lt: "char_of m < (char_of n :: char) \<longleftrightarrow> m < n" if "m < 256" "n < 256" for m n :: nat
    using that by (simp add: less_char_def)
  have "i div 26 < j div 26 \<or> i div 26 = j div 26 \<and> i mod 26 < j mod 26"
    using assms(1) div_le_mono [of i j 26]
    by (metis add_less_cancel_left div_mult_mod_eq le_neq_implies_less less_imp_le)
  then show ?thesis
    using b by (auto simp: wide_miner_def lt)
qed

lemma wide_miner_valid:
  assumes "i < 676"
  shows "validate_miner_id (wide_miner i) = Ok ()" and "to_ascii_lowercase (wide_miner i) = wide_miner i"
proof -
  have low: "is_ascii_lowercase (char_of (97 + k))" if "k < 26" for k :: nat
    using that by (simp add: is_ascii_lowercase_def)
  have z: "is_ascii_lowercase CHR ''z''" by (simp add: is_ascii_lowercase_def code_def)
  have all: "list_all is_ascii_lowercase (wide_miner i)"
    using assms z low [of "i div 26"] low [of "i mod 26"]
    by (simp add: wide_miner_def less_mult_imp_div_less list_all_iff)
  then show "validate_miner_id (wide_miner i) = Ok ()"
    by (auto simp: validate_miner_id_Ok_iff is_ascii_alphanumeric_def list_all_iff)
      (simp_all add: wide_miner_def)
  have "ascii_lower c = c" if "is_ascii_lowercase c" for c
    using that by (intro ascii_lower_fix) (auto simp: class_defs)
  with all show "to_ascii_lowercase (wide_miner i) = wide_miner i"
    unfolding to_ascii_lowercase_def by (intro map_idI) (auto simp: list_all_iff)
qed

lemma wide_list_valid: "n \<le> 676 \<Longrightarrow> validate_checkpoint_miner_list (map wide_miner [0..<n]) = Ok ()"
  by (auto simp: validate_miner_list_Ok_iff sorted_wrt_map wide_miner_valid
      intro!: sorted_wrt_mono_rel [OF _ sorted_wrt_upt] wide_miner_less)

lemma wide_valid: "validate_checkpoint wide_checkpoint = Ok ()"
proof -
  have "validate_prefixed_hex f (''0x'' @ replicate 40 CHR ''1'') 20 = Ok ()"
    "validate_prefixed_hex f (''0x'' @ replicate 64 CHR ''b'') 32 = Ok ()"
    "validate_unprefixed_hex f (replicate 64 CHR ''a'') 32 = Ok ()"
    "validate_unprefixed_hex f ZERO_SHARE_PARENT_HASH 32 = Ok ()"
    "validate_experiment_id ''exp'' = Ok ()"
    "validate_positive_checkpoint_score ''1'' = Ok ()" for f
    by code_simp+
  moreover have "replicate 64 CHR ''a'' \<noteq> ZERO_SHARE_PARENT_HASH"
    by (simp add: ZERO_SHARE_PARENT_HASH_def)
  moreover have "set (map wide_miner [0..<26]) \<subseteq> set (map wide_miner [0..<38])" by auto
  moreover have "unat (26 :: u32) = 26" "unat (38 :: u32) = 38" by simp_all
  ultimately show ?thesis
    unfolding validate_checkpoint_Ok_iff wide_checkpoint_def
    by (simp add: wide_list_valid del: upt_rec_numeral)
qed

lemma length_join_with:
  "fs \<noteq> [] \<Longrightarrow> length (join_with d fs) + 1 = sum_list (map length fs) + length fs"
  by (induction d fs rule: join_with.induct) auto

lemma wide_length: "length (join_with d (map wide_miner [0..<Suc n])) = 65 * Suc n - 1"
proof -
  have "map length (map wide_miner [0..<Suc n]) = replicate (Suc n) 64"
    by (rule replicate_eqI) (auto simp: wide_miner_def)
  then show ?thesis
    using length_join_with [of "map wide_miner [0..<Suc n]" d] by (simp add: sum_list_replicate)
qed

text \<open>
  Some valid checkpoints have no readable record. There is a checkpoint that validates and
  prints a canonical line of more than 4096 bytes, which the parser of the same line rejects: the
  limits of 48 miners and 64 bytes per id do not fit the limit on the line.
\<close>

theorem valid_checkpoint_unreadable:
  "\<exists>c line. checkpoint_record_line c = Ok line \<and> length line > 4096 \<and>
     checkpoint_from_record_line (cp_contract_address c) (cp_experiment_id c)
       (cp_finalization_block_hash c) line = Err InvalidCheckpointRecord"
proof -
  obtain line where line: "checkpoint_record_line wide_checkpoint = Ok line"
    by (simp add: checkpoint_record_line_def wide_valid)
  have n: "(38 :: nat) = Suc 37" "(26 :: nat) = Suc 25" by simp_all
  have "length (join_with d (map wide_miner [0..<38])) = 2469"
    "length (join_with d (map wide_miner [0..<26])) = 1689" for d
    by (simp_all only: n wide_length) simp_all
  then have "length line > 4096"
    using line [unfolded checkpoint_record_line_def wide_valid]
    by (auto simp: wide_checkpoint_def simp del: upt_rec_numeral)
  then show ?thesis using line
    by (auto simp: checkpoint_from_record_line_def intro!: exI [of _ wide_checkpoint] exI [of _ line])
qed

section \<open>Quorums\<close>

text \<open>
  A certificate names the voters and the supporters among them. Supporters of at least two thirds
  of the voters make any two certificates of one electorate overlap in a third of it.
\<close>

locale two_thirds_quorum =
  fixes valid :: "'c \<Rightarrow> bool" and voters :: "'c \<Rightarrow> 'm set" and support :: "'c \<Rightarrow> 'm set"
  assumes voters_finite: "valid c \<Longrightarrow> finite (voters c)"
    and voters_some: "valid c \<Longrightarrow> voters c \<noteq> {}"
    and support_voters: "valid c \<Longrightarrow> support c \<subseteq> voters c"
    and two_thirds: "valid c \<Longrightarrow> 2 * card (voters c) \<le> 3 * card (support c)"
begin

lemma overlap:
  assumes "valid c" and "valid d" and "voters c = voters d"
  shows "card (voters c) \<le> 3 * card (support c \<inter> support d)"
proof -
  have fin: "finite (support c)" "finite (support d)"
    using assms voters_finite support_voters by (meson finite_subset)+
  have "card (support c) + card (support d) = card (support c \<union> support d) + card (support c \<inter> support d)"
    using fin by (rule card_Un_Int)
  moreover have "card (support c \<union> support d) \<le> card (voters c)"
    using assms support_voters voters_finite by (intro card_mono) auto
  ultimately show ?thesis using two_thirds [OF assms(1)] two_thirds [OF assms(2)] unfolding assms(3) by linarith
qed

text \<open>With fewer than a third of the voters faulty, a correct voter supports both.\<close>

lemma correct_common_supporter:
  assumes "valid c" and "valid d" and "voters c = voters d" and "3 * card F < card (voters c)"
    and "finite F"
  shows "\<exists>v \<in> support c \<inter> support d. v \<notin> F"
proof (rule ccontr)
  assume "\<not> ?thesis"
  then have "support c \<inter> support d \<subseteq> F" by blast
  then have "card (support c \<inter> support d) \<le> card F" using assms(5) by (rule card_mono [rotated])
  with overlap [OF assms(1-3)] assms(4) show False by linarith
qed

end

definition is_valid_checkpoint :: "SharechainCheckpointAnchorV1 \<Rightarrow> bool" where
  "is_valid_checkpoint c \<longleftrightarrow> validate_checkpoint c = Ok ()"

interpretation checkpoint_quorum:
  two_thirds_quorum is_valid_checkpoint "\<lambda>c. set (cp_registered_miners c)" "\<lambda>c. set (cp_supporters c)"
proof unfold_locales
  fix c assume "is_valid_checkpoint c"
  then have c: "validate_checkpoint c = Ok ()" by (simp add: is_valid_checkpoint_def)
  show "finite (set (cp_registered_miners c))" by simp
  show "set (cp_registered_miners c) \<noteq> {}" using c by (simp add: validate_checkpoint_Ok_iff)
  show "set (cp_supporters c) \<subseteq> set (cp_registered_miners c)" using c by (simp only: validate_checkpoint_Ok_iff)
  have "distinct ms" if "validate_checkpoint_miner_list ms = Ok ()" for ms
    using that by (simp add: validate_miner_list_Ok_iff strict_sorted_iff)
  then have "distinct (cp_registered_miners c)" "distinct (cp_supporters c)"
    using c by (simp_all only: validate_checkpoint_Ok_iff)
  then show "2 * card (set (cp_registered_miners c)) \<le> 3 * card (set (cp_supporters c))"
    using c by (simp add: distinct_card) (simp only: validate_checkpoint_Ok_iff)
qed

text \<open>
  C35: Checkpoint quorums intersect. If two valid checkpoints list the same registered miners and
  fewer than a third of these are in a set \<open>F\<close> of faulty miners, then some miner outside \<open>F\<close>
  supports both; so checkpoints that conflict need a correct miner to support both.
\<close>

theorem checkpoint_quorums_intersect:
  assumes "validate_checkpoint c = Ok ()" and "validate_checkpoint d = Ok ()"
    and "cp_registered_miners c = cp_registered_miners d"
    and "finite F" and "3 * card F < length (cp_registered_miners c)"
  shows "\<exists>v. v \<in> set (cp_supporters c) \<and> v \<in> set (cp_supporters d) \<and> v \<notin> F"
proof -
  have "distinct (cp_registered_miners c)"
    using assms(1) by (simp add: validate_checkpoint_Ok_iff validate_miner_list_Ok_iff strict_sorted_iff)
  then have "3 * card F < card (set (cp_registered_miners c))" using assms(5) by (simp add: distinct_card)
  with checkpoint_quorum.correct_common_supporter [of c d F] assms show ?thesis
    by (auto simp: is_valid_checkpoint_def)
qed

theorem checkpoint_quorums_intersect_witness:
  "\<exists>v. v \<in> set (cp_supporters wide_checkpoint) \<and> v \<in> set (cp_supporters wide_checkpoint) \<and> v \<notin> {''bob''}"
  by (rule checkpoint_quorums_intersect) (auto simp: wide_valid, simp add: wide_checkpoint_def)

section \<open>Finality and freshness\<close>

lemma finalized_anchor_iff:
  "validate_finalized_block_anchor X p a tip = Ok h \<longleftrightarrow>
     validate_policy X p = Ok () \<and> validate_block_anchor a = Ok () \<and>
     unat tip = unat (ap_finality_confirmations p) + unat h \<and>
     unat (ap_activation_idena_height p) \<le> unat (ba_height a) \<and> unat (ba_height a) \<le> unat h"
  unfolding validate_finalized_block_anchor_def
  by (auto simp: res_simps checked_simps word_less_nat_alt)

text \<open>
  C36: What a live anchor is. A valid policy accepts a valid anchor exactly when the anchor's height
  lies between the activation height and the finalized height, \<open>finality_confirmations\<close> below the
  tip, and is at most \<open>max_anchor_age_blocks\<close> older than the finalized height; the result is the
  finalized height. None of the subtractions wraps.
\<close>

theorem live_anchor_iff:
  "validate_live_block_anchor X p a tip = Ok h \<longleftrightarrow>
     validate_policy X p = Ok () \<and> validate_block_anchor a = Ok () \<and>
     unat tip = unat (ap_finality_confirmations p) + unat h \<and>
     unat (ap_activation_idena_height p) \<le> unat (ba_height a) \<and> unat (ba_height a) \<le> unat h \<and>
     unat h \<le> unat (ba_height a) + unat (ap_max_anchor_age_blocks p)"
proof -
  have "validate_live_block_anchor X p a tip = Ok h \<longleftrightarrow>
      validate_finalized_block_anchor X p a tip = Ok h \<and> unat (h - ba_height a) \<le> unat (ap_max_anchor_age_blocks p)"
    unfolding validate_live_block_anchor_def Let_def
    by (auto simp: res_simps word_less_nat_alt)
  moreover have "unat (h - ba_height a) = unat h - unat (ba_height a)" if "unat (ba_height a) \<le> unat h"
    using that by (simp add: unat_sub_exact word_le_nat_alt)
  ultimately show ?thesis by (auto simp: finalized_anchor_iff)
qed

interpretation policy_digest: canonical_digest normalized_policy json_IdenaAnchorPolicyV2
  by unfold_locales (simp add: normalized_policy_def)

lemma policy_commitment_normalized: "policy_commitment_hash X (normalized_policy p) = policy_commitment_hash X p"
  using policy_digest.digest_norm [of X "''POHW_IDENA_ANCHOR_POLICY_V2''" p]
    policy_digest.norm_idem [of p]
  by (simp add: policy_digest.digest_def policy_commitment_hash_def Let_def)

definition sample_registry :: MinerRegistryAnchorV1 where
  "sample_registry = \<lparr>mr_contract_address = ''0x'' @ replicate 40 CHR ''1'', mr_experiment_id = ''exp'',
     mr_registration_sequence = 7, mr_registration_block = 12, mr_registration_epoch = 3,
     mr_registration_timestamp = 15, mr_registration_commitment = replicate 64 CHR ''c''\<rparr>"

theorem registry_record_roundtrip_witness:
  "registry_from_record_line (mr_contract_address sample_registry) (mr_experiment_id sample_registry)
     (''1|miner-a|'' @ replicate 64 CHR ''c'' @ ''|7|12|3|15'') =
   Ok (to_ascii_lowercase ''Miner-A'', sample_registry)"
  by (rule registry_record_roundtrip) (code_simp, simp add: sample_registry_def)

definition sample_checkpoint :: SharechainCheckpointAnchorV1 where
  "sample_checkpoint = wide_checkpoint\<lparr>cp_support_count := 2, cp_registered_count := 2,
     cp_registered_miners := [''a'', ''b''], cp_supporters := [''a'', ''b'']\<rparr>"

definition sample_line :: string where
  "sample_line = ''1|1|'' @ replicate 64 CHR ''a'' @ ''|1|1|'' @ ZERO_SHARE_PARENT_HASH @ ''|1|1|1|2|2|a,b|a,b''"

lemma sample_checkpoint_line: "checkpoint_record_line sample_checkpoint = Ok sample_line"
  by code_simp

theorem checkpoint_record_roundtrip_witness:
  "checkpoint_from_record_line (cp_contract_address sample_checkpoint) (cp_experiment_id sample_checkpoint)
     (cp_finalization_block_hash sample_checkpoint) sample_line = Ok sample_checkpoint"
proof -
  have "length sample_line \<le> 4096" by (simp add: sample_line_def ZERO_SHARE_PARENT_HASH_def)
  with checkpoint_record_roundtrip [OF sample_checkpoint_line] show ?thesis
    by (simp add: sample_checkpoint_def wide_checkpoint_def)
qed

end
