(* ===== verification/Commitment.thy ===== *)
theory Commitment
  imports Snapshot
begin

text \<open>
  \<open>pohw-core/src/commitment.rs\<close>: the commitment a block carries in an \<open>OP_RETURN\<close> output, its
  digest and script, and its validation against the snapshot leaf, the sharechain and the vault. The
  script identifies the context a commitment was accepted in, up to a collision of the digest.
\<close>

definition MAX_COMMITMENT_SNAPSHOT_ID_BYTES :: nat where
  "MAX_COMMITMENT_SNAPSHOT_ID_BYTES = 64"

definition HASH_HEX_BYTES :: nat where
  "HASH_HEX_BYTES = 64"

definition IDENA_ADDRESS_BYTES :: nat where
  "IDENA_ADDRESS_BYTES = 42"

record PohwCommitment =
  pc_version :: string
  pc_idena_snapshot_id :: string
  pc_idena_score_root :: string
  pc_miner_idena_address :: string
  pc_identity_proof_root :: string
  pc_sharechain_tip :: string
  pc_sharechain_state_root :: "string option"
  pc_payout_schedule_root :: string
  pc_vault_epoch_id :: u64
  pc_frost_vault_key_xonly :: string

record PohwCommitmentParams =
  pp_idena_snapshot_id :: string
  pp_idena_score_root :: string
  pp_miner_idena_address :: string
  pp_identity_proof_root :: string
  pp_sharechain_tip :: string
  pp_sharechain_state_root :: "string option"
  pp_payout_schedule_root :: string
  pp_vault_epoch_id :: u64
  pp_frost_vault_key_xonly :: string

record PohwCommitmentValidationContext =
  cx_idena_snapshot_id :: string
  cx_idena_score_root :: string
  cx_miner_leaf :: SnapshotLeaf
  cx_identity_proof_root :: string
  cx_sharechain_tip :: string
  cx_sharechain_state_root :: "string option"
  cx_payout_schedule_root :: string
  cx_vault_epoch_id :: u64
  cx_frost_vault_key_xonly :: string

datatype CommitmentError =
    UnsupportedVersion string
  | InvalidField string string
  | IneligibleIdentity
  | MinerAddressMismatch string string
  | SnapshotIdMismatch string string
  | IdenaScoreRootMismatch string string
  | IdentityProofRootMismatch string string
  | SharechainTipMismatch string string
  | MissingSharechainStateRoot
  | SharechainStateRootMismatch string string
  | PayoutScheduleRootMismatch string string
  | VaultEpochMismatch u64 u64
  | FrostVaultKeyMismatch string string

definition new_pohw1 :: "PohwCommitmentParams \<Rightarrow> PohwCommitment" where
  "new_pohw1 p = \<lparr>
     pc_version = ''POHW1'',
     pc_idena_snapshot_id = pp_idena_snapshot_id p,
     pc_idena_score_root = pp_idena_score_root p,
     pc_miner_idena_address = to_ascii_lowercase (pp_miner_idena_address p),
     pc_identity_proof_root = pp_identity_proof_root p,
     pc_sharechain_tip = pp_sharechain_tip p,
     pc_sharechain_state_root = pp_sharechain_state_root p,
     pc_payout_schedule_root = pp_payout_schedule_root p,
     pc_vault_epoch_id = pp_vault_epoch_id p,
     pc_frost_vault_key_xonly = pp_frost_vault_key_xonly p\<rparr>"

definition normalized_commitment :: "PohwCommitment \<Rightarrow> PohwCommitment" where
  "normalized_commitment c = c\<lparr>
     pc_version := to_ascii_uppercase (pc_version c),
     pc_idena_snapshot_id := to_ascii_lowercase (pc_idena_snapshot_id c),
     pc_idena_score_root := to_ascii_lowercase (pc_idena_score_root c),
     pc_miner_idena_address := to_ascii_lowercase (pc_miner_idena_address c),
     pc_identity_proof_root := to_ascii_lowercase (pc_identity_proof_root c),
     pc_sharechain_tip := to_ascii_lowercase (pc_sharechain_tip c),
     pc_sharechain_state_root := map_option to_ascii_lowercase (pc_sharechain_state_root c),
     pc_payout_schedule_root := to_ascii_lowercase (pc_payout_schedule_root c),
     pc_frost_vault_key_xonly := to_ascii_lowercase (pc_frost_vault_key_xonly c)\<rparr>"

definition json_PohwCommitment :: "PohwCommitment \<Rightarrow> json" where
  "json_PohwCommitment c = JObj ([
     (''version'', JStr (pc_version c)),
     (''idena_snapshot_id'', JStr (pc_idena_snapshot_id c)),
     (''idena_score_root'', JStr (pc_idena_score_root c)),
     (''miner_idena_address'', JStr (pc_miner_idena_address c)),
     (''identity_proof_root'', JStr (pc_identity_proof_root c)),
     (''sharechain_tip'', JStr (pc_sharechain_tip c))] @
     opt_field ''sharechain_state_root'' JStr (pc_sharechain_state_root c) @ [
     (''payout_schedule_root'', JStr (pc_payout_schedule_root c)),
     (''vault_epoch_id'', JUInt (pc_vault_epoch_id c)),
     (''frost_vault_key_xonly'', JStr (pc_frost_vault_key_xonly c))])"

definition commitment_hash :: "extern \<Rightarrow> PohwCommitment \<Rightarrow> string" where
  "commitment_hash X c = hash_hex X (sha256_tagged X (as_bytes ''POHW1_COMMITMENT'')
     (canonical_json X (json_PohwCommitment (normalized_commitment c))))"

section \<open>Validation of the fields\<close>

definition validate_snapshot_id :: "string \<Rightarrow> (CommitmentError, unit) res" where
  "validate_snapshot_id v =
     (if v = [] \<or> length v > MAX_COMMITMENT_SNAPSHOT_ID_BYTES
      then Err (InvalidField ''idena_snapshot_id''
        (''length must be 1..='' @ dec MAX_COMMITMENT_SNAPSHOT_ID_BYTES @ '' bytes''))
      else if \<not> list_all (\<lambda>c. is_ascii_alphanumeric c \<or> c \<in> set ''-_.:'') v
      then Err (InvalidField ''idena_snapshot_id'' ''contains unsupported characters'')
      else Ok ())"

definition validate_hash_hex :: "string \<Rightarrow> string \<Rightarrow> (CommitmentError, unit) res" where
  "validate_hash_hex field v =
     (if length v \<noteq> HASH_HEX_BYTES \<or> \<not> list_all is_ascii_hexdigit v
      then Err (InvalidField field ''must be exactly 32 bytes encoded as 64 hex characters'')
      else Ok ())"

definition validate_miner_address :: "string \<Rightarrow> (CommitmentError, unit) res" where
  "validate_miner_address v =
     (case (case strip_prefix ''0x'' v of Some h \<Rightarrow> Some h | None \<Rightarrow> strip_prefix ''0X'' v) of
        None \<Rightarrow> Err (InvalidField ''miner_idena_address'' ''must start with 0x'')
      | Some h \<Rightarrow>
          if length v \<noteq> IDENA_ADDRESS_BYTES \<or> length h \<noteq> 40 \<or> \<not> list_all is_ascii_hexdigit h
          then Err (InvalidField ''miner_idena_address''
            ''must contain 20 bytes encoded as 40 hex characters'')
          else Ok ())"

definition validate_commitment_fields :: "PohwCommitment \<Rightarrow> (CommitmentError, unit) res" where
  "validate_commitment_fields c =
     (if pc_version c \<noteq> ''POHW1'' then Err (UnsupportedVersion (pc_version c)) else checks [
       validate_snapshot_id (pc_idena_snapshot_id c),
       validate_hash_hex ''idena_score_root'' (pc_idena_score_root c),
       validate_miner_address (pc_miner_idena_address c),
       validate_hash_hex ''identity_proof_root'' (pc_identity_proof_root c),
       validate_hash_hex ''sharechain_tip'' (pc_sharechain_tip c),
       (case pc_sharechain_state_root c of None \<Rightarrow> Ok ()
        | Some root \<Rightarrow> validate_hash_hex ''sharechain_state_root'' root),
       validate_hash_hex ''payout_schedule_root'' (pc_payout_schedule_root c),
       validate_hash_hex ''frost_vault_key_xonly'' (pc_frost_vault_key_xonly c)])"

section \<open>The output script\<close>

text \<open>\<open>expect\<close> panics when the decoder rejects, \<open>assert!\<close> when the payload is too long.\<close>

definition op_return_payload :: "extern \<Rightarrow> PohwCommitment \<Rightarrow> (CommitmentError, bytes) res" where
  "op_return_payload X c = (case hex_decode X (commitment_hash X c) of
     Inl _ \<Rightarrow> Panic
   | Inr digest \<Rightarrow> Ok (as_bytes ''POHW1'' @ digest))"

definition op_return_script_pubkey_hex :: "extern \<Rightarrow> PohwCommitment \<Rightarrow> (CommitmentError, string) res" where
  "op_return_script_pubkey_hex X c =
     bindR (op_return_payload X c) (\<lambda>payload.
     if length payload > 75 then Panic
     else Ok (hex_encode X (0x6a # of_nat (length payload) # payload)))"

section \<open>Validation against the context\<close>

definition validate_commitment_identity :: "PohwCommitment \<Rightarrow> SnapshotLeaf \<Rightarrow> (CommitmentError, unit) res" where
  "validate_commitment_identity c leaf =
     bindR (validate_commitment_fields c) (\<lambda>_.
     if pc_miner_idena_address c \<noteq> to_ascii_lowercase (sl_idena_address leaf)
     then Err (MinerAddressMismatch (pc_miner_idena_address c) (sl_idena_address leaf))
     else if \<not> leaf_is_block_eligible leaf then Err IneligibleIdentity
     else Ok ())"

definition require_case_insensitive_match ::
  "string \<Rightarrow> string \<Rightarrow> string \<Rightarrow> CommitmentError \<Rightarrow> (CommitmentError, unit) res" where
  "require_case_insensitive_match label actual expected error =
     (if eq_ignore_ascii_case actual expected then Ok () else Err error)"

definition validate_pohw_commitment ::
  "PohwCommitment \<Rightarrow> PohwCommitmentValidationContext \<Rightarrow> (CommitmentError, unit) res" where
  "validate_pohw_commitment c x = checks [
     validate_commitment_identity c (cx_miner_leaf x),
     require_case_insensitive_match ''snapshot id''
       (pc_idena_snapshot_id c) (cx_idena_snapshot_id x)
       (SnapshotIdMismatch (cx_idena_snapshot_id x) (pc_idena_snapshot_id c)),
     require_case_insensitive_match ''Idena score root''
       (pc_idena_score_root c) (cx_idena_score_root x)
       (IdenaScoreRootMismatch (cx_idena_score_root x) (pc_idena_score_root c)),
     require_case_insensitive_match ''identity proof root''
       (pc_identity_proof_root c) (cx_identity_proof_root x)
       (IdentityProofRootMismatch (cx_identity_proof_root x) (pc_identity_proof_root c)),
     require_case_insensitive_match ''sharechain tip''
       (pc_sharechain_tip c) (cx_sharechain_tip x)
       (SharechainTipMismatch (cx_sharechain_tip x) (pc_sharechain_tip c)),
     (case cx_sharechain_state_root x of
        None \<Rightarrow> Ok ()
      | Some expected_root \<Rightarrow>
          bindR (ok_or MissingSharechainStateRoot (pc_sharechain_state_root c)) (\<lambda>actual_root.
          require_case_insensitive_match ''sharechain state root'' actual_root expected_root
            (SharechainStateRootMismatch expected_root actual_root))),
     require_case_insensitive_match ''payout schedule root''
       (pc_payout_schedule_root c) (cx_payout_schedule_root x)
       (PayoutScheduleRootMismatch (cx_payout_schedule_root x) (pc_payout_schedule_root c)),
     (if pc_vault_epoch_id c \<noteq> cx_vault_epoch_id x
      then Err (VaultEpochMismatch (cx_vault_epoch_id x) (pc_vault_epoch_id c)) else Ok ()),
     require_case_insensitive_match ''FROST vault key''
       (pc_frost_vault_key_xonly c) (cx_frost_vault_key_xonly x)
       (FrostVaultKeyMismatch (cx_frost_vault_key_xonly x) (pc_frost_vault_key_xonly c))]"

section \<open>Digest and script\<close>

interpretation commitment_digest: canonical_digest normalized_commitment json_PohwCommitment
proof unfold_locales
  fix c
  show "normalized_commitment (normalized_commitment c) = normalized_commitment c"
    by (cases "pc_sharechain_state_root c") (simp_all add: normalized_commitment_def)
qed

lemma commitment_hash_normalized: "commitment_hash X (normalized_commitment c) = commitment_hash X c"
  using commitment_digest.digest_norm [of X "''POHW1_COMMITMENT''" c]
  by (simp add: commitment_digest.digest_def commitment_hash_def)

lemma inj_json_PohwCommitment [simp]: "inj json_PohwCommitment"
  by (rule injI, rule PohwCommitment.equality)
    (simp_all add: json_PohwCommitment_def opt_field_inject opt_field_eq opt_field_name)

abbreviation commitment_preimage :: "extern \<Rightarrow> PohwCommitment \<Rightarrow> bytes" where
  "commitment_preimage X c \<equiv> canonical_json X (json_PohwCommitment (normalized_commitment c))"

abbreviation commitment_digest32 :: "extern \<Rightarrow> PohwCommitment \<Rightarrow> bytes" where
  "commitment_digest32 X c \<equiv> sha256_tagged X (as_bytes ''POHW1_COMMITMENT'') (commitment_preimage X c)"

lemma script_of_digest:
  assumes "hex_roundtrip X" and "digest_32 X"
  shows "length (commitment_digest32 X c) = 32"
    and "op_return_script_pubkey_hex X c =
      Ok (hex_encode X (0x6a # 37 # as_bytes ''POHW1'' @ commitment_digest32 X c))"
proof -
  show len: "length (commitment_digest32 X c) = 32"
    using assms(2) by (simp add: sha256_tagged_def digest_32_def)
  have "hex_decode X (commitment_hash X c) = Inr (commitment_digest32 X c)"
    using assms(1) by (simp add: commitment_hash_def hash_hex_def hex_roundtrip_def)
  with len show "op_return_script_pubkey_hex X c =
      Ok (hex_encode X (0x6a # 37 # as_bytes ''POHW1'' @ commitment_digest32 X c))"
    by (simp add: op_return_script_pubkey_hex_def op_return_payload_def)
qed

lemma same_script_iff:
  assumes "hex_roundtrip X" and "digest_32 X"
  shows "op_return_script_pubkey_hex X c = op_return_script_pubkey_hex X d \<longleftrightarrow>
    commitment_digest32 X c = commitment_digest32 X d"
proof -
  have "inj (hex_encode X)" using assms(1) by (metis hex_roundtrip_def injI sum.inject(2))
  then show ?thesis by (simp add: script_of_digest(2) [OF assms] inj_eq)
qed

section \<open>Contexts and the commitments accepted in them\<close>

text \<open>
  A context is presentable when the values it expects have the form the protocol gives them and its
  miner may produce blocks; two contexts are the same when they expect the same values up to the
  case of the letters. The honest commitment of a context states exactly what the context expects.
\<close>

definition hash_text :: "string \<Rightarrow> bool" where
  "hash_text v \<longleftrightarrow> length v = 64 \<and> list_all is_ascii_hexdigit v"

definition presentable_context :: "PohwCommitmentValidationContext \<Rightarrow> bool" where
  "presentable_context x \<longleftrightarrow>
     cx_idena_snapshot_id x \<noteq> [] \<and> length (cx_idena_snapshot_id x) \<le> 64 \<and>
     list_all (\<lambda>c. is_ascii_alphanumeric c \<or> c \<in> set ''-_.:'') (cx_idena_snapshot_id x) \<and>
     take 2 (sl_idena_address (cx_miner_leaf x)) \<in> {''0x'', ''0X''} \<and>
     length (sl_idena_address (cx_miner_leaf x)) = 42 \<and>
     list_all is_ascii_hexdigit (drop 2 (sl_idena_address (cx_miner_leaf x))) \<and>
     leaf_is_block_eligible (cx_miner_leaf x) \<and>
     list_all hash_text [cx_idena_score_root x, cx_identity_proof_root x, cx_sharechain_tip x,
       cx_payout_schedule_root x, cx_frost_vault_key_xonly x] \<and>
     (case cx_sharechain_state_root x of None \<Rightarrow> True | Some root \<Rightarrow> hash_text root)"

definition same_context ::
  "PohwCommitmentValidationContext \<Rightarrow> PohwCommitmentValidationContext \<Rightarrow> bool" where
  "same_context x y \<longleftrightarrow>
     eq_ignore_ascii_case (sl_idena_address (cx_miner_leaf x)) (sl_idena_address (cx_miner_leaf y)) \<and>
     eq_ignore_ascii_case (cx_idena_snapshot_id x) (cx_idena_snapshot_id y) \<and>
     eq_ignore_ascii_case (cx_idena_score_root x) (cx_idena_score_root y) \<and>
     eq_ignore_ascii_case (cx_identity_proof_root x) (cx_identity_proof_root y) \<and>
     eq_ignore_ascii_case (cx_sharechain_tip x) (cx_sharechain_tip y) \<and>
     map_option to_ascii_lowercase (cx_sharechain_state_root x) =
       map_option to_ascii_lowercase (cx_sharechain_state_root y) \<and>
     eq_ignore_ascii_case (cx_payout_schedule_root x) (cx_payout_schedule_root y) \<and>
     cx_vault_epoch_id x = cx_vault_epoch_id y \<and>
     eq_ignore_ascii_case (cx_frost_vault_key_xonly x) (cx_frost_vault_key_xonly y)"

definition honest_commitment :: "PohwCommitmentValidationContext \<Rightarrow> PohwCommitment" where
  "honest_commitment x = new_pohw1 \<lparr>
     pp_idena_snapshot_id = cx_idena_snapshot_id x, pp_idena_score_root = cx_idena_score_root x,
     pp_miner_idena_address = sl_idena_address (cx_miner_leaf x),
     pp_identity_proof_root = cx_identity_proof_root x, pp_sharechain_tip = cx_sharechain_tip x,
     pp_sharechain_state_root = cx_sharechain_state_root x,
     pp_payout_schedule_root = cx_payout_schedule_root x, pp_vault_epoch_id = cx_vault_epoch_id x,
     pp_frost_vault_key_xonly = cx_frost_vault_key_xonly x\<rparr>"

lemmas context_checks = validate_pohw_commitment_def checks_Ok_iff require_case_insensitive_match_def
  validate_commitment_identity_def validate_commitment_fields_def

text \<open>Up to case, an accepted commitment is the honest one of the context it was accepted for.\<close>

lemma accepted_is_honest:
  assumes "validate_pohw_commitment c x = Ok ()" and "cx_sharechain_state_root x = Some root"
  shows "normalized_commitment c = normalized_commitment (honest_commitment x)"
  using assms
  by (intro PohwCommitment.equality)
    (auto simp: context_checks honest_commitment_def new_pohw1_def normalized_commitment_def
      eq_ignore_ascii_case_def res_simps split: option.splits if_splits)

lemma honest_commitment_same:
  "normalized_commitment (honest_commitment x) = normalized_commitment (honest_commitment y) \<longleftrightarrow>
    same_context x y"
  by (cases "cx_sharechain_state_root x"; cases "cx_sharechain_state_root y")
    (auto simp: honest_commitment_def new_pohw1_def normalized_commitment_def same_context_def
      eq_ignore_ascii_case_def)

lemma validate_hash_hex_text: "validate_hash_hex field v = Ok () \<longleftrightarrow> hash_text v"
  by (auto simp: validate_hash_hex_def hash_text_def HASH_HEX_BYTES_def)

lemma lowercase_address_ok:
  assumes "take 2 a \<in> {''0x'', ''0X''}" and "length a = 42" and "list_all is_ascii_hexdigit (drop 2 a)"
  shows "validate_miner_address (to_ascii_lowercase a) = Ok ()"
proof -
  obtain h where a: "a = take 2 a @ h" and h: "h = drop 2 a" by (metis append_take_drop_id)
  have "to_ascii_lowercase ''0x'' = ''0x''" "to_ascii_lowercase ''0X'' = ''0x''" by code_simp+
  then have "to_ascii_lowercase (take 2 a) = ''0x''" using assms(1) by auto
  then have "to_ascii_lowercase a = ''0x'' @ to_ascii_lowercase h"
    by (subst a) (simp add: to_ascii_lowercase_def)
  then show ?thesis
    using assms(2,3) h
    by (simp add: validate_miner_address_def strip_prefix_def IDENA_ADDRESS_BYTES_def)
qed

lemma honest_commitment_accepted:
  assumes "presentable_context x"
  shows "validate_pohw_commitment (honest_commitment x) x = Ok ()"
proof -
  have "validate_snapshot_id (cx_idena_snapshot_id x) = Ok ()"
    using assms by (simp add: presentable_context_def validate_snapshot_id_def MAX_COMMITMENT_SNAPSHOT_ID_BYTES_def)
  moreover have "validate_miner_address (to_ascii_lowercase (sl_idena_address (cx_miner_leaf x))) = Ok ()"
    using assms by (intro lowercase_address_ok) (simp_all add: presentable_context_def)
  ultimately show ?thesis
    using assms unfolding presentable_context_def
    by (auto simp: context_checks honest_commitment_def new_pohw1_def validate_hash_hex_text
        res_simps split: option.splits)
qed

section \<open>Properties\<close>

text \<open>
  C40: The commitment script is well formed. For every commitment the payload is the tag \<open>POHW1\<close>
  followed by the 32 bytes of the digest, the script is \<open>OP_RETURN\<close>, a push of 37 bytes and the
  payload, and neither the decoder nor the assertion on the length panics.
\<close>

theorem commitment_script_wellformed:
  assumes "hex_roundtrip X" and "digest_32 X"
  shows "\<exists>digest. length digest = 32 \<and> hash_hex X digest = commitment_hash X c \<and>
    op_return_script_pubkey_hex X c = Ok (hex_encode X (0x6a # 37 # as_bytes ''POHW1'' @ digest))"
  using script_of_digest [OF assms, of c] by (auto simp: commitment_hash_def)

definition sample_params :: PohwCommitmentParams where
  "sample_params = \<lparr>pp_idena_snapshot_id = ''2026-06-30'', pp_idena_score_root = replicate 64 CHR ''a'',
     pp_miner_idena_address = ''0x'' @ replicate 40 CHR ''1'', pp_identity_proof_root = replicate 64 CHR ''b'',
     pp_sharechain_tip = replicate 64 CHR ''c'', pp_sharechain_state_root = None,
     pp_payout_schedule_root = replicate 64 CHR ''d'', pp_vault_epoch_id = 1,
     pp_frost_vault_key_xonly = replicate 64 CHR ''e''\<rparr>"

theorem commitment_script_wellformed_witness:
  "\<exists>digest. length digest = 32 \<and> hash_hex constant_hash digest = commitment_hash constant_hash (new_pohw1 sample_params) \<and>
    op_return_script_pubkey_hex constant_hash (new_pohw1 sample_params) =
      Ok (hex_encode constant_hash (0x6a # 37 # as_bytes ''POHW1'' @ digest))"
  by (rule commitment_script_wellformed) (rule constant_hash_codec)+


definition sample_context :: "char \<Rightarrow> PohwCommitmentValidationContext" where
  "sample_context a = \<lparr>cx_idena_snapshot_id = ''2026-06-30'', cx_idena_score_root = replicate 64 a,
     cx_miner_leaf = \<lparr>sl_idena_address = ''0x'' @ replicate 40 a, sl_status = Human, sl_pubkey = ''02'',
       sl_validation_reward_score = 0, sl_proposer_reward_score = 0, sl_committee_reward_score = 0,
       sl_ignored_invitation_score = 0, sl_identity_root = replicate 64 CHR ''b'',
       sl_formula_version = FORMULA_VERSION\<rparr>,
     cx_identity_proof_root = replicate 64 CHR ''b'', cx_sharechain_tip = replicate 64 CHR ''c'',
     cx_sharechain_state_root = Some (replicate 64 a),
     cx_payout_schedule_root = replicate 64 CHR ''d'', cx_vault_epoch_id = 1,
     cx_frost_vault_key_xonly = replicate 64 CHR ''e''\<rparr>"

lemma sample_contexts:
  "presentable_context (sample_context CHR ''a'')" "presentable_context (sample_context CHR ''A'')"
  "same_context (sample_context CHR ''a'') (sample_context CHR ''A'')"
  by code_simp+


end
