(* ===== verification/GossipId.thy ===== *)
theory GossipId
  imports Extern
begin

text \<open>
  The parts of \<open>pohw-core/src/gossip.rs\<close> that other components use: its errors with their texts and
  the normal form of network ids and 32-byte hex values.
\<close>

datatype GossipError =
    UnsupportedProtocol string
  | UnexpectedNetworkId
  | MissingNetworkId
  | InvalidNetworkId string
  | NetworkMismatch string string
  | InvalidPeerPubkey string
  | InvalidNonce string
  | FutureTimestamp int int
  | StaleTimestamp int int
  | MissingSignature
  | SigningKeyMismatch
  | InvalidSignature string

fun gossip_error_string :: "GossipError \<Rightarrow> string" where
  "gossip_error_string (UnsupportedProtocol v0) = ''unsupported gossip protocol version '' @ v0"
| "gossip_error_string UnexpectedNetworkId = ''legacy gossip protocol must not carry a network id''"
| "gossip_error_string MissingNetworkId = ''network-bound gossip protocol requires a network id''"
| "gossip_error_string (InvalidNetworkId v0) = ''invalid gossip network id: '' @ v0"
| "gossip_error_string (NetworkMismatch expected actual) = ''gossip envelope network '' @ actual @ '' does not match expected network '' @ expected"
| "gossip_error_string (InvalidPeerPubkey v0) = ''invalid gossip peer pubkey: '' @ v0"
| "gossip_error_string (InvalidNonce v0) = ''invalid gossip nonce: '' @ v0"
| "gossip_error_string (FutureTimestamp created_at_unix now_unix) = ''gossip envelope timestamp '' @ show_int created_at_unix @ '' is too far in the future relative to '' @ show_int now_unix"
| "gossip_error_string (StaleTimestamp created_at_unix now_unix) = ''gossip envelope timestamp '' @ show_int created_at_unix @ '' is older than max age at '' @ show_int now_unix"
| "gossip_error_string MissingSignature = ''missing gossip envelope signature''"
| "gossip_error_string SigningKeyMismatch = ''gossip signing key does not match envelope peer pubkey''"
| "gossip_error_string (InvalidSignature v0) = ''invalid gossip envelope signature: '' @ v0"

definition unwrap_prefix_0x :: "string \<Rightarrow> string" where
  "unwrap_prefix_0x v = (case strip_prefix ''0x'' v of None \<Rightarrow> v | Some t \<Rightarrow> t)"

definition normalize_hex_32 :: "string \<Rightarrow> (string \<Rightarrow> GossipError) \<Rightarrow> (GossipError, string) res" where
  "normalize_hex_32 v0 err = (let v = to_ascii_lowercase (unwrap_prefix_0x v0) in
     if length v \<noteq> 64 \<or> \<not> list_all is_ascii_hexdigit v
     then Err (err ''value must be 32 bytes encoded as 64 hex characters'')
     else Ok v)"

definition normalize_gossip_network_id :: "string \<Rightarrow> (GossipError, string) res" where
  "normalize_gossip_network_id v0 = (let v = to_ascii_lowercase (unwrap_prefix_0x v0) in
     if length v \<noteq> 64 \<or> \<not> list_all is_ascii_hexdigit v
     then Err (InvalidNetworkId ''value must be 32 bytes encoded as 64 hex characters'')
     else Ok v)"

lemma hexdigit_not_x: "\<not> is_ascii_hexdigit CHR ''x''"
  by (simp add: is_ascii_hexdigit_def is_ascii_digit_def code_def)

lemma unwrap_prefix_hex: "list_all is_ascii_hexdigit v \<Longrightarrow> unwrap_prefix_0x v = v"
  using hexdigit_not_x by (auto simp: unwrap_prefix_0x_def split: option.split)

text \<open>A normal form is its own normal form.\<close>

lemma normalize_hex_32_fixed:
  "normalize_hex_32 v err = Ok w \<Longrightarrow> normalize_hex_32 w err' = Ok w"
  by (auto simp: normalize_hex_32_def Let_def unwrap_prefix_hex split: if_splits)

lemma normalize_network_id_fixed:
  "normalize_gossip_network_id v = Ok w \<Longrightarrow> normalize_gossip_network_id w = Ok w"
  by (auto simp: normalize_gossip_network_id_def Let_def unwrap_prefix_hex split: if_splits)

end
