(* ===== verification/ShareWork.thy ===== *)
theory ShareWork
  imports Anchor GossipId
begin

text \<open>
  \<open>pohw-core/src/share_work.rs\<close>: the activation manifest and the policy that make bindings
  mandatory, and the binding of a share to the coinbase of its Bitcoin header: one tagged
  \<open>OP_RETURN\<close> output with the digest of the share's fields and a Merkle branch to the header.
\<close>

definition SHARE_WORK_BINDING_POLICY_SCHEMA_VERSION :: u16 where
  "SHARE_WORK_BINDING_POLICY_SCHEMA_VERSION = 1"

definition SHARE_WORK_BINDING_SCHEMA_VERSION :: u16 where
  "SHARE_WORK_BINDING_SCHEMA_VERSION = 1"

definition SHARE_WORK_ACTIVATION_SCHEMA :: string where
  "SHARE_WORK_ACTIVATION_SCHEMA = ''pohw-share-work-activation/v1''"

definition SHARE_WORK_COMMITMENT_TAG :: bytes where
  "SHARE_WORK_COMMITMENT_TAG = as_bytes ''P2POOLBTC_SHARE_WORK_V1''"

definition SHARE_WORK_POLICY_TAG :: bytes where
  "SHARE_WORK_POLICY_TAG = as_bytes ''P2POOLBTC_SHARE_WORK_POLICY_V1''"

definition SHARE_WORK_ACTIVATION_TAG :: bytes where
  "SHARE_WORK_ACTIVATION_TAG = as_bytes ''P2POOLBTC_SHARE_WORK_ACTIVATION_V1''"

definition SHARE_WORK_OP_RETURN_PREFIX :: bytes where
  "SHARE_WORK_OP_RETURN_PREFIX = as_bytes ''P2SW1''"

definition MAX_MINER_ID_BYTES :: nat where
  "MAX_MINER_ID_BYTES = 64"

definition MAX_SNAPSHOT_ID_BYTES :: nat where
  "MAX_SNAPSHOT_ID_BYTES = 64"

definition MAX_COINBASE_BYTES :: nat where
  "MAX_COINBASE_BYTES = 256 * 1024"

definition MAX_MERKLE_BRANCHES :: nat where
  "MAX_MERKLE_BRANCHES = 512"

record ShareWorkActivationManifestV1 =
  am_schema_version :: string
  am_profile_revision :: u16
  am_status :: string
  am_launch_enabled :: bool
  am_activation_id :: string
  am_experiment_id :: string
  am_bitcoin_fork_activation_id :: string
  am_sharechain_network_id :: string
  am_require_binding_from_genesis :: bool
  am_require_fresh_datadir :: bool
  am_history_reinterpreted :: bool
  am_coinbase_commitment_tag :: string

record ShareWorkBindingPolicyV1 =
  bp_schema_version :: u16
  bp_experiment_id :: string
  bp_fork_activation_id :: string
  bp_sharechain_network_id :: string
  bp_require_binding_from_genesis :: bool

record ShareWorkBindingV1 =
  sb_schema_version :: u16
  sb_policy_hash :: string
  sb_miner_id :: string
  sb_assigned_share_target :: string
  sb_parent_share_hash :: string
  sb_idena_snapshot_id :: string
  sb_idena_snapshot_proof_root :: string
  sb_idena_anchor :: IdenaBlockAnchorV1
  sb_idena_anchor_policy_hash :: string
  sb_coinbase_tx_hex :: string
  sb_coinbase_merkle_branches :: "string list"

datatype ShareWorkBindingError =
    UnsupportedActivationSchema string
  | UnsupportedPolicyVersion u16
  | UnsupportedBindingVersion u16
  | InvalidField string string
  | LegacyReplayPolicyRejected
  | PolicyMismatch string string
  | CommitmentOutputCount nat
  | CommitmentOutputMismatch
  | InvalidCoinbase string
  | MerkleRootMismatch
  | ActivationIdMismatch string string
  | ActivationNotLaunchable string

section \<open>Field checks\<close>

definition invalid_field :: "string \<Rightarrow> string \<Rightarrow> ShareWorkBindingError" where
  "invalid_field field reason = InvalidField field reason"

definition validate_label :: "string \<Rightarrow> string \<Rightarrow> nat \<Rightarrow> (ShareWorkBindingError, unit) res" where
  "validate_label field v max_bytes =
     (if v = [] \<or> length v > max_bytes
      then Err (InvalidField field (''length must be 1..='' @ dec max_bytes @ '' bytes''))
      else if v \<noteq> to_ascii_lowercase v
        \<or> \<not> list_all (\<lambda>c. is_ascii_lowercase c \<or> is_ascii_digit c \<or> c \<in> set ''-_.:'') v
      then Err (InvalidField field ''must use canonical lowercase ASCII label characters'')
      else Ok ())"

definition validate_hash :: "string \<Rightarrow> string \<Rightarrow> (ShareWorkBindingError, unit) res" where
  "validate_hash field v =
     (if length v \<noteq> 64 \<or> v \<noteq> to_ascii_lowercase v \<or> \<not> list_all is_ascii_hexdigit v
      then Err (InvalidField field ''must be 32-byte lowercase hex'') else Ok ())"

definition decode_exact_hex :: "extern \<Rightarrow> string \<Rightarrow> string \<Rightarrow> nat \<Rightarrow> (ShareWorkBindingError, bytes) res" where
  "decode_exact_hex X field v expected_bytes =
     (if length v \<noteq> expected_bytes * 2 \<or> \<not> list_all is_ascii_hexdigit v
      then Err (InvalidField field (''must be exactly '' @ dec expected_bytes @ '' bytes of hex''))
      else lift_ext (InvalidField field) (hex_decode X v))"

definition all_zero :: "string \<Rightarrow> bool" where
  "all_zero v \<longleftrightarrow> list_all (\<lambda>c. c = CHR ''0'') v"

section \<open>The activation manifest\<close>

definition normalized_manifest :: "ShareWorkActivationManifestV1 \<Rightarrow> ShareWorkActivationManifestV1" where
  "normalized_manifest m = m\<lparr>
     am_schema_version := to_ascii_lowercase (am_schema_version m),
     am_status := to_ascii_lowercase (am_status m),
     am_activation_id := to_ascii_lowercase (am_activation_id m),
     am_experiment_id := to_ascii_lowercase (am_experiment_id m),
     am_bitcoin_fork_activation_id := to_ascii_lowercase (am_bitcoin_fork_activation_id m),
     am_sharechain_network_id := to_ascii_lowercase (am_sharechain_network_id m)\<rparr>"

definition validate_manifest_fields :: "ShareWorkActivationManifestV1 \<Rightarrow> (ShareWorkBindingError, unit) res" where
  "validate_manifest_fields m =
     (if am_schema_version m \<noteq> SHARE_WORK_ACTIVATION_SCHEMA
      then Err (UnsupportedActivationSchema (am_schema_version m))
      else if am_profile_revision m = 0 then Err (invalid_field ''profile_revision'' ''must be positive'')
      else if \<not> ((am_status m = ''experimental-candidate'' \<and> \<not> am_launch_enabled m)
        \<or> (am_status m = ''experimental-active'' \<and> am_launch_enabled m))
      then Err (invalid_field ''status''
        ''must be experimental-candidate with launch disabled or experimental-active with launch enabled'')
      else
      bindR (validate_hash ''activation_id'' (am_activation_id m)) (\<lambda>_.
      bindR (map_err (\<lambda>e. InvalidField ''experiment_id'' (anchor_error_string e))
        (validate_experiment_id (am_experiment_id m))) (\<lambda>_.
      bindR (validate_hash ''bitcoin_fork_activation_id'' (am_bitcoin_fork_activation_id m)) (\<lambda>_.
      if all_zero (am_bitcoin_fork_activation_id m)
      then Err (invalid_field ''bitcoin_fork_activation_id'' ''must not be zero'') else
      bindR (map_err (\<lambda>e. InvalidField ''sharechain_network_id'' (gossip_error_string e))
        (normalize_gossip_network_id (am_sharechain_network_id m))) (\<lambda>network_id.
      if network_id \<noteq> am_sharechain_network_id m \<or> all_zero (am_sharechain_network_id m)
      then Err (invalid_field ''sharechain_network_id'' ''must be nonzero canonical lowercase network id'')
      else if \<not> am_require_binding_from_genesis m
      then Err (invalid_field ''require_binding_from_genesis'' ''must be true'')
      else if \<not> am_require_fresh_datadir m
      then Err (invalid_field ''require_fresh_datadir'' ''must be true'')
      else if am_history_reinterpreted m
      then Err (invalid_field ''history_reinterpreted'' ''must be false'')
      else if am_coinbase_commitment_tag m \<noteq> ''P2SW1''
      then Err (invalid_field ''coinbase_commitment_tag'' ''must be P2SW1'')
      else Ok ())))))"

definition ShareWorkActivationPayloadV1 :: "ShareWorkActivationManifestV1 \<Rightarrow> json" where
  "ShareWorkActivationPayloadV1 m = JObj [
     (''schema_version'', JStr (am_schema_version m)),
     (''profile_revision'', JUInt (am_profile_revision m)),
     (''status'', JStr (am_status m)),
     (''launch_enabled'', JBool (am_launch_enabled m)),
     (''experiment_id'', JStr (am_experiment_id m)),
     (''bitcoin_fork_activation_id'', JStr (am_bitcoin_fork_activation_id m)),
     (''sharechain_network_id'', JStr (am_sharechain_network_id m)),
     (''require_binding_from_genesis'', JBool (am_require_binding_from_genesis m)),
     (''require_fresh_datadir'', JBool (am_require_fresh_datadir m)),
     (''history_reinterpreted'', JBool (am_history_reinterpreted m)),
     (''coinbase_commitment_tag'', JStr (am_coinbase_commitment_tag m))]"

definition recomputed_activation_id ::
  "extern \<Rightarrow> ShareWorkActivationManifestV1 \<Rightarrow> (ShareWorkBindingError, string) res" where
  "recomputed_activation_id X self = (let manifest = normalized_manifest self in
     bindR (validate_manifest_fields manifest) (\<lambda>_.
     Ok (hash_hex X (sha256_tagged X SHARE_WORK_ACTIVATION_TAG
       (canonical_json X (ShareWorkActivationPayloadV1 manifest))))))"

definition validate_manifest :: "extern \<Rightarrow> ShareWorkActivationManifestV1 \<Rightarrow> (ShareWorkBindingError, unit) res" where
  "validate_manifest X m =
     bindR (validate_manifest_fields m) (\<lambda>_.
     bindR (recomputed_activation_id X m) (\<lambda>expected.
     let actual = to_ascii_lowercase (am_activation_id m) in
     if actual \<noteq> expected then Err (ActivationIdMismatch expected actual) else Ok ()))"

definition validate_for_launch :: "extern \<Rightarrow> ShareWorkActivationManifestV1 \<Rightarrow> (ShareWorkBindingError, unit) res" where
  "validate_for_launch X m =
     bindR (validate_manifest X m) (\<lambda>_.
     if am_status m \<noteq> ''experimental-active'' \<or> \<not> am_launch_enabled m
     then Err (ActivationNotLaunchable
       (''status='' @ am_status m @ '' launch_enabled='' @ show_bool (am_launch_enabled m)))
     else Ok ())"

section \<open>The policy\<close>

definition normalized_binding_policy :: "ShareWorkBindingPolicyV1 \<Rightarrow> ShareWorkBindingPolicyV1" where
  "normalized_binding_policy p = p\<lparr>
     bp_experiment_id := to_ascii_lowercase (bp_experiment_id p),
     bp_fork_activation_id := to_ascii_lowercase (bp_fork_activation_id p),
     bp_sharechain_network_id := to_ascii_lowercase (bp_sharechain_network_id p)\<rparr>"

definition json_ShareWorkBindingPolicyV1 :: "ShareWorkBindingPolicyV1 \<Rightarrow> json" where
  "json_ShareWorkBindingPolicyV1 p = JObj [
     (''schema_version'', JUInt (bp_schema_version p)),
     (''experiment_id'', JStr (bp_experiment_id p)),
     (''fork_activation_id'', JStr (bp_fork_activation_id p)),
     (''sharechain_network_id'', JStr (bp_sharechain_network_id p)),
     (''require_binding_from_genesis'', JBool (bp_require_binding_from_genesis p))]"

definition validate_binding_policy :: "ShareWorkBindingPolicyV1 \<Rightarrow> (ShareWorkBindingError, unit) res" where
  "validate_binding_policy p =
     (if bp_schema_version p \<noteq> SHARE_WORK_BINDING_POLICY_SCHEMA_VERSION
      then Err (UnsupportedPolicyVersion (bp_schema_version p)) else
      bindR (map_err (\<lambda>e. InvalidField ''experiment_id'' (anchor_error_string e))
        (validate_experiment_id (bp_experiment_id p))) (\<lambda>_.
      bindR (validate_hash ''fork_activation_id'' (bp_fork_activation_id p)) (\<lambda>_.
      if all_zero (bp_fork_activation_id p)
      then Err (InvalidField ''fork_activation_id'' ''must not be zero'') else
      bindR (map_err (\<lambda>e. InvalidField ''sharechain_network_id'' (gossip_error_string e))
        (normalize_gossip_network_id (bp_sharechain_network_id p))) (\<lambda>normalized_network_id.
      if normalized_network_id \<noteq> bp_sharechain_network_id p
      then Err (InvalidField ''sharechain_network_id'' ''must use canonical lowercase form'')
      else if \<not> bp_require_binding_from_genesis p then Err LegacyReplayPolicyRejected
      else Ok ()))))"

definition binding_policy_hash :: "extern \<Rightarrow> ShareWorkBindingPolicyV1 \<Rightarrow> (ShareWorkBindingError, string) res" where
  "binding_policy_hash X self = (let policy = normalized_binding_policy self in
     bindR (validate_binding_policy policy) (\<lambda>_.
     Ok (hash_hex X (sha256_tagged X SHARE_WORK_POLICY_TAG
       (canonical_json X (json_ShareWorkBindingPolicyV1 policy))))))"

section \<open>The binding\<close>

definition normalized_binding :: "ShareWorkBindingV1 \<Rightarrow> ShareWorkBindingV1" where
  "normalized_binding b = b\<lparr>
     sb_policy_hash := to_ascii_lowercase (sb_policy_hash b),
     sb_miner_id := to_ascii_lowercase (sb_miner_id b),
     sb_assigned_share_target := to_ascii_lowercase (sb_assigned_share_target b),
     sb_parent_share_hash := to_ascii_lowercase (sb_parent_share_hash b),
     sb_idena_snapshot_id := to_ascii_lowercase (sb_idena_snapshot_id b),
     sb_idena_snapshot_proof_root := to_ascii_lowercase (sb_idena_snapshot_proof_root b),
     sb_idena_anchor := normalized_block_anchor (sb_idena_anchor b),
     sb_idena_anchor_policy_hash := to_ascii_lowercase (sb_idena_anchor_policy_hash b),
     sb_coinbase_tx_hex := to_ascii_lowercase (sb_coinbase_tx_hex b),
     sb_coinbase_merkle_branches := map to_ascii_lowercase (sb_coinbase_merkle_branches b)\<rparr>"

definition json_IdenaBlockAnchorV1 :: "IdenaBlockAnchorV1 \<Rightarrow> json" where
  "json_IdenaBlockAnchorV1 a = JObj [(''height'', JUInt (ba_height a)), (''hash'', JStr (ba_hash a))]"

definition json_ShareWorkBindingV1 :: "ShareWorkBindingV1 \<Rightarrow> json" where
  "json_ShareWorkBindingV1 b = JObj [
     (''schema_version'', JUInt (sb_schema_version b)),
     (''policy_hash'', JStr (sb_policy_hash b)),
     (''miner_id'', JStr (sb_miner_id b)),
     (''assigned_share_target'', JStr (sb_assigned_share_target b)),
     (''parent_share_hash'', JStr (sb_parent_share_hash b)),
     (''idena_snapshot_id'', JStr (sb_idena_snapshot_id b)),
     (''idena_snapshot_proof_root'', JStr (sb_idena_snapshot_proof_root b)),
     (''idena_anchor'', json_IdenaBlockAnchorV1 (sb_idena_anchor b)),
     (''idena_anchor_policy_hash'', JStr (sb_idena_anchor_policy_hash b)),
     (''coinbase_tx_hex'', JStr (sb_coinbase_tx_hex b)),
     (''coinbase_merkle_branches'', JStrs (sb_coinbase_merkle_branches b))]"

definition validate_binding_fields :: "ShareWorkBindingV1 \<Rightarrow> (ShareWorkBindingError, unit) res" where
  "validate_binding_fields b =
     (if sb_schema_version b \<noteq> SHARE_WORK_BINDING_SCHEMA_VERSION
      then Err (UnsupportedBindingVersion (sb_schema_version b)) else
      bindR (validate_hash ''policy_hash'' (sb_policy_hash b)) (\<lambda>_.
      bindR (validate_label ''miner_id'' (sb_miner_id b) MAX_MINER_ID_BYTES) (\<lambda>_.
      bindR (validate_hash ''assigned_share_target'' (sb_assigned_share_target b)) (\<lambda>_.
      if all_zero (sb_assigned_share_target b)
      then Err (InvalidField ''assigned_share_target'' ''must not be zero'') else
      bindR (validate_hash ''parent_share_hash'' (sb_parent_share_hash b)) (\<lambda>_.
      bindR (validate_label ''idena_snapshot_id'' (sb_idena_snapshot_id b) MAX_SNAPSHOT_ID_BYTES) (\<lambda>_.
      bindR (validate_hash ''idena_snapshot_proof_root'' (sb_idena_snapshot_proof_root b)) (\<lambda>_.
      bindR (map_err (\<lambda>e. InvalidField ''idena_anchor'' (anchor_error_string e))
        (validate_block_anchor (sb_idena_anchor b))) (\<lambda>_.
      validate_hash ''idena_anchor_policy_hash'' (sb_idena_anchor_policy_hash b)))))))))"

definition ShareWorkCommitmentPayloadV1 :: "ShareWorkBindingV1 \<Rightarrow> json" where
  "ShareWorkCommitmentPayloadV1 b = JObj [
     (''schema_version'', JUInt (sb_schema_version b)),
     (''policy_hash'', JStr (sb_policy_hash b)),
     (''miner_id'', JStr (sb_miner_id b)),
     (''assigned_share_target'', JStr (sb_assigned_share_target b)),
     (''parent_share_hash'', JStr (sb_parent_share_hash b)),
     (''idena_snapshot_id'', JStr (sb_idena_snapshot_id b)),
     (''idena_snapshot_proof_root'', JStr (sb_idena_snapshot_proof_root b)),
     (''idena_anchor'', json_IdenaBlockAnchorV1 (sb_idena_anchor b)),
     (''idena_anchor_policy_hash'', JStr (sb_idena_anchor_policy_hash b))]"

definition binding_hash :: "extern \<Rightarrow> ShareWorkBindingV1 \<Rightarrow> (ShareWorkBindingError, string) res" where
  "binding_hash X self = (let binding = normalized_binding self in
     bindR (validate_binding_fields binding) (\<lambda>_.
     Ok (hash_hex X (sha256_tagged X SHARE_WORK_COMMITMENT_TAG
       (canonical_json X (ShareWorkCommitmentPayloadV1 binding))))))"

text \<open>The two \<open>expect\<close> calls panic when the decoder rejects and when the payload exceeds a \<open>u8\<close>.\<close>

definition binding_script_hex :: "extern \<Rightarrow> ShareWorkBindingV1 \<Rightarrow> (ShareWorkBindingError, string) res" where
  "binding_script_hex X b =
     bindR (binding_hash X b) (\<lambda>h. case hex_decode X h of
       Inl _ \<Rightarrow> Panic
     | Inr digest \<Rightarrow> let payload = SHARE_WORK_OP_RETURN_PREFIX @ digest in
         if length payload > 255 then Panic
         else Ok (hex_encode X (0x6a # of_nat (length payload) # payload)))"

definition verify_policy :: "extern \<Rightarrow> ShareWorkBindingV1 \<Rightarrow> ShareWorkBindingPolicyV1 \<Rightarrow> (ShareWorkBindingError, unit) res" where
  "verify_policy X b policy =
     bindR (binding_policy_hash X policy) (\<lambda>expected.
     let actual = to_ascii_lowercase (sb_policy_hash b) in
     if actual \<noteq> expected then Err (PolicyMismatch expected actual) else Ok ())"

text \<open>\<open>slice::windows\<close>, and the test for a script that carries the tag anywhere after \<open>OP_RETURN\<close>.\<close>

definition windows :: "nat \<Rightarrow> 'a list \<Rightarrow> 'a list list" where
  "windows n xs = map (\<lambda>i. take n (drop i xs)) [0..<Suc (length xs) - n]"

definition is_commitment_output :: "bytes \<Rightarrow> bool" where
  "is_commitment_output script = (case script of
     [] \<Rightarrow> False
   | b # rest \<Rightarrow> b = 0x6a \<and>
       list_ex (\<lambda>w. w = SHARE_WORK_OP_RETURN_PREFIX) (windows (length SHARE_WORK_OP_RETURN_PREFIX) rest))"

text \<open>The loop over the Merkle branches.\<close>

fun fold_branches :: "extern \<Rightarrow> bytes \<Rightarrow> string list \<Rightarrow> (ShareWorkBindingError, bytes) res" where
  "fold_branches X merkle [] = Ok merkle"
| "fold_branches X merkle (branch # rest) =
     bindR (decode_exact_hex X ''coinbase_merkle_branch'' branch 32) (\<lambda>b.
     fold_branches X (sha256d X (merkle @ b)) rest)"

definition check_coinbase_hex :: "ShareWorkBindingV1 \<Rightarrow> (ShareWorkBindingError, unit) res" where
  "check_coinbase_hex b =
     (if sb_coinbase_tx_hex b = [] \<or> length (sb_coinbase_tx_hex b) mod 2 \<noteq> 0
       \<or> length (sb_coinbase_tx_hex b) > MAX_COINBASE_BYTES * 2
       \<or> \<not> list_all is_ascii_hexdigit (sb_coinbase_tx_hex b)
      then Err (InvalidField ''coinbase_tx_hex''
        ''must be nonempty canonical transaction hex within the size limit'')
      else if length (sb_coinbase_merkle_branches b) > MAX_MERKLE_BRANCHES
      then Err (InvalidField ''coinbase_merkle_branches''
        (''must contain at most '' @ dec MAX_MERKLE_BRANCHES @ '' entries''))
      else Ok ())"

definition decode_coinbase :: "extern \<Rightarrow> ShareWorkBindingV1 \<Rightarrow> (ShareWorkBindingError, transaction) res" where
  "decode_coinbase X b =
     bindR (lift_ext InvalidCoinbase (hex_decode X (sb_coinbase_tx_hex b))) (\<lambda>coinbase_bytes.
     bindR (lift_ext InvalidCoinbase (tx_deserialize X coinbase_bytes)) (\<lambda>coinbase.
     if \<not> tx_is_coinbase coinbase \<or> tx_serialized coinbase \<noteq> coinbase_bytes
     then Err (InvalidCoinbase ''transaction is not a canonical coinbase'')
     else Ok coinbase))"

text \<open>\<open>header[36..68]\<close> panics on a shorter header.\<close>

definition verify_header_commitment ::
  "extern \<Rightarrow> ShareWorkBindingV1 \<Rightarrow> string \<Rightarrow> (ShareWorkBindingError, unit) res" where
  "verify_header_commitment X b bitcoin_header_hex =
     bindR (validate_binding_fields b) (\<lambda>_.
     bindR (decode_exact_hex X ''bitcoin_header_hex'' bitcoin_header_hex 80) (\<lambda>header.
     bindR (check_coinbase_hex b) (\<lambda>_.
     bindR (decode_coinbase X b) (\<lambda>coinbase.
     bindR (binding_script_hex X b) (\<lambda>script_hex. case hex_decode X script_hex of
       Inl _ \<Rightarrow> Panic
     | Inr expected_script \<Rightarrow>
     let commitment_outputs = filter is_commitment_output (tx_output_scripts coinbase) in
     if length commitment_outputs \<noteq> 1 then Err (CommitmentOutputCount (length commitment_outputs))
     else if commitment_outputs ! 0 \<noteq> expected_script then Err CommitmentOutputMismatch
     else bindR (fold_branches X (tx_txid coinbase) (sb_coinbase_merkle_branches b)) (\<lambda>merkle.
     if length header < 68 then Panic
     else if merkle \<noteq> take 32 (drop 36 header) then Err MerkleRootMismatch
     else Ok ()))))))"

end
