(* ===== verification/Sharechain.thy ===== *)
theory Sharechain
  imports Payout Withdrawal Commitment ShareWork
begin

text \<open>
  \<open>pohw-core/src/sharechain.rs\<close>: the messages of the sharechain (registrations, work templates,
  shares, votes and the payloads of the other components), their normal forms and digests, and the
  checks that tie a share to its template, its proof of work and its miner's key.
\<close>

section \<open>Constants\<close>

definition MAX_MINER_ID_LEN :: nat where
  "MAX_MINER_ID_LEN = 64"

definition MAX_SNAPSHOT_ID_LEN :: nat where
  "MAX_SNAPSHOT_ID_LEN = 64"

definition SC_SCHNORR_SIGNATURE_HEX_LEN :: nat where
  "SC_SCHNORR_SIGNATURE_HEX_LEN = 128"

definition IDENA_RECOVERABLE_SIGNATURE_HEX_LEN :: nat where
  "IDENA_RECOVERABLE_SIGNATURE_HEX_LEN = 130"

definition SC_P2WPKH_SCRIPT_HEX_LEN :: nat where
  "SC_P2WPKH_SCRIPT_HEX_LEN = 44"

definition SC_P2TR_SCRIPT_HEX_LEN :: nat where
  "SC_P2TR_SCRIPT_HEX_LEN = 68"

definition BITCOIN_HEADER_BYTES :: nat where
  "BITCOIN_HEADER_BYTES = 80"

definition BITCOIN_HEADER_HEX_LEN :: nat where
  "BITCOIN_HEADER_HEX_LEN = BITCOIN_HEADER_BYTES * 2"

definition BITCOIN_TEMPLATE_PREFIX_BYTES :: nat where
  "BITCOIN_TEMPLATE_PREFIX_BYTES = 76"

definition BITCOIN_NONCE_BYTES :: nat where
  "BITCOIN_NONCE_BYTES = 4"

definition BITCOIN_NONCE_HEX_LEN :: nat where
  "BITCOIN_NONCE_HEX_LEN = BITCOIN_NONCE_BYTES * 2"

definition LEGACY_BITCOIN_WORK_TEMPLATE_VERSION :: u16 where
  "LEGACY_BITCOIN_WORK_TEMPLATE_VERSION = 1"

definition TARGET_BOUND_BITCOIN_WORK_TEMPLATE_VERSION :: u16 where
  "TARGET_BOUND_BITCOIN_WORK_TEMPLATE_VERSION = 2"

definition IDENA_ANCHORED_BITCOIN_WORK_TEMPLATE_VERSION :: u16 where
  "IDENA_ANCHORED_BITCOIN_WORK_TEMPLATE_VERSION = 3"

definition LEGACY_MINER_REGISTRATION_VERSION :: u16 where
  "LEGACY_MINER_REGISTRATION_VERSION = 1"

definition IDENA_ANCHORED_MINER_REGISTRATION_VERSION :: u16 where
  "IDENA_ANCHORED_MINER_REGISTRATION_VERSION = 2"

lemmas length_constants = MAX_MINER_ID_LEN_def MAX_SNAPSHOT_ID_LEN_def SC_SCHNORR_SIGNATURE_HEX_LEN_def
  IDENA_RECOVERABLE_SIGNATURE_HEX_LEN_def SC_P2WPKH_SCRIPT_HEX_LEN_def SC_P2TR_SCRIPT_HEX_LEN_def
  BITCOIN_HEADER_BYTES_def BITCOIN_HEADER_HEX_LEN_def BITCOIN_TEMPLATE_PREFIX_BYTES_def
  BITCOIN_NONCE_BYTES_def BITCOIN_NONCE_HEX_LEN_def

lemmas version_constants = LEGACY_BITCOIN_WORK_TEMPLATE_VERSION_def
  TARGET_BOUND_BITCOIN_WORK_TEMPLATE_VERSION_def IDENA_ANCHORED_BITCOIN_WORK_TEMPLATE_VERSION_def
  LEGACY_MINER_REGISTRATION_VERSION_def IDENA_ANCHORED_MINER_REGISTRATION_VERSION_def

section \<open>Messages\<close>

record MinerRegistration =
  reg_version :: u16
  reg_miner_id :: string
  reg_idena_address :: string
  reg_btc_payout_script_hex :: string
  reg_claim_owner_pubkey_hex :: string
  reg_mining_pubkey_hex :: string
  reg_registry_anchor :: "MinerRegistryAnchorV1 option"
  reg_idena_signature_hex :: string
  reg_mining_signature_hex :: string

record BitcoinWorkTemplate =
  bt_version :: u16
  bt_miner_id :: string
  bt_header_prefix_hex :: string
  bt_template_hash :: string
  bt_assigned_share_target :: "string option"
  bt_idena_anchor :: "IdenaBlockAnchorV1 option"
  bt_idena_anchor_policy_hash :: "string option"
  bt_created_at_unix :: int
  bt_mining_signature_hex :: string

record Share =
  sh_miner_id :: string
  sh_bitcoin_header_hex :: string
  sh_bitcoin_template_hash :: string
  sh_nonce_hex :: string
  sh_work_hash :: string
  sh_target :: string
  sh_idena_snapshot_id :: string
  sh_idena_snapshot_proof_root :: string
  sh_hashrate_score_delta :: Score
  sh_parent_share_hash :: string
  sh_work_binding :: "ShareWorkBindingV1 option"
  sh_mining_signature_hex :: string

record SnapshotVote =
  sv_voter_miner_id :: string
  sv_snapshot_day :: string
  sv_idena_height :: u64
  sv_score_root :: string
  sv_signature_hex :: string

datatype SharechainMessage =
    MsgMinerRegistration MinerRegistration
  | MsgBitcoinWorkTemplate BitcoinWorkTemplate
  | MsgShare Share
  | MsgSharechainCheckpoint SharechainCheckpointAnchorV1
  | MsgSnapshotVote SnapshotVote
  | MsgPayoutSchedule PayoutSchedule
  | MsgWithdrawalRequest WithdrawalRequest
  | MsgWithdrawalBatch WithdrawalBatch
  | MsgPohwCommitment PohwCommitment

datatype SharechainError =
    InvalidMiningPubkey string
  | MissingMiningSignature
  | InvalidMiningSignature string
  | InvalidIdenaSignature string
  | IdenaAddressSignatureMismatch string string
  | InvalidPayoutScript string
  | InvalidClaimOwnerPubkey string
  | InvalidMinerId string string
  | InvalidIdenaAddress string
  | InvalidField string string
  | ZeroShareScore
  | ZeroShareTarget
  | ShareTargetAboveLimit
  | UnsupportedBitcoinWorkTemplateVersion u16
  | UnsupportedMinerRegistrationVersion u16
  | UnexpectedMinerRegistryAnchor
  | MissingMinerRegistryAnchor
  | MinerRegistryCommitmentMismatch
  | InvalidMinerRegistryAnchor string
  | UnexpectedAssignedShareTarget
  | MissingAssignedShareTarget
  | UnexpectedIdenaBlockAnchor
  | MissingIdenaBlockAnchor
  | UnexpectedIdenaAnchorPolicyHash
  | MissingIdenaAnchorPolicyHash
  | InvalidIdenaBlockAnchor string
  | TargetBoundBitcoinWorkTemplateRequired
  | AssignedShareTargetMismatch string string
  | ShareTemplateHashMismatch string string
  | ShareNonceMismatch string string
  | ShareWorkHashMismatch string string
  | ShareWorkAboveTarget
  | ShareScoreMismatch Score Score
  | MissingShareWorkBinding
  | ShareWorkBindingMismatch string
  | InvalidShareWorkBinding ShareWorkBindingError

section \<open>Field checks and decoding\<close>

definition validate_hex_exact_len :: "string \<Rightarrow> string \<Rightarrow> nat \<Rightarrow> (SharechainError, unit) res" where
  "validate_hex_exact_len field v expected_hex_len =
     (if length v \<noteq> expected_hex_len \<or> \<not> list_all is_ascii_hexdigit v
      then Err (InvalidField field (''must be '' @ dec (expected_hex_len div 2) @ '' bytes encoded as '' @
        dec expected_hex_len @ '' hex characters''))
      else Ok ())"

definition validate_hex_32 :: "string \<Rightarrow> string \<Rightarrow> (SharechainError, unit) res" where
  "validate_hex_32 field v = validate_hex_exact_len field v 64"

definition validate_bitcoin_header_hex :: "string \<Rightarrow> (SharechainError, unit) res" where
  "validate_bitcoin_header_hex v = validate_hex_exact_len ''bitcoin_header_hex'' v BITCOIN_HEADER_HEX_LEN"

definition validate_bitcoin_header_prefix_hex :: "string \<Rightarrow> (SharechainError, unit) res" where
  "validate_bitcoin_header_prefix_hex v =
     validate_hex_exact_len ''header_prefix_hex'' v (BITCOIN_TEMPLATE_PREFIX_BYTES * 2)"

text \<open>Decoding into a fixed-size array: \<open>try_into\<close> rejects any other length.\<close>

definition decode_array :: "extern \<Rightarrow> string \<Rightarrow> string \<Rightarrow> nat \<Rightarrow> string \<Rightarrow> (SharechainError, bytes) res" where
  "decode_array X field v n msg =
     bindR (lift_ext (InvalidField field) (hex_decode X (to_ascii_lowercase v))) (\<lambda>bs.
     if length bs \<noteq> n then Err (InvalidField field msg) else Ok bs)"

definition decode_hex_32 :: "extern \<Rightarrow> string \<Rightarrow> string \<Rightarrow> (SharechainError, bytes) res" where
  "decode_hex_32 X field v =
     bindR (validate_hex_32 field v) (\<lambda>_. decode_array X field v 32 ''must be exactly 32 bytes'')"

definition decode_bitcoin_header_hex :: "extern \<Rightarrow> string \<Rightarrow> (SharechainError, bytes) res" where
  "decode_bitcoin_header_hex X v =
     bindR (validate_bitcoin_header_hex v) (\<lambda>_. decode_array X ''bitcoin_header_hex'' v BITCOIN_HEADER_BYTES
       (''must be exactly '' @ dec BITCOIN_HEADER_BYTES @ '' bytes''))"

definition decode_bitcoin_header_prefix_hex :: "extern \<Rightarrow> string \<Rightarrow> (SharechainError, bytes) res" where
  "decode_bitcoin_header_prefix_hex X v =
     bindR (validate_bitcoin_header_prefix_hex v) (\<lambda>_. decode_array X ''header_prefix_hex'' v
       BITCOIN_TEMPLATE_PREFIX_BYTES (''must be exactly '' @ dec BITCOIN_TEMPLATE_PREFIX_BYTES @ '' bytes''))"

definition sc_validate_miner_id :: "string \<Rightarrow> string \<Rightarrow> (SharechainError, unit) res" where
  "sc_validate_miner_id field v =
     (if v = [] \<or> length v > MAX_MINER_ID_LEN
      then Err (InvalidMinerId field (''length must be 1..='' @ dec MAX_MINER_ID_LEN))
      else if \<not> list_all (\<lambda>c. is_ascii_alphanumeric c \<or> c \<in> {CHR ''-'', CHR ''_'', CHR ''.''}) v
      then Err (InvalidMinerId field (''only ASCII letters, digits, '' @ quoted ''-'' @ '', '' @ quoted ''_'' @
        '', and '' @ quoted ''.'' @ '' are allowed''))
      else Ok ())"

definition sc_validate_idena_address :: "string \<Rightarrow> (SharechainError, unit) res" where
  "sc_validate_idena_address v =
     (case (case strip_prefix ''0x'' v of Some h \<Rightarrow> Some h | None \<Rightarrow> strip_prefix ''0X'' v) of
        None \<Rightarrow> Err (InvalidIdenaAddress ''address must start with 0x'')
      | Some h \<Rightarrow>
          if length h \<noteq> 40 \<or> \<not> list_all is_ascii_hexdigit h
          then Err (InvalidIdenaAddress ''address must contain 20 bytes encoded as 40 hex characters'')
          else Ok ())"

definition sc_validate_snapshot_id :: "string \<Rightarrow> (SharechainError, unit) res" where
  "sc_validate_snapshot_id v =
     (if v = [] \<or> length v > MAX_SNAPSHOT_ID_LEN
      then Err (InvalidField ''idena_snapshot_id'' (''length must be 1..='' @ dec MAX_SNAPSHOT_ID_LEN))
      else if \<not> list_all (\<lambda>c. is_ascii_alphanumeric c \<or> c \<in> set ''-_.:'') v
      then Err (InvalidField ''idena_snapshot_id'' ''contains unsupported characters'')
      else Ok ())"

definition validate_direct_payout_script :: "extern \<Rightarrow> string \<Rightarrow> (SharechainError, unit) res" where
  "validate_direct_payout_script X script_hex =
     (if length script_hex \<notin> {SC_P2WPKH_SCRIPT_HEX_LEN, SC_P2TR_SCRIPT_HEX_LEN}
       \<or> \<not> list_all is_ascii_hexdigit script_hex
      then Err (InvalidPayoutScript ''direct payout script must be P2WPKH or P2TR hex'')
      else bindR (lift_ext InvalidPayoutScript (hex_decode X (to_ascii_lowercase script_hex))) (\<lambda>script.
        if is_p2wpkh X script \<or> is_p2tr X script then Ok ()
        else Err (InvalidPayoutScript ''only P2WPKH and P2TR direct payout scripts are supported'')))"

section \<open>Share targets\<close>

text \<open>Targets are 32 big-endian bytes; arrays compare lexicographically.\<close>

definition max_share_target_bytes :: "extern \<Rightarrow> bytes" where
  "max_share_target_bytes X = max_attainable_regtest X"

definition share_score_from_target :: "extern \<Rightarrow> bytes \<Rightarrow> (SharechainError, Score) res" where
  "share_score_from_target X target =
     (if list_all (\<lambda>b. b = 0) target then Err ZeroShareTarget
      else if target > max_share_target_bytes X then Err ShareTargetAboveLimit
      else Ok (regtest_difficulty X target))"

definition validate_share_target_hex :: "extern \<Rightarrow> string \<Rightarrow> (SharechainError, unit) res" where
  "validate_share_target_hex X target_hex =
     bindR (decode_hex_32 X ''target'' target_hex) (\<lambda>target.
     if list_all (\<lambda>b. b = 0) target then Err ZeroShareTarget
     else if target > max_share_target_bytes X then Err ShareTargetAboveLimit
     else Ok ())"

definition expected_hashrate_score_delta_for_target :: "extern \<Rightarrow> string \<Rightarrow> (SharechainError, Score) res" where
  "expected_hashrate_score_delta_for_target X target_hex =
     bindR (decode_hex_32 X ''target'' target_hex) (share_score_from_target X)"

definition expected_hashrate_score_delta :: "extern \<Rightarrow> Share \<Rightarrow> (SharechainError, Score) res" where
  "expected_hashrate_score_delta X s = expected_hashrate_score_delta_for_target X (sh_target s)"

section \<open>Signatures\<close>

definition verify_signature_with :: "extern \<Rightarrow> string \<Rightarrow> string \<Rightarrow> bytes \<Rightarrow> (SharechainError, unit) res" where
  "verify_signature_with X mining_pubkey_hex signature_hex signing_hash =
     (if signature_hex = [] then Err MissingMiningSignature
      else if length signature_hex \<noteq> SC_SCHNORR_SIGNATURE_HEX_LEN \<or> \<not> list_all is_ascii_hexdigit signature_hex
      then Err (InvalidMiningSignature
        (''signature must be '' @ dec SC_SCHNORR_SIGNATURE_HEX_LEN @ '' hex characters''))
      else
      bindR (lift_ext InvalidMiningPubkey (xonly_from_str X (to_ascii_lowercase mining_pubkey_hex))) (\<lambda>mining_pubkey.
      bindR (lift_ext InvalidMiningSignature (hex_decode X (to_ascii_lowercase signature_hex))) (\<lambda>signature_bytes.
      bindR (lift_ext InvalidMiningSignature (schnorr_from_slice X signature_bytes)) (\<lambda>signature.
      lift_ext InvalidMiningSignature (verify_schnorr X signature signing_hash mining_pubkey)))))"

definition keccak256 :: "extern \<Rightarrow> bytes \<Rightarrow> bytes" where
  "keccak256 X d = keccak_v256 X d"

definition idena_signin_hash :: "extern \<Rightarrow> string \<Rightarrow> bytes" where
  "idena_signin_hash X challenge = keccak256 X (keccak256 X (as_bytes challenge))"

definition idena_address_from_pubkey :: "extern \<Rightarrow> bytes \<Rightarrow> string" where
  "idena_address_from_pubkey X pubkey =
     (let hash = keccak256 X (drop 1 (serialize_uncompressed X pubkey)) in ''0x'' @ hex_encode X (drop 12 hash))"

definition idena_recovery_id :: "extern \<Rightarrow> u8 \<Rightarrow> (string, int) res" where
  "idena_recovery_id X v =
     (if v \<le> 3 then lift_ext (\<lambda>e. e) (recovery_id_from_i32 X (uint v))
      else if 27 \<le> v \<and> v \<le> 30 then lift_ext (\<lambda>e. e) (recovery_id_from_i32 X (uint (v - 27)))
      else Err (''unsupported recovery id '' @ show_word v))"

definition decode_recoverable_idena_signature :: "extern \<Rightarrow> string \<Rightarrow> (string, bytes) res" where
  "decode_recoverable_idena_signature X signature_hex =
     (let normalized = to_ascii_lowercase (unwrap_prefix_0x signature_hex) in
     if length normalized \<noteq> IDENA_RECOVERABLE_SIGNATURE_HEX_LEN \<or> \<not> list_all is_ascii_hexdigit normalized
     then Err (''signature must be 65 bytes encoded as '' @ dec IDENA_RECOVERABLE_SIGNATURE_HEX_LEN @ '' hex characters'')
     else bindR (lift_ext (\<lambda>e. e) (hex_decode X normalized)) (\<lambda>bs.
       if length bs \<noteq> 65 then Err ''signature must be 65 bytes encoded as 130 hex characters'' else Ok bs))"

definition recover_idena_signin_address :: "extern \<Rightarrow> string \<Rightarrow> string \<Rightarrow> (SharechainError, string) res" where
  "recover_idena_signin_address X challenge signature_hex =
     bindR (map_err InvalidIdenaSignature (decode_recoverable_idena_signature X signature_hex)) (\<lambda>signature_bytes.
     bindR (map_err InvalidIdenaSignature (idena_recovery_id X (signature_bytes ! 64))) (\<lambda>recovery_id.
     bindR (lift_ext InvalidIdenaSignature (recoverable_from_compact X (take 64 signature_bytes) recovery_id)) (\<lambda>signature.
     bindR (lift_ext InvalidIdenaSignature (recover_ecdsa X (idena_signin_hash X challenge) signature)) (\<lambda>pubkey.
     Ok (idena_address_from_pubkey X pubkey)))))"

section \<open>Miner registrations\<close>

definition normalized_registration :: "MinerRegistration \<Rightarrow> MinerRegistration" where
  "normalized_registration r = r\<lparr>
     reg_miner_id := to_ascii_lowercase (reg_miner_id r),
     reg_idena_address := to_ascii_lowercase (reg_idena_address r),
     reg_btc_payout_script_hex := to_ascii_lowercase (reg_btc_payout_script_hex r),
     reg_claim_owner_pubkey_hex := to_ascii_lowercase (reg_claim_owner_pubkey_hex r),
     reg_mining_pubkey_hex := to_ascii_lowercase (reg_mining_pubkey_hex r),
     reg_registry_anchor := map_option normalized_registry_anchor (reg_registry_anchor r),
     reg_idena_signature_hex := to_ascii_lowercase (reg_idena_signature_hex r),
     reg_mining_signature_hex := to_ascii_lowercase (reg_mining_signature_hex r)\<rparr>"

definition json_MinerRegistryAnchorV1 :: "MinerRegistryAnchorV1 \<Rightarrow> json" where
  "json_MinerRegistryAnchorV1 a = JObj [
     (''contract_address'', JStr (mr_contract_address a)),
     (''experiment_id'', JStr (mr_experiment_id a)),
     (''registration_sequence'', JUInt (mr_registration_sequence a)),
     (''registration_block'', JUInt (mr_registration_block a)),
     (''registration_epoch'', JUInt (mr_registration_epoch a)),
     (''registration_timestamp'', JNum (mr_registration_timestamp a)),
     (''registration_commitment'', JStr (mr_registration_commitment a))]"

text \<open>\<open>skip_serializing_if = "is_legacy_miner_registration_version"\<close> and its twin for templates.\<close>

definition version_field :: "u16 \<Rightarrow> u16 \<Rightarrow> (string \<times> json) list" where
  "version_field legacy v = (if v = legacy then [] else [(''version'', JUInt v)])"

definition MinerRegistrationSigningPayload :: "MinerRegistration \<Rightarrow> json" where
  "MinerRegistrationSigningPayload r = JObj (
     version_field LEGACY_MINER_REGISTRATION_VERSION (reg_version r) @ [
     (''miner_id'', JStr (to_ascii_lowercase (reg_miner_id r))),
     (''idena_address'', JStr (to_ascii_lowercase (reg_idena_address r))),
     (''btc_payout_script_hex'', JStr (to_ascii_lowercase (reg_btc_payout_script_hex r))),
     (''claim_owner_pubkey_hex'', JStr (to_ascii_lowercase (reg_claim_owner_pubkey_hex r))),
     (''mining_pubkey_hex'', JStr (to_ascii_lowercase (reg_mining_pubkey_hex r)))] @
     opt_field ''registry_anchor'' json_MinerRegistryAnchorV1
       (map_option normalized_registry_anchor (reg_registry_anchor r)))"

definition registration_signing_hash :: "extern \<Rightarrow> MinerRegistration \<Rightarrow> bytes" where
  "registration_signing_hash X r = sha256_tagged X
     (as_bytes (if reg_version r = LEGACY_MINER_REGISTRATION_VERSION
       then ''POHW1_MINER_REGISTRATION'' else ''POHW2_MINER_REGISTRATION''))
     (canonical_json X (MinerRegistrationSigningPayload r))"

definition MinerRegistryCommitmentPayload :: "string \<Rightarrow> MinerRegistration \<Rightarrow> json" where
  "MinerRegistryCommitmentPayload experiment_id r = JObj [
     (''schema_version'', JNum 1),
     (''experiment_id'', JStr experiment_id),
     (''miner_id'', JStr (to_ascii_lowercase (reg_miner_id r))),
     (''idena_address'', JStr (to_ascii_lowercase (reg_idena_address r))),
     (''btc_payout_script_hex'', JStr (to_ascii_lowercase (reg_btc_payout_script_hex r))),
     (''claim_owner_pubkey_hex'', JStr (to_ascii_lowercase (reg_claim_owner_pubkey_hex r))),
     (''mining_pubkey_hex'', JStr (to_ascii_lowercase (reg_mining_pubkey_hex r)))]"

definition registry_commitment_hash :: "extern \<Rightarrow> MinerRegistration \<Rightarrow> string \<Rightarrow> (SharechainError, string) res" where
  "registry_commitment_hash X r experiment_id0 = (let experiment_id = to_ascii_lowercase experiment_id0 in
     bindR (map_err (\<lambda>e. InvalidMinerRegistryAnchor (anchor_error_string e)) (validate_experiment_id experiment_id)) (\<lambda>_.
     Ok (hash_hex X (sha256_tagged X (as_bytes ''POHW_MINER_REGISTRY_COMMITMENT_V1'')
       (canonical_json X (MinerRegistryCommitmentPayload experiment_id r))))))"

definition attach_registry_anchor ::
  "extern \<Rightarrow> MinerRegistration \<Rightarrow> MinerRegistryAnchorV1 \<Rightarrow> (SharechainError, MinerRegistration) res" where
  "attach_registry_anchor X r anchor0 = (let anchor = normalized_registry_anchor anchor0 in
     bindR (map_err (\<lambda>e. InvalidMinerRegistryAnchor (anchor_error_string e)) (validate_registry anchor)) (\<lambda>_.
     bindR (registry_commitment_hash X r (mr_experiment_id anchor)) (\<lambda>expected.
     if expected \<noteq> mr_registration_commitment anchor then Err MinerRegistryCommitmentMismatch
     else Ok (r\<lparr>reg_version := IDENA_ANCHORED_MINER_REGISTRATION_VERSION, reg_registry_anchor := Some anchor\<rparr>))))"

definition reg_validate_registry_anchor :: "extern \<Rightarrow> MinerRegistration \<Rightarrow> (SharechainError, unit) res" where
  "reg_validate_registry_anchor X r =
     (if reg_version r = LEGACY_MINER_REGISTRATION_VERSION then
        (if reg_registry_anchor r \<noteq> None then Err UnexpectedMinerRegistryAnchor else Ok ())
      else if reg_version r = IDENA_ANCHORED_MINER_REGISTRATION_VERSION then
        bindR (ok_or MissingMinerRegistryAnchor (reg_registry_anchor r)) (\<lambda>anchor.
        bindR (map_err (\<lambda>e. InvalidMinerRegistryAnchor (anchor_error_string e)) (validate_registry anchor)) (\<lambda>_.
        bindR (registry_commitment_hash X r (mr_experiment_id anchor)) (\<lambda>h.
        if h \<noteq> mr_registration_commitment anchor then Err MinerRegistryCommitmentMismatch else Ok ())))
      else Err (UnsupportedMinerRegistrationVersion (reg_version r)))"

definition require_registry_anchor :: "extern \<Rightarrow> MinerRegistration \<Rightarrow> (SharechainError, MinerRegistryAnchorV1) res" where
  "require_registry_anchor X r =
     bindR (reg_validate_registry_anchor X r) (\<lambda>_. ok_or MissingMinerRegistryAnchor (reg_registry_anchor r))"

definition idena_ownership_challenge :: "extern \<Rightarrow> MinerRegistration \<Rightarrow> string" where
  "idena_ownership_challenge X r =
     ''signin-pohw1-miner-registration-'' @ hex_encode X (registration_signing_hash X r)"

definition verify_idena_ownership_signature :: "extern \<Rightarrow> MinerRegistration \<Rightarrow> (SharechainError, unit) res" where
  "verify_idena_ownership_signature X r =
     bindR (recover_idena_signin_address X (idena_ownership_challenge X r) (reg_idena_signature_hex r)) (\<lambda>recovered.
     let claimed = to_ascii_lowercase (reg_idena_address r) in
     if recovered \<noteq> claimed then Err (IdenaAddressSignatureMismatch claimed recovered) else Ok ())"

definition registration_verify_mining_signature :: "extern \<Rightarrow> MinerRegistration \<Rightarrow> (SharechainError, unit) res" where
  "registration_verify_mining_signature X r =
     bindR (sc_validate_miner_id ''miner_id'' (reg_miner_id r)) (\<lambda>_.
     bindR (sc_validate_idena_address (reg_idena_address r)) (\<lambda>_.
     bindR (reg_validate_registry_anchor X r) (\<lambda>_.
     bindR (map_err InvalidIdenaSignature (decode_recoverable_idena_signature X (reg_idena_signature_hex r))) (\<lambda>_.
     bindR (validate_direct_payout_script X (reg_btc_payout_script_hex r)) (\<lambda>_.
     bindR (lift_ext InvalidClaimOwnerPubkey (xonly_from_str X (to_ascii_lowercase (reg_claim_owner_pubkey_hex r)))) (\<lambda>_.
     verify_signature_with X (reg_mining_pubkey_hex r) (reg_mining_signature_hex r) (registration_signing_hash X r)))))))"

section \<open>Work templates\<close>

definition normalized_template :: "BitcoinWorkTemplate \<Rightarrow> BitcoinWorkTemplate" where
  "normalized_template t = t\<lparr>
     bt_miner_id := to_ascii_lowercase (bt_miner_id t),
     bt_header_prefix_hex := to_ascii_lowercase (bt_header_prefix_hex t),
     bt_template_hash := to_ascii_lowercase (bt_template_hash t),
     bt_assigned_share_target := map_option to_ascii_lowercase (bt_assigned_share_target t),
     bt_idena_anchor := map_option normalized_block_anchor (bt_idena_anchor t),
     bt_idena_anchor_policy_hash := map_option to_ascii_lowercase (bt_idena_anchor_policy_hash t),
     bt_mining_signature_hex := to_ascii_lowercase (bt_mining_signature_hex t)\<rparr>"

definition template_hash_for_header_prefix_hex :: "extern \<Rightarrow> string \<Rightarrow> (SharechainError, string) res" where
  "template_hash_for_header_prefix_hex X header_prefix_hex =
     bindR (decode_bitcoin_header_prefix_hex X header_prefix_hex) (\<lambda>header_prefix.
     Ok (hash_hex X (sha256_tagged X (as_bytes ''POHW1_BTC_TEMPLATE'') header_prefix)))"

definition TargetBoundBitcoinWorkTemplateHashPayload :: "string \<Rightarrow> string \<Rightarrow> json" where
  "TargetBoundBitcoinWorkTemplateHashPayload header_prefix_hex assigned_share_target = JObj [
     (''version'', JUInt TARGET_BOUND_BITCOIN_WORK_TEMPLATE_VERSION),
     (''header_prefix_hex'', JStr header_prefix_hex),
     (''assigned_share_target'', JStr assigned_share_target)]"

definition target_bound_template_hash_for_header_prefix_hex ::
  "extern \<Rightarrow> string \<Rightarrow> string \<Rightarrow> (SharechainError, string) res" where
  "target_bound_template_hash_for_header_prefix_hex X header_prefix_hex assigned_share_target0 =
     bindR (decode_bitcoin_header_prefix_hex X header_prefix_hex) (\<lambda>header_prefix.
     let assigned_share_target = to_ascii_lowercase assigned_share_target0 in
     bindR (validate_share_target_hex X assigned_share_target) (\<lambda>_.
     Ok (hash_hex X (sha256_tagged X (as_bytes ''POHW2_BTC_TEMPLATE'')
       (canonical_json X (TargetBoundBitcoinWorkTemplateHashPayload (hex_encode X header_prefix) assigned_share_target))))))"

definition IdenaAnchoredBitcoinWorkTemplateHashPayload ::
  "string \<Rightarrow> string \<Rightarrow> IdenaBlockAnchorV1 \<Rightarrow> string \<Rightarrow> json" where
  "IdenaAnchoredBitcoinWorkTemplateHashPayload header_prefix_hex assigned_share_target anchor policy_hash = JObj [
     (''version'', JUInt IDENA_ANCHORED_BITCOIN_WORK_TEMPLATE_VERSION),
     (''header_prefix_hex'', JStr header_prefix_hex),
     (''assigned_share_target'', JStr assigned_share_target),
     (''idena_anchor'', json_IdenaBlockAnchorV1 anchor),
     (''idena_anchor_policy_hash'', JStr policy_hash)]"

definition idena_anchored_template_hash_for_header_prefix_hex ::
  "extern \<Rightarrow> string \<Rightarrow> string \<Rightarrow> IdenaBlockAnchorV1 \<Rightarrow> string \<Rightarrow> (SharechainError, string) res" where
  "idena_anchored_template_hash_for_header_prefix_hex X header_prefix_hex assigned_share_target0 anchor0 policy_hash0 =
     bindR (decode_bitcoin_header_prefix_hex X header_prefix_hex) (\<lambda>header_prefix.
     let assigned_share_target = to_ascii_lowercase assigned_share_target0;
         policy_hash = to_ascii_lowercase policy_hash0 in
     bindR (validate_share_target_hex X assigned_share_target) (\<lambda>_.
     bindR (validate_hex_32 ''idena_anchor_policy_hash'' policy_hash) (\<lambda>_.
     let anchor = normalized_block_anchor anchor0 in
     bindR (map_err (\<lambda>e. InvalidIdenaBlockAnchor (anchor_error_string e)) (validate_block_anchor anchor)) (\<lambda>_.
     Ok (hash_hex X (sha256_tagged X (as_bytes ''POHW3_BTC_TEMPLATE'')
       (canonical_json X (IdenaAnchoredBitcoinWorkTemplateHashPayload (hex_encode X header_prefix)
         assigned_share_target anchor policy_hash))))))))"

definition template_new_unsigned :: "extern \<Rightarrow> string \<Rightarrow> string \<Rightarrow> int \<Rightarrow> (SharechainError, BitcoinWorkTemplate) res" where
  "template_new_unsigned X miner_id header_prefix_hex created_at_unix =
     bindR (template_hash_for_header_prefix_hex X header_prefix_hex) (\<lambda>template_hash.
     Ok \<lparr>bt_version = LEGACY_BITCOIN_WORK_TEMPLATE_VERSION, bt_miner_id = miner_id,
         bt_header_prefix_hex = header_prefix_hex, bt_template_hash = template_hash,
         bt_assigned_share_target = None, bt_idena_anchor = None, bt_idena_anchor_policy_hash = None,
         bt_created_at_unix = created_at_unix, bt_mining_signature_hex = []\<rparr>)"

definition new_target_bound_unsigned ::
  "extern \<Rightarrow> string \<Rightarrow> string \<Rightarrow> string \<Rightarrow> int \<Rightarrow> (SharechainError, BitcoinWorkTemplate) res" where
  "new_target_bound_unsigned X miner_id header_prefix_hex assigned_share_target0 created_at_unix =
     (let assigned_share_target = to_ascii_lowercase assigned_share_target0 in
     bindR (validate_share_target_hex X assigned_share_target) (\<lambda>_.
     bindR (target_bound_template_hash_for_header_prefix_hex X header_prefix_hex assigned_share_target) (\<lambda>template_hash.
     Ok \<lparr>bt_version = TARGET_BOUND_BITCOIN_WORK_TEMPLATE_VERSION, bt_miner_id = miner_id,
         bt_header_prefix_hex = header_prefix_hex, bt_template_hash = template_hash,
         bt_assigned_share_target = Some assigned_share_target, bt_idena_anchor = None,
         bt_idena_anchor_policy_hash = None,
         bt_created_at_unix = created_at_unix, bt_mining_signature_hex = []\<rparr>)))"

definition new_idena_anchored_target_bound_unsigned ::
  "extern \<Rightarrow> string \<Rightarrow> string \<Rightarrow> string \<Rightarrow> IdenaBlockAnchorV1 \<Rightarrow> string \<Rightarrow> int \<Rightarrow> (SharechainError, BitcoinWorkTemplate) res" where
  "new_idena_anchored_target_bound_unsigned X miner_id header_prefix_hex assigned_share_target0 anchor0 policy_hash0 created_at_unix =
     (let assigned_share_target = to_ascii_lowercase assigned_share_target0;
          anchor = normalized_block_anchor anchor0;
          policy_hash = to_ascii_lowercase policy_hash0 in
     bindR (validate_share_target_hex X assigned_share_target) (\<lambda>_.
     bindR (validate_hex_32 ''idena_anchor_policy_hash'' policy_hash) (\<lambda>_.
     bindR (map_err (\<lambda>e. InvalidIdenaBlockAnchor (anchor_error_string e)) (validate_block_anchor anchor)) (\<lambda>_.
     bindR (idena_anchored_template_hash_for_header_prefix_hex X header_prefix_hex assigned_share_target anchor policy_hash) (\<lambda>template_hash.
     Ok \<lparr>bt_version = IDENA_ANCHORED_BITCOIN_WORK_TEMPLATE_VERSION, bt_miner_id = miner_id,
         bt_header_prefix_hex = header_prefix_hex, bt_template_hash = template_hash,
         bt_assigned_share_target = Some assigned_share_target, bt_idena_anchor = Some anchor,
         bt_idena_anchor_policy_hash = Some policy_hash,
         bt_created_at_unix = created_at_unix, bt_mining_signature_hex = []\<rparr>)))))"

definition from_bitcoin_header_hex :: "extern \<Rightarrow> string \<Rightarrow> string \<Rightarrow> int \<Rightarrow> (SharechainError, BitcoinWorkTemplate) res" where
  "from_bitcoin_header_hex X miner_id bitcoin_header_hex created_at_unix =
     bindR (decode_bitcoin_header_hex X bitcoin_header_hex) (\<lambda>header.
     template_new_unsigned X miner_id (hex_encode X (take BITCOIN_TEMPLATE_PREFIX_BYTES header)) created_at_unix)"

definition from_bitcoin_header_hex_with_share_target ::
  "extern \<Rightarrow> string \<Rightarrow> string \<Rightarrow> string \<Rightarrow> int \<Rightarrow> (SharechainError, BitcoinWorkTemplate) res" where
  "from_bitcoin_header_hex_with_share_target X miner_id bitcoin_header_hex assigned_share_target created_at_unix =
     bindR (decode_bitcoin_header_hex X bitcoin_header_hex) (\<lambda>header.
     new_target_bound_unsigned X miner_id (hex_encode X (take BITCOIN_TEMPLATE_PREFIX_BYTES header))
       assigned_share_target created_at_unix)"

definition from_bitcoin_header_hex_with_share_target_and_idena_anchor ::
  "extern \<Rightarrow> string \<Rightarrow> string \<Rightarrow> string \<Rightarrow> IdenaBlockAnchorV1 \<Rightarrow> string \<Rightarrow> int \<Rightarrow> (SharechainError, BitcoinWorkTemplate) res" where
  "from_bitcoin_header_hex_with_share_target_and_idena_anchor X miner_id bitcoin_header_hex assigned_share_target anchor policy_hash created_at_unix =
     bindR (decode_bitcoin_header_hex X bitcoin_header_hex) (\<lambda>header.
     new_idena_anchored_target_bound_unsigned X miner_id (hex_encode X (take BITCOIN_TEMPLATE_PREFIX_BYTES header))
       assigned_share_target anchor policy_hash created_at_unix)"

definition expected_template_hash :: "extern \<Rightarrow> BitcoinWorkTemplate \<Rightarrow> (SharechainError, string) res" where
  "expected_template_hash X t =
     (if bt_version t = LEGACY_BITCOIN_WORK_TEMPLATE_VERSION then
        (if bt_assigned_share_target t \<noteq> None then Err UnexpectedAssignedShareTarget
         else if bt_idena_anchor t \<noteq> None then Err UnexpectedIdenaBlockAnchor
         else if bt_idena_anchor_policy_hash t \<noteq> None then Err UnexpectedIdenaAnchorPolicyHash
         else template_hash_for_header_prefix_hex X (bt_header_prefix_hex t))
      else if bt_version t = TARGET_BOUND_BITCOIN_WORK_TEMPLATE_VERSION then
        (if bt_idena_anchor t \<noteq> None then Err UnexpectedIdenaBlockAnchor
         else if bt_idena_anchor_policy_hash t \<noteq> None then Err UnexpectedIdenaAnchorPolicyHash
         else bindR (ok_or MissingAssignedShareTarget (bt_assigned_share_target t)) (\<lambda>assigned_share_target.
         target_bound_template_hash_for_header_prefix_hex X (bt_header_prefix_hex t) assigned_share_target))
      else if bt_version t = IDENA_ANCHORED_BITCOIN_WORK_TEMPLATE_VERSION then
        bindR (ok_or MissingAssignedShareTarget (bt_assigned_share_target t)) (\<lambda>assigned_share_target.
        bindR (ok_or MissingIdenaBlockAnchor (bt_idena_anchor t)) (\<lambda>anchor.
        bindR (ok_or MissingIdenaAnchorPolicyHash (bt_idena_anchor_policy_hash t)) (\<lambda>policy_hash.
        idena_anchored_template_hash_for_header_prefix_hex X (bt_header_prefix_hex t) assigned_share_target anchor policy_hash)))
      else Err (UnsupportedBitcoinWorkTemplateVersion (bt_version t)))"

definition verify_template_hash :: "extern \<Rightarrow> BitcoinWorkTemplate \<Rightarrow> (SharechainError, unit) res" where
  "verify_template_hash X t =
     bindR (sc_validate_miner_id ''miner_id'' (bt_miner_id t)) (\<lambda>_.
     if bt_created_at_unix t \<le> 0 then Err (InvalidField ''created_at_unix'' ''must be greater than zero'')
     else bindR (expected_template_hash X t) (\<lambda>expected.
     if \<not> eq_ignore_ascii_case (bt_template_hash t) expected
     then Err (ShareTemplateHashMismatch expected (to_ascii_lowercase (bt_template_hash t)))
     else Ok ()))"

definition BitcoinWorkTemplateSigningPayload :: "BitcoinWorkTemplate \<Rightarrow> json" where
  "BitcoinWorkTemplateSigningPayload t = JObj (
     version_field LEGACY_BITCOIN_WORK_TEMPLATE_VERSION (bt_version t) @ [
     (''miner_id'', JStr (to_ascii_lowercase (bt_miner_id t))),
     (''header_prefix_hex'', JStr (to_ascii_lowercase (bt_header_prefix_hex t))),
     (''template_hash'', JStr (to_ascii_lowercase (bt_template_hash t)))] @
     opt_field ''assigned_share_target'' JStr (map_option to_ascii_lowercase (bt_assigned_share_target t)) @
     opt_field ''idena_anchor'' json_IdenaBlockAnchorV1 (map_option normalized_block_anchor (bt_idena_anchor t)) @
     opt_field ''idena_anchor_policy_hash'' JStr (map_option to_ascii_lowercase (bt_idena_anchor_policy_hash t)) @
     [(''created_at_unix'', JNum (bt_created_at_unix t))])"

definition template_signing_hash :: "extern \<Rightarrow> BitcoinWorkTemplate \<Rightarrow> bytes" where
  "template_signing_hash X t = sha256_tagged X (as_bytes ''POHW1_BITCOIN_WORK_TEMPLATE'')
     (canonical_json X (BitcoinWorkTemplateSigningPayload t))"

definition is_target_bound :: "BitcoinWorkTemplate \<Rightarrow> bool" where
  "is_target_bound t \<longleftrightarrow>
     (bt_version t = TARGET_BOUND_BITCOIN_WORK_TEMPLATE_VERSION \<or> bt_version t = IDENA_ANCHORED_BITCOIN_WORK_TEMPLATE_VERSION)
     \<and> bt_assigned_share_target t \<noteq> None"

definition is_idena_anchored :: "BitcoinWorkTemplate \<Rightarrow> bool" where
  "is_idena_anchored t \<longleftrightarrow> bt_version t = IDENA_ANCHORED_BITCOIN_WORK_TEMPLATE_VERSION
     \<and> bt_idena_anchor t \<noteq> None \<and> bt_idena_anchor_policy_hash t \<noteq> None"

definition u32_from_le_bytes :: "bytes \<Rightarrow> u32" where
  "u32_from_le_bytes bs = foldr (\<lambda>b acc. ucast b + 256 * acc) bs 0"

definition bitcoin_header_version :: "extern \<Rightarrow> BitcoinWorkTemplate \<Rightarrow> (SharechainError, u32) res" where
  "bitcoin_header_version X t =
     bindR (decode_bitcoin_header_prefix_hex X (bt_header_prefix_hex t)) (\<lambda>prefix.
     Ok (u32_from_le_bytes (take 4 prefix)))"

definition require_idena_anchor :: "extern \<Rightarrow> BitcoinWorkTemplate \<Rightarrow> (SharechainError, IdenaBlockAnchorV1) res" where
  "require_idena_anchor X t =
     bindR (verify_template_hash X t) (\<lambda>_.
     if \<not> is_idena_anchored t then Err MissingIdenaBlockAnchor
     else ok_or MissingIdenaBlockAnchor (bt_idena_anchor t))"

definition require_idena_anchor_policy_hash :: "extern \<Rightarrow> BitcoinWorkTemplate \<Rightarrow> (SharechainError, string) res" where
  "require_idena_anchor_policy_hash X t =
     bindR (verify_template_hash X t) (\<lambda>_.
     if \<not> is_idena_anchored t then Err MissingIdenaAnchorPolicyHash
     else ok_or MissingIdenaAnchorPolicyHash (bt_idena_anchor_policy_hash t))"

definition require_target_bound :: "extern \<Rightarrow> BitcoinWorkTemplate \<Rightarrow> (SharechainError, unit) res" where
  "require_target_bound X t =
     bindR (verify_template_hash X t) (\<lambda>_.
     if \<not> is_target_bound t then Err TargetBoundBitcoinWorkTemplateRequired else Ok ())"

definition verify_assigned_share_target :: "extern \<Rightarrow> BitcoinWorkTemplate \<Rightarrow> string \<Rightarrow> (SharechainError, unit) res" where
  "verify_assigned_share_target X t claimed_target =
     bindR (verify_template_hash X t) (\<lambda>_.
     if bt_version t = LEGACY_BITCOIN_WORK_TEMPLATE_VERSION then Ok () else
     bindR (ok_or MissingAssignedShareTarget (bt_assigned_share_target t)) (\<lambda>assigned.
     let expected = to_ascii_lowercase assigned; actual = to_ascii_lowercase claimed_target in
     bindR (validate_share_target_hex X actual) (\<lambda>_.
     if actual \<noteq> expected then Err (AssignedShareTargetMismatch expected actual) else Ok ())))"

definition template_verify_mining_signature :: "extern \<Rightarrow> BitcoinWorkTemplate \<Rightarrow> string \<Rightarrow> (SharechainError, unit) res" where
  "template_verify_mining_signature X t mining_pubkey_hex =
     bindR (verify_template_hash X t) (\<lambda>_.
     verify_signature_with X mining_pubkey_hex (bt_mining_signature_hex t) (template_signing_hash X t))"

section \<open>Shares\<close>

definition normalized_share :: "Share \<Rightarrow> Share" where
  "normalized_share s = s\<lparr>
     sh_miner_id := to_ascii_lowercase (sh_miner_id s),
     sh_bitcoin_header_hex := to_ascii_lowercase (sh_bitcoin_header_hex s),
     sh_bitcoin_template_hash := to_ascii_lowercase (sh_bitcoin_template_hash s),
     sh_nonce_hex := to_ascii_lowercase (sh_nonce_hex s),
     sh_work_hash := to_ascii_lowercase (sh_work_hash s),
     sh_target := to_ascii_lowercase (sh_target s),
     sh_idena_snapshot_id := to_ascii_lowercase (sh_idena_snapshot_id s),
     sh_idena_snapshot_proof_root := to_ascii_lowercase (sh_idena_snapshot_proof_root s),
     sh_parent_share_hash := to_ascii_lowercase (sh_parent_share_hash s),
     sh_work_binding := map_option normalized_binding (sh_work_binding s),
     sh_mining_signature_hex := to_ascii_lowercase (sh_mining_signature_hex s)\<rparr>"

definition ShareSigningPayload :: "Share \<Rightarrow> json" where
  "ShareSigningPayload s = JObj ([
     (''miner_id'', JStr (to_ascii_lowercase (sh_miner_id s))),
     (''bitcoin_header_hex'', JStr (to_ascii_lowercase (sh_bitcoin_header_hex s))),
     (''bitcoin_template_hash'', JStr (to_ascii_lowercase (sh_bitcoin_template_hash s))),
     (''nonce_hex'', JStr (to_ascii_lowercase (sh_nonce_hex s))),
     (''work_hash'', JStr (to_ascii_lowercase (sh_work_hash s))),
     (''target'', JStr (to_ascii_lowercase (sh_target s))),
     (''idena_snapshot_id'', JStr (to_ascii_lowercase (sh_idena_snapshot_id s))),
     (''idena_snapshot_proof_root'', JStr (to_ascii_lowercase (sh_idena_snapshot_proof_root s))),
     (''hashrate_score_delta'', JUInt (sh_hashrate_score_delta s)),
     (''parent_share_hash'', JStr (to_ascii_lowercase (sh_parent_share_hash s)))] @
     opt_field ''work_binding'' json_ShareWorkBindingV1 (map_option normalized_binding (sh_work_binding s)))"

definition share_signing_hash :: "extern \<Rightarrow> Share \<Rightarrow> bytes" where
  "share_signing_hash X s = sha256_tagged X (as_bytes ''POHW1_SHARE'') (canonical_json X (ShareSigningPayload s))"

definition bitcoin_header_prefix_hex :: "extern \<Rightarrow> Share \<Rightarrow> (SharechainError, string) res" where
  "bitcoin_header_prefix_hex X s =
     bindR (decode_bitcoin_header_hex X (sh_bitcoin_header_hex s)) (\<lambda>header.
     Ok (hex_encode X (take BITCOIN_TEMPLATE_PREFIX_BYTES header)))"

definition recomputed_bitcoin_template_hash :: "extern \<Rightarrow> Share \<Rightarrow> (SharechainError, string) res" where
  "recomputed_bitcoin_template_hash X s =
     bindR (bitcoin_header_prefix_hex X s) (template_hash_for_header_prefix_hex X)"

definition recomputed_target_bound_bitcoin_template_hash :: "extern \<Rightarrow> Share \<Rightarrow> (SharechainError, string) res" where
  "recomputed_target_bound_bitcoin_template_hash X s =
     bindR (bitcoin_header_prefix_hex X s) (\<lambda>p. target_bound_template_hash_for_header_prefix_hex X p (sh_target s))"

definition recomputed_idena_anchored_bitcoin_template_hash ::
  "extern \<Rightarrow> Share \<Rightarrow> IdenaBlockAnchorV1 \<Rightarrow> string \<Rightarrow> (SharechainError, string) res" where
  "recomputed_idena_anchored_bitcoin_template_hash X s anchor policy_hash =
     bindR (bitcoin_header_prefix_hex X s) (\<lambda>p.
     idena_anchored_template_hash_for_header_prefix_hex X p (sh_target s) anchor policy_hash)"

definition recomputed_nonce_hex :: "extern \<Rightarrow> Share \<Rightarrow> (SharechainError, string) res" where
  "recomputed_nonce_hex X s =
     bindR (decode_bitcoin_header_hex X (sh_bitcoin_header_hex s)) (\<lambda>header.
     Ok (hex_encode X (drop BITCOIN_TEMPLATE_PREFIX_BYTES (take BITCOIN_HEADER_BYTES header))))"

definition recomputed_work_hash :: "extern \<Rightarrow> Share \<Rightarrow> (SharechainError, string) res" where
  "recomputed_work_hash X s =
     bindR (decode_bitcoin_header_hex X (sh_bitcoin_header_hex s)) (\<lambda>header. Ok (sha256d_display X header))"

definition validate_share_fields :: "Share \<Rightarrow> (SharechainError, unit) res" where
  "validate_share_fields s =
     bindR (checks [
       sc_validate_miner_id ''miner_id'' (sh_miner_id s),
       validate_bitcoin_header_hex (sh_bitcoin_header_hex s),
       validate_hex_32 ''bitcoin_template_hash'' (sh_bitcoin_template_hash s),
       validate_hex_exact_len ''nonce_hex'' (sh_nonce_hex s) BITCOIN_NONCE_HEX_LEN,
       validate_hex_32 ''work_hash'' (sh_work_hash s),
       validate_hex_32 ''target'' (sh_target s),
       sc_validate_snapshot_id (sh_idena_snapshot_id s),
       validate_hex_32 ''idena_snapshot_proof_root'' (sh_idena_snapshot_proof_root s),
       validate_hex_32 ''parent_share_hash'' (sh_parent_share_hash s)]) (\<lambda>_.
     if sh_hashrate_score_delta s = 0 then Err ZeroShareScore else Ok ())"

definition verify_bitcoin_header_binding :: "extern \<Rightarrow> Share \<Rightarrow> (SharechainError, unit) res" where
  "verify_bitcoin_header_binding X s =
     bindR (recomputed_bitcoin_template_hash X s) (\<lambda>legacy_template_hash.
     bindR (recomputed_target_bound_bitcoin_template_hash X s) (\<lambda>target_bound_template_hash.
     if \<not> eq_ignore_ascii_case (sh_bitcoin_template_hash s) legacy_template_hash
       \<and> \<not> eq_ignore_ascii_case (sh_bitcoin_template_hash s) target_bound_template_hash
     then Err (ShareTemplateHashMismatch target_bound_template_hash (to_ascii_lowercase (sh_bitcoin_template_hash s)))
     else Ok ()))"

definition verify_nonce_binding :: "extern \<Rightarrow> Share \<Rightarrow> (SharechainError, unit) res" where
  "verify_nonce_binding X s =
     bindR (recomputed_nonce_hex X s) (\<lambda>expected_nonce.
     if \<not> eq_ignore_ascii_case (sh_nonce_hex s) expected_nonce
     then Err (ShareNonceMismatch expected_nonce (to_ascii_lowercase (sh_nonce_hex s)))
     else Ok ())"

definition verify_work_score :: "extern \<Rightarrow> Share \<Rightarrow> (SharechainError, unit) res" where
  "verify_work_score X s =
     bindR (recomputed_work_hash X s) (\<lambda>expected_work_hash.
     if \<not> eq_ignore_ascii_case (sh_work_hash s) expected_work_hash
     then Err (ShareWorkHashMismatch expected_work_hash (to_ascii_lowercase (sh_work_hash s)))
     else
     bindR (decode_hex_32 X ''work_hash'' (sh_work_hash s)) (\<lambda>work_hash.
     bindR (decode_hex_32 X ''target'' (sh_target s)) (\<lambda>target.
     if list_all (\<lambda>b. b = 0) target then Err ZeroShareTarget
     else if target > max_share_target_bytes X then Err ShareTargetAboveLimit
     else if work_hash > target then Err ShareWorkAboveTarget
     else bindR (share_score_from_target X target) (\<lambda>expected.
     if sh_hashrate_score_delta s \<noteq> expected
     then Err (ShareScoreMismatch expected (sh_hashrate_score_delta s))
     else Ok ()))))"

definition verify_present_work_binding_fields :: "extern \<Rightarrow> Share \<Rightarrow> (SharechainError, unit) res" where
  "verify_present_work_binding_fields X s = (case sh_work_binding s of
     None \<Rightarrow> Ok ()
   | Some binding \<Rightarrow>
       bindR (map_err InvalidShareWorkBinding (validate_binding_fields binding)) (\<lambda>_.
       if \<not> eq_ignore_ascii_case (sb_miner_id binding) (sh_miner_id s)
       then Err (ShareWorkBindingMismatch ''miner_id'')
       else if \<not> eq_ignore_ascii_case (sb_assigned_share_target binding) (sh_target s)
       then Err (ShareWorkBindingMismatch ''assigned_share_target'')
       else if \<not> eq_ignore_ascii_case (sb_parent_share_hash binding) (sh_parent_share_hash s)
       then Err (ShareWorkBindingMismatch ''parent_share_hash'')
       else if \<not> eq_ignore_ascii_case (sb_idena_snapshot_id binding) (sh_idena_snapshot_id s)
       then Err (ShareWorkBindingMismatch ''idena_snapshot_id'')
       else if \<not> eq_ignore_ascii_case (sb_idena_snapshot_proof_root binding) (sh_idena_snapshot_proof_root s)
       then Err (ShareWorkBindingMismatch ''idena_snapshot_proof_root'')
       else map_err InvalidShareWorkBinding (verify_header_commitment X binding (sh_bitcoin_header_hex s))))"

definition verify_present_work_binding_for_template ::
  "extern \<Rightarrow> Share \<Rightarrow> BitcoinWorkTemplate \<Rightarrow> (SharechainError, unit) res" where
  "verify_present_work_binding_for_template X s t =
     bindR (verify_present_work_binding_fields X s) (\<lambda>_. case sh_work_binding s of
       None \<Rightarrow> Ok ()
     | Some binding \<Rightarrow>
         bindR (ok_or (ShareWorkBindingMismatch ''idena_anchor'') (bt_idena_anchor t)) (\<lambda>anchor.
         if sb_idena_anchor binding \<noteq> anchor then Err (ShareWorkBindingMismatch ''idena_anchor'') else
         bindR (ok_or (ShareWorkBindingMismatch ''idena_anchor_policy_hash'') (bt_idena_anchor_policy_hash t)) (\<lambda>policy_hash.
         if \<not> eq_ignore_ascii_case (sb_idena_anchor_policy_hash binding) policy_hash
         then Err (ShareWorkBindingMismatch ''idena_anchor_policy_hash'') else Ok ())))"

definition verify_required_work_binding ::
  "extern \<Rightarrow> Share \<Rightarrow> BitcoinWorkTemplate \<Rightarrow> ShareWorkBindingPolicyV1 \<Rightarrow> (SharechainError, unit) res" where
  "verify_required_work_binding X s t policy =
     bindR (verify_present_work_binding_for_template X s t) (\<lambda>_.
     bindR (ok_or MissingShareWorkBinding (sh_work_binding s)) (\<lambda>binding.
     map_err InvalidShareWorkBinding (verify_policy X binding policy)))"

definition share_verify_mining_signature :: "extern \<Rightarrow> Share \<Rightarrow> string \<Rightarrow> (SharechainError, unit) res" where
  "share_verify_mining_signature X s mining_pubkey_hex = checks [
     validate_share_fields s,
     verify_bitcoin_header_binding X s,
     verify_nonce_binding X s,
     verify_work_score X s,
     verify_present_work_binding_fields X s,
     verify_signature_with X mining_pubkey_hex (sh_mining_signature_hex s) (share_signing_hash X s)]"

definition verify_mining_signature_for_template ::
  "extern \<Rightarrow> Share \<Rightarrow> string \<Rightarrow> BitcoinWorkTemplate \<Rightarrow> (SharechainError, unit) res" where
  "verify_mining_signature_for_template X s mining_pubkey_hex t =
     bindR (validate_share_fields s) (\<lambda>_.
     bindR (verify_template_hash X t) (\<lambda>_.
     let mismatch = ShareTemplateHashMismatch (to_ascii_lowercase (bt_template_hash t))
       (to_ascii_lowercase (sh_bitcoin_template_hash s)) in
     if \<not> eq_ignore_ascii_case (sh_bitcoin_template_hash s) (bt_template_hash t) then Err mismatch else
     bindR (bitcoin_header_prefix_hex X s) (\<lambda>prefix_hex.
     if \<not> eq_ignore_ascii_case prefix_hex (bt_header_prefix_hex t) then Err mismatch else
     checks [
       verify_assigned_share_target X t (sh_target s),
       verify_nonce_binding X s,
       verify_work_score X s,
       verify_present_work_binding_for_template X s t,
       verify_signature_with X mining_pubkey_hex (sh_mining_signature_hex s) (share_signing_hash X s)])))"

section \<open>Snapshot votes\<close>

definition normalized_vote :: "SnapshotVote \<Rightarrow> SnapshotVote" where
  "normalized_vote v = v\<lparr>
     sv_voter_miner_id := to_ascii_lowercase (sv_voter_miner_id v),
     sv_score_root := to_ascii_lowercase (sv_score_root v),
     sv_signature_hex := to_ascii_lowercase (sv_signature_hex v)\<rparr>"

definition SnapshotVoteSigningPayload :: "SnapshotVote \<Rightarrow> json" where
  "SnapshotVoteSigningPayload v = JObj [
     (''voter_miner_id'', JStr (to_ascii_lowercase (sv_voter_miner_id v))),
     (''snapshot_day'', JStr (sv_snapshot_day v)),
     (''idena_height'', JUInt (sv_idena_height v)),
     (''score_root'', JStr (to_ascii_lowercase (sv_score_root v)))]"

definition vote_signing_hash :: "extern \<Rightarrow> SnapshotVote \<Rightarrow> bytes" where
  "vote_signing_hash X v = sha256_tagged X (as_bytes ''POHW1_SNAPSHOT_VOTE'')
     (canonical_json X (SnapshotVoteSigningPayload v))"

definition vote_verify_mining_signature :: "extern \<Rightarrow> SnapshotVote \<Rightarrow> string \<Rightarrow> (SharechainError, unit) res" where
  "vote_verify_mining_signature X v mining_pubkey_hex =
     bindR (sc_validate_miner_id ''voter_miner_id'' (sv_voter_miner_id v)) (\<lambda>_.
     bindR (lift_ext (InvalidField ''snapshot_day'') (parse_naive_date X (sv_snapshot_day v))) (\<lambda>_.
     if sv_idena_height v = 0 then Err (InvalidField ''idena_height'' ''height must be greater than zero'')
     else bindR (validate_hex_32 ''score_root'' (sv_score_root v)) (\<lambda>_.
     verify_signature_with X mining_pubkey_hex (sv_signature_hex v) (vote_signing_hash X v))))"

section \<open>Normal form and digest of a message\<close>

definition normalized_payout_schedule :: "PayoutSchedule \<Rightarrow> PayoutSchedule" where
  "normalized_payout_schedule s = s\<lparr>
     ps_direct_outputs := map (\<lambda>d. d\<lparr>dp_miner_id := to_ascii_lowercase (dp_miner_id d),
       dp_btc_payout_script_hex := to_ascii_lowercase (dp_btc_payout_script_hex d)\<rparr>) (ps_direct_outputs s),
     ps_vault_allocations := map (\<lambda>a. a\<lparr>va_miner_id := to_ascii_lowercase (va_miner_id a),
       va_claim_owner_id := to_ascii_lowercase (va_claim_owner_id a)\<rparr>) (ps_vault_allocations s),
     ps_payout_root := to_ascii_lowercase (ps_payout_root s)\<rparr>"

fun normalized_message :: "SharechainMessage \<Rightarrow> SharechainMessage" where
  "normalized_message (MsgMinerRegistration r) = MsgMinerRegistration (normalized_registration r)"
| "normalized_message (MsgBitcoinWorkTemplate t) = MsgBitcoinWorkTemplate (normalized_template t)"
| "normalized_message (MsgShare s) = MsgShare (normalized_share s)"
| "normalized_message (MsgSharechainCheckpoint c) = MsgSharechainCheckpoint (normalized_checkpoint c)"
| "normalized_message (MsgSnapshotVote v) = MsgSnapshotVote (normalized_vote v)"
| "normalized_message (MsgPayoutSchedule s) = MsgPayoutSchedule (normalized_payout_schedule s)"
| "normalized_message (MsgWithdrawalRequest r) = MsgWithdrawalRequest (normalized_request r)"
| "normalized_message (MsgWithdrawalBatch b) = MsgWithdrawalBatch (normalized_batch b)"
| "normalized_message (MsgPohwCommitment c) = MsgPohwCommitment (normalized_commitment c)"

definition json_MinerRegistration :: "MinerRegistration \<Rightarrow> json" where
  "json_MinerRegistration r = JObj (
     version_field LEGACY_MINER_REGISTRATION_VERSION (reg_version r) @ [
     (''miner_id'', JStr (reg_miner_id r)),
     (''idena_address'', JStr (reg_idena_address r)),
     (''btc_payout_script_hex'', JStr (reg_btc_payout_script_hex r)),
     (''claim_owner_pubkey_hex'', JStr (reg_claim_owner_pubkey_hex r)),
     (''mining_pubkey_hex'', JStr (reg_mining_pubkey_hex r))] @
     opt_field ''registry_anchor'' json_MinerRegistryAnchorV1 (reg_registry_anchor r) @ [
     (''idena_signature_hex'', JStr (reg_idena_signature_hex r)),
     (''mining_signature_hex'', JStr (reg_mining_signature_hex r))])"

definition json_BitcoinWorkTemplate :: "BitcoinWorkTemplate \<Rightarrow> json" where
  "json_BitcoinWorkTemplate t = JObj (
     version_field LEGACY_BITCOIN_WORK_TEMPLATE_VERSION (bt_version t) @ [
     (''miner_id'', JStr (bt_miner_id t)),
     (''header_prefix_hex'', JStr (bt_header_prefix_hex t)),
     (''template_hash'', JStr (bt_template_hash t))] @
     opt_field ''assigned_share_target'' JStr (bt_assigned_share_target t) @
     opt_field ''idena_anchor'' json_IdenaBlockAnchorV1 (bt_idena_anchor t) @
     opt_field ''idena_anchor_policy_hash'' JStr (bt_idena_anchor_policy_hash t) @ [
     (''created_at_unix'', JNum (bt_created_at_unix t)),
     (''mining_signature_hex'', JStr (bt_mining_signature_hex t))])"

definition json_Share :: "Share \<Rightarrow> json" where
  "json_Share s = JObj ([
     (''miner_id'', JStr (sh_miner_id s)),
     (''bitcoin_header_hex'', JStr (sh_bitcoin_header_hex s)),
     (''bitcoin_template_hash'', JStr (sh_bitcoin_template_hash s)),
     (''nonce_hex'', JStr (sh_nonce_hex s)),
     (''work_hash'', JStr (sh_work_hash s)),
     (''target'', JStr (sh_target s)),
     (''idena_snapshot_id'', JStr (sh_idena_snapshot_id s)),
     (''idena_snapshot_proof_root'', JStr (sh_idena_snapshot_proof_root s)),
     (''hashrate_score_delta'', JUInt (sh_hashrate_score_delta s)),
     (''parent_share_hash'', JStr (sh_parent_share_hash s))] @
     opt_field ''work_binding'' json_ShareWorkBindingV1 (sh_work_binding s) @ [
     (''mining_signature_hex'', JStr (sh_mining_signature_hex s))])"

definition json_Checkpoint :: "SharechainCheckpointAnchorV1 \<Rightarrow> json" where
  "json_Checkpoint c = JObj [
     (''contract_address'', JStr (cp_contract_address c)),
     (''experiment_id'', JStr (cp_experiment_id c)),
     (''round'', JUInt (cp_round c)),
     (''share_tip_hash'', JStr (cp_share_tip_hash c)),
     (''share_height'', JUInt (cp_share_height c)),
     (''cumulative_score'', JStr (cp_cumulative_score c)),
     (''parent_checkpoint_tip'', JStr (cp_parent_checkpoint_tip c)),
     (''finalization_block'', JUInt (cp_finalization_block c)),
     (''finalization_block_hash'', JStr (cp_finalization_block_hash c)),
     (''finalization_epoch'', JUInt (cp_finalization_epoch c)),
     (''finalization_timestamp'', JNum (cp_finalization_timestamp c)),
     (''support_count'', JUInt (cp_support_count c)),
     (''registered_count'', JUInt (cp_registered_count c)),
     (''registered_miners'', JStrs (cp_registered_miners c)),
     (''supporters'', JStrs (cp_supporters c))]"

definition json_SnapshotVote :: "SnapshotVote \<Rightarrow> json" where
  "json_SnapshotVote v = JObj [
     (''voter_miner_id'', JStr (sv_voter_miner_id v)),
     (''snapshot_day'', JStr (sv_snapshot_day v)),
     (''idena_height'', JUInt (sv_idena_height v)),
     (''score_root'', JStr (sv_score_root v)),
     (''signature_hex'', JStr (sv_signature_hex v))]"

definition json_PayoutSchedule :: "PayoutSchedule \<Rightarrow> json" where
  "json_PayoutSchedule s = JObj [
     (''direct_outputs'', JArr (map json_DirectPayout (ps_direct_outputs s))),
     (''vault_allocations'', JArr (map json_VaultAllocation (ps_vault_allocations s))),
     (''vault_output_sats'', JUInt (ps_vault_output_sats s)),
     (''payout_root'', JStr (ps_payout_root s))]"

definition json_WithdrawalRequest :: "WithdrawalRequest \<Rightarrow> json" where
  "json_WithdrawalRequest r = JObj [
     (''request_id'', JStr (wr_request_id r)),
     (''claim_owner_id'', JStr (wr_claim_owner_id r)),
     (''claim_owner_pubkey_hex'', JStr (wr_claim_owner_pubkey_hex r)),
     (''destination_script_hex'', JStr (wr_destination_script_hex r)),
     (''amount_sats'', JUInt (wr_amount_sats r)),
     (''max_fee_rate_sat_vb'', JUInt (wr_max_fee_rate_sat_vb r)),
     (''nonce'', JUInt (wr_nonce r)),
     (''expiry_height'', JUInt (wr_expiry_height r)),
     (''signature_hex'', JOpt JStr (wr_signature_hex r)),
     (''output_kind'', json_output_kind (wr_output_kind r))]"

text \<open>\<open>#[serde(tag = "type", content = "payload")]\<close>\<close>

definition tagged :: "string \<Rightarrow> json \<Rightarrow> json" where
  "tagged ty payload = JObj [(''type'', JStr ty), (''payload'', payload)]"

fun json_message :: "SharechainMessage \<Rightarrow> json" where
  "json_message (MsgMinerRegistration r) = tagged ''MinerRegistration'' (json_MinerRegistration r)"
| "json_message (MsgBitcoinWorkTemplate t) = tagged ''BitcoinWorkTemplate'' (json_BitcoinWorkTemplate t)"
| "json_message (MsgShare s) = tagged ''Share'' (json_Share s)"
| "json_message (MsgSharechainCheckpoint c) = tagged ''SharechainCheckpoint'' (json_Checkpoint c)"
| "json_message (MsgSnapshotVote v) = tagged ''SnapshotVote'' (json_SnapshotVote v)"
| "json_message (MsgPayoutSchedule s) = tagged ''PayoutSchedule'' (json_PayoutSchedule s)"
| "json_message (MsgWithdrawalRequest r) = tagged ''WithdrawalRequest'' (json_WithdrawalRequest r)"
| "json_message (MsgWithdrawalBatch b) = tagged ''WithdrawalBatch'' (json_WithdrawalBatch b)"
| "json_message (MsgPohwCommitment c) = tagged ''PohwCommitment'' (json_PohwCommitment c)"

definition message_hash :: "extern \<Rightarrow> SharechainMessage \<Rightarrow> string" where
  "message_hash X m = hash_hex X (sha256_tagged X (as_bytes ''POHW1_SHARECHAIN_MESSAGE'')
     (canonical_json X (json_message (normalized_message m))))"

definition share_hash :: "extern \<Rightarrow> Share \<Rightarrow> string" where
  "share_hash X s = message_hash X (MsgShare s)"

section \<open>Normal forms\<close>

lemma normalized_block_anchor_idem [simp]:
  "normalized_block_anchor (normalized_block_anchor a) = normalized_block_anchor a"
  by (simp add: normalized_block_anchor_def)

lemma normalized_registry_anchor_idem [simp]:
  "normalized_registry_anchor (normalized_registry_anchor a) = normalized_registry_anchor a"
  by (simp add: normalized_registry_anchor_def)

lemma normalized_checkpoint_idem [simp]: "normalized_checkpoint (normalized_checkpoint c) = normalized_checkpoint c"
  by (simp add: normalized_checkpoint_def)

lemma normalized_binding_idem [simp]: "normalized_binding (normalized_binding b) = normalized_binding b"
  by (simp add: normalized_binding_def)

lemma map_option_idem: "(\<And>a. f (f a) = f a) \<Longrightarrow> map_option f (map_option f x) = map_option f x"
  by (cases x) simp_all

lemma normalized_share_idem [simp]: "normalized_share (normalized_share s) = normalized_share s"
  by (simp add: normalized_share_def map_option_idem)

lemma normalized_message_idem [simp]: "normalized_message (normalized_message m) = normalized_message m"
  by (cases m) (simp_all add: normalized_registration_def normalized_template_def normalized_vote_def
      normalized_payout_schedule_def normalized_request_def normalized_batch_idem commitment_digest.norm_idem
      map_option_idem comp_def)

interpretation message_digest: canonical_digest normalized_message json_message
  by unfold_locales (rule normalized_message_idem)

lemma message_hash_eq: "message_hash X m = message_digest.digest X ''POHW1_SHARECHAIN_MESSAGE'' m"
  by (simp add: message_hash_def message_digest.digest_def)

lemma message_hash_normalized [simp]: "message_hash X (normalized_message m) = message_hash X m"
  by (simp add: message_hash_eq message_digest.digest_norm)

lemma share_hash_normalized [simp]: "share_hash X (normalized_share s) = share_hash X s"
  using message_hash_normalized [of X "MsgShare s"] by (simp add: share_hash_def del: message_hash_normalized)

section \<open>Serialisation separates messages\<close>

lemma version_field_inject:
  assumes "''version'' \<notin> fst ` set r" and "''version'' \<notin> fst ` set s"
  shows "version_field l v @ r = version_field l w @ s \<longleftrightarrow> v = w \<and> r = s"
  using assms by (cases r; cases s) (auto simp: version_field_def)

lemmas field_injects = opt_field_inject opt_field_eq opt_field_name version_field_inject image_Un

lemma inj_json_MinerRegistryAnchorV1 [simp]: "inj json_MinerRegistryAnchorV1"
  by (rule injI, rule MinerRegistryAnchorV1.equality) (simp_all add: json_MinerRegistryAnchorV1_def)

lemma inj_json_IdenaBlockAnchorV1 [simp]: "inj json_IdenaBlockAnchorV1"
  by (rule injI, rule IdenaBlockAnchorV1.equality) (simp_all add: json_IdenaBlockAnchorV1_def)

lemma inj_json_Checkpoint [simp]: "inj json_Checkpoint"
  by (rule injI, rule SharechainCheckpointAnchorV1.equality) (simp_all add: json_Checkpoint_def)

lemma inj_json_SnapshotVote [simp]: "inj json_SnapshotVote"
  by (rule injI, rule SnapshotVote.equality) (simp_all add: json_SnapshotVote_def)

lemma inj_json_DirectPayout [simp]: "inj json_DirectPayout"
  by (rule injI, rule DirectPayout.equality) (simp_all add: json_DirectPayout_def)

lemma inj_json_VaultAllocation [simp]: "inj json_VaultAllocation"
  by (rule injI, rule VaultAllocation.equality) (simp_all add: json_VaultAllocation_def)

lemma inj_json_ShareWorkBindingV1 [simp]: "inj json_ShareWorkBindingV1"
  by (rule injI, rule ShareWorkBindingV1.equality) (simp_all add: json_ShareWorkBindingV1_def inj_eq [OF inj_json_IdenaBlockAnchorV1])

lemma inj_json_PayoutSchedule [simp]: "inj json_PayoutSchedule"
  by (rule injI, rule PayoutSchedule.equality) (simp_all add: json_PayoutSchedule_def)

lemma inj_json_output_kind [simp]: "inj json_output_kind"
  by (rule injI) (auto simp: json_output_kind_def split: WithdrawalOutputKind.splits)

lemma JOpt_inject: "inj f \<Longrightarrow> (\<And>a. f a \<noteq> JNull) \<Longrightarrow> JOpt f x = JOpt f y \<longleftrightarrow> x = y"
  by (cases x; cases y) (auto simp: JOpt_def dest: injD sym)

lemma inj_json_WithdrawalOutput [simp]: "inj json_WithdrawalOutput"
  by (rule injI, rule WithdrawalOutput.equality) (simp_all add: json_WithdrawalOutput_def inj_eq [OF inj_json_output_kind])

lemma inj_json_WithdrawalBatch [simp]: "inj json_WithdrawalBatch"
  by (rule injI, rule WithdrawalBatch.equality) (simp_all add: json_WithdrawalBatch_def)

lemma inj_json_WithdrawalRequest [simp]: "inj json_WithdrawalRequest"
  by (rule injI, rule WithdrawalRequest.equality) (simp_all add: json_WithdrawalRequest_def inj_eq [OF inj_json_output_kind] JOpt_inject)

lemma inj_json_MinerRegistration [simp]: "inj json_MinerRegistration"
  by (rule injI, rule MinerRegistration.equality) (simp_all add: json_MinerRegistration_def field_injects)

lemma inj_json_BitcoinWorkTemplate [simp]: "inj json_BitcoinWorkTemplate"
  by (rule injI, rule BitcoinWorkTemplate.equality) (simp_all add: json_BitcoinWorkTemplate_def field_injects)

lemma inj_json_Share [simp]: "inj json_Share"
  by (rule injI, rule Share.equality) (simp_all add: json_Share_def field_injects)

lemma inj_json_message: "inj json_message"
proof (rule injI)
  fix m m' assume "json_message m = json_message m'"
  then show "m = m'" by (cases m; cases m') (simp_all add: tagged_def inj_eq)
qed

text \<open>
  C26: A message hash identifies the message up to normalisation: two messages have the same hash
  exactly if they have the same normal form (the same content in another case), unless their normal
  forms serialise to different JSON values that the tagged digest maps to one digest. The hypothesis
  is that hex decoding inverts encoding.
\<close>

theorem message_hash_identifies:
  assumes "hex_roundtrip X"
  shows "message_hash X m = message_hash X m' \<longleftrightarrow> normalized_message m = normalized_message m' \<or>
    json_message (normalized_message m) \<noteq> json_message (normalized_message m') \<and>
    sha256_tagged X (as_bytes ''POHW1_SHARECHAIN_MESSAGE'') (canonical_json X (json_message (normalized_message m))) =
    sha256_tagged X (as_bytes ''POHW1_SHARECHAIN_MESSAGE'') (canonical_json X (json_message (normalized_message m')))"
proof -
  have "hash_hex X a = hash_hex X b \<longleftrightarrow> a = b" for a b
    using assms by (metis hash_hex_def hex_roundtrip_def sum.inject(2))
  then show ?thesis using inj_json_message [THEN injD] by (auto simp: message_hash_def)
qed

theorem message_hash_identifies_witness:
  "message_hash constant_hash (MsgSnapshotVote \<lparr>sv_voter_miner_id = ''M1'', sv_snapshot_day = ''d'',
      sv_idena_height = 1, sv_score_root = ''AB'', sv_signature_hex = ''ff''\<rparr>) =
    message_hash constant_hash (MsgSnapshotVote \<lparr>sv_voter_miner_id = ''m1'', sv_snapshot_day = ''d'',
      sv_idena_height = 1, sv_score_root = ''ab'', sv_signature_hex = ''FF''\<rparr>)"
  by (subst message_hash_identifies [OF constant_hash_codec(1)], rule disjI1) code_simp

end
