(* ===== verification/ReplayState.thy ===== *)
theory ReplayState
  imports Sharechain Ledger
begin

text \<open>
  \<open>pohw-core/src/sharechain_state.rs\<close>: the replay state of the sharechain and the transition that
  applies one message. This theory holds the definitions; \<open>ReplayTree\<close>, \<open>ReplayInv\<close> and \<open>ReplayProps\<close> prove the
  properties of the share tree and of whole runs.
\<close>

section \<open>State\<close>

datatype ApplyOutcome = Applied | DuplicateIgnored

record ShareNode =
  nd_share :: Share
  nd_parent_share_hash :: string
  nd_cumulative_score :: "Score option"
  nd_height :: u64

text \<open>\<open>SnapshotVoteKey\<close> derives \<open>Ord\<close>: day, height, score root, lexicographically.\<close>

type_synonym SnapshotVoteKey = "string \<times> u64 \<times> string"

record SharechainReplayState =
  st_applied_message_hashes :: "string btset"
  st_accepted_bitcoin_work_template_prefixes :: "(string, string) btree"
  st_bitcoin_work_templates :: "(string, BitcoinWorkTemplate) btree"
  st_registrations :: "(string, MinerRegistration) btree"
  st_sharechain_checkpoints :: "(u32, SharechainCheckpointAnchorV1) btree"
  st_shares :: "(string, ShareNode) btree"
  st_share_hash_by_work_hash :: "(string, string) btree"
  st_children_by_parent :: "(string, string btset) btree"
  st_active_share_hashes :: "string btset"
  st_active_share_score_total :: Score
  st_best_share_tip :: "string option"
  st_hashrate_scores :: "(string, Score) btree"
  st_snapshot_votes :: "(SnapshotVoteKey, string btset) btree"
  st_proposed_payout_schedules :: "(string, PayoutSchedule) btree"
  st_withdrawal_requests :: "(string, WithdrawalRequest) btree"
  st_withdrawal_batches :: "(string, WithdrawalBatch) btree"
  st_claim_ledger :: ClaimLedger
  st_last_message_hash :: "string option"

definition default_state :: SharechainReplayState where
  "default_state = \<lparr>
     st_applied_message_hashes = bt_empty,
     st_accepted_bitcoin_work_template_prefixes = bt_empty,
     st_bitcoin_work_templates = bt_empty,
     st_registrations = bt_empty,
     st_sharechain_checkpoints = bt_empty,
     st_shares = bt_empty,
     st_share_hash_by_work_hash = bt_empty,
     st_children_by_parent = bt_empty,
     st_active_share_hashes = bt_empty,
     st_active_share_score_total = 0,
     st_best_share_tip = None,
     st_hashrate_scores = bt_empty,
     st_snapshot_votes = bt_empty,
     st_proposed_payout_schedules = bt_empty,
     st_withdrawal_requests = bt_empty,
     st_withdrawal_batches = bt_empty,
     st_claim_ledger = default_ledger,
     st_last_message_hash = None\<rparr>"

datatype SharechainReplayError =
    ConflictingRegistration string
  | IdenaAnchorPolicy IdenaAnchorError
  | UnanchoredMinerRegistration string
  | UnanchoredBitcoinWorkTemplate string
  | TemplateAnchorBeforeRegistration
  | DuplicateBootstrapAnchor string u64
  | NonIncreasingBootstrapAnchor
  | MissingAnchoredShareParent string
  | MissingAnchoredParentBitcoinWorkTemplate string
  | UnknownShareMiner string
  | UnknownBitcoinWorkTemplateMiner string
  | UnacceptedBitcoinWorkTemplate string
  | ConflictingBitcoinWorkTemplate string
  | UnknownShareBitcoinWorkTemplate string
  | ShareBitcoinWorkTemplateMismatch string
  | AdditionalSharechainRoot string string
  | ConflictingShare string
  | DuplicateShareWork string string
  | ConflictingCheckpoint u32
  | NonSequentialCheckpoint u32 u32
  | CheckpointParentMismatch
  | CheckpointIntervalNotElapsed
  | CheckpointRegistrationSetMismatch
  | UnknownCheckpointShareTip string
  | CheckpointShareMetadataMismatch
  | CheckpointNotDescendant
  | UnknownSnapshotVoter string
  | HashrateScoreOverflow string
  | ShareBranchScoreOverflow string
  | ConflictingPayoutSchedule string
  | UnknownPayoutMiner string
  | PayoutScriptMismatch string
  | PayoutClaimOwnerMismatch string
  | PayoutScheduleMismatch
  | ConflictingWithdrawalRequest string
  | ConflictingWithdrawalBatch string
  | UnknownWithdrawalRequest string
  | UnknownWithdrawalBatch string
  | UnreservedWithdrawalRequest string
  | WithdrawalBatchMismatch string
  | WithdrawalBatchRequestMismatch string
  | InvalidSharechainSignature SharechainError
  | InvalidCommitment CommitmentError
  | InvalidWithdrawal WithdrawalError
  | InvalidPayoutSchedule PayoutError
  | LedgerFailure LedgerError

type_synonym 'a replay_act = "(SharechainReplayState, SharechainReplayError, 'a) act"

text \<open>\<open>map.get(&k).ok_or(e)\<close>, \<open>r.map_err(|_| e)\<close>, and an action on the ledger inside the state.\<close>

definition get_or :: "'e \<Rightarrow> ('k::linorder, 'v) btree \<Rightarrow> 'k \<Rightarrow> ('e, 'v) res" where
  "get_or e m k = ok_or e (bt_get m k)"

definition instead_err :: "'f \<Rightarrow> ('e, 'a) res \<Rightarrow> ('f, 'a) res" where
  "instead_err f r = map_err (\<lambda>_. f) r"

definition on_ledger :: "(ClaimLedger, LedgerError, 'a) act \<Rightarrow> 'a replay_act" where
  "on_ledger m st = (case m (st_claim_ledger st) of
     (r, l) \<Rightarrow> (map_err LedgerFailure r, st\<lparr>st_claim_ledger := l\<rparr>))"

section \<open>Read access\<close>

definition latest_sharechain_checkpoint :: "SharechainReplayState \<Rightarrow> SharechainCheckpointAnchorV1 option" where
  "latest_sharechain_checkpoint st = map_option snd (bt_last (st_sharechain_checkpoints st))"

definition best_share_height :: "SharechainReplayState \<Rightarrow> u64 option" where
  "best_share_height st = Option.bind (st_best_share_tip st)
     (\<lambda>h. map_option nd_height (bt_get (st_shares st) h))"

definition has_message_hash :: "SharechainReplayState \<Rightarrow> string \<Rightarrow> bool" where
  "has_message_hash st h = bt_contains (st_applied_message_hashes st) (to_ascii_lowercase h)"

definition active_idena_addresses :: "SharechainReplayState \<Rightarrow> string btset" where
  "active_idena_addresses st = bs_collect
     (map (\<lambda>r. to_ascii_lowercase (reg_idena_address r))
       (List.map_filter (\<lambda>(miner_id, score). if score > 0 then bt_get (st_registrations st) miner_id else None)
         (entries (st_hashrate_scores st))))"

definition recent_active_idena_addresses :: "SharechainReplayState \<Rightarrow> int \<Rightarrow> string btset" where
  "recent_active_idena_addresses st minimum_template_created_at_unix = (let
     nodes = List.map_filter (bt_get (st_shares st)) (bt_keys (st_active_share_hashes st));
     recent = filter (\<lambda>node. case bt_get (st_bitcoin_work_templates st) (sh_bitcoin_template_hash (nd_share node)) of
         None \<Rightarrow> False | Some t \<Rightarrow> bt_created_at_unix t \<ge> minimum_template_created_at_unix) nodes;
     regs = List.map_filter (\<lambda>node. bt_get (st_registrations st) (to_ascii_lowercase (sh_miner_id (nd_share node)))) recent
     in bs_collect (map (\<lambda>r. to_ascii_lowercase (reg_idena_address r)) regs))"

definition unique_snapshot_voter_idena_count :: "SharechainReplayState \<Rightarrow> string \<Rightarrow> u64 \<Rightarrow> string \<Rightarrow> nat" where
  "unique_snapshot_voter_idena_count st snapshot_day idena_height score_root = (let
     voters = (case bt_get (st_snapshot_votes st) (snapshot_day, idena_height, to_ascii_lowercase score_root) of
       None \<Rightarrow> [] | Some s \<Rightarrow> bt_keys s);
     regs = List.map_filter (bt_get (st_registrations st)) voters
     in bt_len (bs_collect (map (\<lambda>r. to_ascii_lowercase (reg_idena_address r)) regs)))"

definition claim_balances :: "SharechainReplayState \<Rightarrow> (string, Sats) btree" where
  "claim_balances st = bt_collect (filter (\<lambda>(_, b). b > 0)
     (map (\<lambda>r. let owner = to_ascii_lowercase (reg_claim_owner_pubkey_hex r)
        in (owner, balance (st_claim_ledger st) owner)) (bt_values (st_registrations st))))"

definition participant_accounts :: "SharechainReplayState \<Rightarrow> ParticipantAccount list" where
  "participant_accounts st = map (\<lambda>r. let
       miner_id = to_ascii_lowercase (reg_miner_id r);
       claim_owner_id = to_ascii_lowercase (reg_claim_owner_pubkey_hex r)
     in \<lparr>acc_miner_id = miner_id,
         acc_btc_payout_script_hex = to_ascii_lowercase (reg_btc_payout_script_hex r),
         acc_claim_owner_id = claim_owner_id,
         acc_unpaid_sats = balance (st_claim_ledger st) claim_owner_id,
         acc_hashrate_score = (case bt_get (st_hashrate_scores st) miner_id of None \<Rightarrow> 0 | Some s \<Rightarrow> s),
         acc_idena_score = 0\<rparr>) (bt_values (st_registrations st))"

record SharechainReplaySummary =
  su_applied_message_count :: nat
  su_registered_miner_count :: nat
  su_unique_registered_idena_count :: nat
  su_active_idena_participant_count :: nat
  su_accepted_bitcoin_work_template_count :: nat
  su_bitcoin_work_template_count :: nat
  su_stored_share_count :: nat
  su_active_share_count :: nat
  su_inactive_share_count :: nat
  su_share_miner_count :: nat
  su_active_share_score_total :: Score
  su_best_share_tip :: "string option"
  su_finalized_checkpoint_count :: nat
  su_latest_checkpoint_round :: "u32 option"
  su_latest_checkpoint_tip :: "string option"
  su_snapshot_vote_root_count :: nat
  su_proposed_payout_schedule_count :: nat
  su_withdrawal_request_count :: nat
  su_withdrawal_batch_count :: nat
  su_pending_withdrawal_count :: nat
  su_vault_claim_owner_count :: nat
  su_last_message_hash :: "string option"

text \<open>\<open>saturating_sub\<close> on \<open>usize\<close> is subtraction of natural numbers.\<close>

definition summary :: "SharechainReplayState \<Rightarrow> SharechainReplaySummary" where
  "summary st = \<lparr>
     su_applied_message_count = bt_len (st_applied_message_hashes st),
     su_registered_miner_count = bt_len (st_registrations st),
     su_unique_registered_idena_count = bt_len (bs_collect
       (map (\<lambda>r. to_ascii_lowercase (reg_idena_address r)) (bt_values (st_registrations st)))),
     su_active_idena_participant_count = bt_len (active_idena_addresses st),
     su_accepted_bitcoin_work_template_count = bt_len (st_accepted_bitcoin_work_template_prefixes st),
     su_bitcoin_work_template_count = bt_len (st_bitcoin_work_templates st),
     su_stored_share_count = bt_len (st_shares st),
     su_active_share_count = bt_len (st_active_share_hashes st),
     su_inactive_share_count = bt_len (st_shares st) - bt_len (st_active_share_hashes st),
     su_share_miner_count = bt_len (st_hashrate_scores st),
     su_active_share_score_total = st_active_share_score_total st,
     su_best_share_tip = st_best_share_tip st,
     su_finalized_checkpoint_count = bt_len (st_sharechain_checkpoints st),
     su_latest_checkpoint_round = map_option fst (bt_last (st_sharechain_checkpoints st)),
     su_latest_checkpoint_tip = map_option (cp_share_tip_hash \<circ> snd) (bt_last (st_sharechain_checkpoints st)),
     su_snapshot_vote_root_count = bt_len (st_snapshot_votes st),
     su_proposed_payout_schedule_count = bt_len (st_proposed_payout_schedules st),
     su_withdrawal_request_count = bt_len (st_withdrawal_requests st),
     su_withdrawal_batch_count = bt_len (st_withdrawal_batches st),
     su_pending_withdrawal_count = pending_withdrawal_count (st_claim_ledger st),
     su_vault_claim_owner_count = bt_len (claim_balances st),
     su_last_message_hash = st_last_message_hash st\<rparr>"

record SharechainShareSummary =
  ss_share_hash :: string
  ss_height :: u64
  ss_active :: bool
  ss_miner_id :: string
  ss_parent_share_hash :: string
  ss_bitcoin_template_hash :: string
  ss_work_hash :: string
  ss_target :: string
  ss_hashrate_score_delta :: string
  ss_cumulative_score :: "string option"
  ss_idena_snapshot_id :: string
  ss_idena_snapshot_proof_root :: string
  ss_template_created_at_unix :: "int option"

definition share_summary_for_node :: "SharechainReplayState \<Rightarrow> string \<Rightarrow> ShareNode \<Rightarrow> SharechainShareSummary" where
  "share_summary_for_node st h node = \<lparr>
     ss_share_hash = h,
     ss_height = nd_height node,
     ss_active = bt_contains (st_active_share_hashes st) h,
     ss_miner_id = sh_miner_id (nd_share node),
     ss_parent_share_hash = nd_parent_share_hash node,
     ss_bitcoin_template_hash = sh_bitcoin_template_hash (nd_share node),
     ss_work_hash = sh_work_hash (nd_share node),
     ss_target = sh_target (nd_share node),
     ss_hashrate_score_delta = show_word (sh_hashrate_score_delta (nd_share node)),
     ss_cumulative_score = map_option show_word (nd_cumulative_score node),
     ss_idena_snapshot_id = sh_idena_snapshot_id (nd_share node),
     ss_idena_snapshot_proof_root = sh_idena_snapshot_proof_root (nd_share node),
     ss_template_created_at_unix = map_option bt_created_at_unix
       (bt_get (st_bitcoin_work_templates st) (sh_bitcoin_template_hash (nd_share node)))\<rparr>"

definition share_summaries :: "SharechainReplayState \<Rightarrow> SharechainShareSummary list" where
  "share_summaries st = Sorting_Algorithms.sort (then_with (desc ss_height) (asc ss_share_hash))
     (map (\<lambda>(h, node). share_summary_for_node st h node) (entries (st_shares st)))"

definition share_summary :: "SharechainReplayState \<Rightarrow> string \<Rightarrow> SharechainShareSummary option" where
  "share_summary st h = (let normalized = to_ascii_lowercase h in
     map_option (share_summary_for_node st normalized) (bt_get (st_shares st) normalized))"

section \<open>Registrations\<close>

definition is_valid_registry_registration_upgrade :: "MinerRegistration \<Rightarrow> MinerRegistration \<Rightarrow> bool" where
  "is_valid_registry_registration_upgrade existing candidate =
     (if reg_version candidate \<noteq> IDENA_ANCHORED_MINER_REGISTRATION_VERSION
       \<or> \<not> eq_ignore_ascii_case (reg_miner_id existing) (reg_miner_id candidate)
       \<or> \<not> eq_ignore_ascii_case (reg_idena_address existing) (reg_idena_address candidate)
       \<or> \<not> eq_ignore_ascii_case (reg_btc_payout_script_hex existing) (reg_btc_payout_script_hex candidate)
       \<or> \<not> eq_ignore_ascii_case (reg_claim_owner_pubkey_hex existing) (reg_claim_owner_pubkey_hex candidate)
       \<or> \<not> eq_ignore_ascii_case (reg_mining_pubkey_hex existing) (reg_mining_pubkey_hex candidate)
      then False
      else case reg_registry_anchor candidate of
        None \<Rightarrow> False
      | Some candidate_anchor \<Rightarrow> (case reg_registry_anchor existing of
          None \<Rightarrow> True
        | Some existing_anchor \<Rightarrow>
            eq_ignore_ascii_case (mr_contract_address candidate_anchor) (mr_contract_address existing_anchor)
            \<and> eq_ignore_ascii_case (mr_experiment_id candidate_anchor) (mr_experiment_id existing_anchor)
            \<and> mr_registration_sequence candidate_anchor > mr_registration_sequence existing_anchor))"

text \<open>The stored form: lower case, with the registry anchor as it came.\<close>

definition stored_registration :: "MinerRegistration \<Rightarrow> MinerRegistration" where
  "stored_registration r = r\<lparr>
     reg_miner_id := to_ascii_lowercase (reg_miner_id r),
     reg_idena_address := to_ascii_lowercase (reg_idena_address r),
     reg_btc_payout_script_hex := to_ascii_lowercase (reg_btc_payout_script_hex r),
     reg_claim_owner_pubkey_hex := to_ascii_lowercase (reg_claim_owner_pubkey_hex r),
     reg_mining_pubkey_hex := to_ascii_lowercase (reg_mining_pubkey_hex r),
     reg_idena_signature_hex := to_ascii_lowercase (reg_idena_signature_hex r),
     reg_mining_signature_hex := to_ascii_lowercase (reg_mining_signature_hex r)\<rparr>"

definition apply_registration :: "extern \<Rightarrow> MinerRegistration \<Rightarrow> unit replay_act" where
  "apply_registration X registration0 =
     bindA (readA (\<lambda>_. map_err InvalidSharechainSignature (registration_verify_mining_signature X registration0))) (\<lambda>_.
     bindA (readA (\<lambda>_. map_err InvalidSharechainSignature (verify_idena_ownership_signature X registration0))) (\<lambda>_ st.
     let registration = stored_registration registration0;
         insert = (Ok (), st\<lparr>st_registrations :=
           bt_insert (reg_miner_id registration) registration (st_registrations st)\<rparr>)
     in case bt_get (st_registrations st) (reg_miner_id registration) of
       Some existing \<Rightarrow>
         if existing = registration then (Ok (), st)
         else if \<not> is_valid_registry_registration_upgrade existing registration
         then (Err (ConflictingRegistration (reg_miner_id registration)), st)
         else insert
     | None \<Rightarrow> insert))"

section \<open>Work templates\<close>

text \<open>\<open>BTreeMap::insert\<close> has replaced the old prefix when the conflict is reported.\<close>

definition insert_accepted_prefix :: "string \<Rightarrow> string \<Rightarrow> string replay_act" where
  "insert_accepted_prefix template_hash normalized_prefix st = (let
     existing = bt_get (st_accepted_bitcoin_work_template_prefixes st) template_hash;
     st' = st\<lparr>st_accepted_bitcoin_work_template_prefixes :=
       bt_insert template_hash normalized_prefix (st_accepted_bitcoin_work_template_prefixes st)\<rparr>
     in case existing of
       Some existing_prefix \<Rightarrow>
         if existing_prefix \<noteq> normalized_prefix
         then (Err (ConflictingBitcoinWorkTemplate template_hash), st')
         else (Ok template_hash, st')
     | None \<Rightarrow> (Ok template_hash, st'))"

definition accept_bitcoin_work_template_prefix :: "extern \<Rightarrow> string \<Rightarrow> string replay_act" where
  "accept_bitcoin_work_template_prefix X header_prefix_hex =
     bindA (readA (\<lambda>_. map_err InvalidSharechainSignature
       (template_hash_for_header_prefix_hex X header_prefix_hex))) (\<lambda>template_hash.
     insert_accepted_prefix template_hash (to_ascii_lowercase header_prefix_hex))"

definition accept_bitcoin_work_template :: "extern \<Rightarrow> BitcoinWorkTemplate \<Rightarrow> string replay_act" where
  "accept_bitcoin_work_template X t =
     bindA (readA (\<lambda>_. map_err InvalidSharechainSignature (verify_template_hash X t))) (\<lambda>_.
     insert_accepted_prefix (to_ascii_lowercase (bt_template_hash t)) (to_ascii_lowercase (bt_header_prefix_hex t)))"

definition check_template :: "extern \<Rightarrow> BitcoinWorkTemplate \<Rightarrow> SharechainReplayState \<Rightarrow> (SharechainReplayError, unit) res" where
  "check_template X t st = (let miner_id = to_ascii_lowercase (bt_miner_id t);
     template_hash = to_ascii_lowercase (bt_template_hash t) in
     bindR (get_or (UnknownBitcoinWorkTemplateMiner miner_id) (st_registrations st) miner_id) (\<lambda>registration.
     bindR (map_err InvalidSharechainSignature
       (template_verify_mining_signature X t (reg_mining_pubkey_hex registration))) (\<lambda>_.
     bindR (get_or (UnacceptedBitcoinWorkTemplate template_hash)
       (st_accepted_bitcoin_work_template_prefixes st) template_hash) (\<lambda>accepted_prefix.
     if \<not> eq_ignore_ascii_case (bt_header_prefix_hex t) accepted_prefix
     then Err (ConflictingBitcoinWorkTemplate template_hash) else Ok ()))))"

definition apply_bitcoin_work_template :: "extern \<Rightarrow> BitcoinWorkTemplate \<Rightarrow> unit replay_act" where
  "apply_bitcoin_work_template X t =
     bindA (readA (check_template X t)) (\<lambda>_ st.
     let template_hash = to_ascii_lowercase (bt_template_hash t);
         normalized = normalized_template t;
         existing = bt_get (st_bitcoin_work_templates st) template_hash;
         st' = st\<lparr>st_bitcoin_work_templates := bt_insert template_hash normalized (st_bitcoin_work_templates st)\<rparr>
     in case existing of
       Some old \<Rightarrow> if old \<noteq> normalized then (Err (ConflictingBitcoinWorkTemplate template_hash), st') else (Ok (), st')
     | None \<Rightarrow> (Ok (), st'))"

section \<open>The share tree\<close>

text \<open>
  The walk from a share towards the root, stopping at a repeated share, an unknown parent or the
  root. The set of shares not yet seen shrinks.
\<close>

type_synonym share_map = "(string, ShareNode) btree"

definition unseen :: "share_map \<Rightarrow> string btset \<Rightarrow> string set" where
  "unseen shares seen = set (bt_keys shares) - set (bt_keys seen)"

lemma unseen_shrinks:
  assumes "bt_get shares h = Some node" and "bt_get seen h = None"
  shows "card (unseen shares (bs_insert h seen)) < card (unseen shares seen)"
proof (rule psubset_card_mono)
  show "finite (unseen shares seen)" by (simp add: unseen_def)
  have "h \<in> unseen shares seen" and "h \<notin> unseen shares (bs_insert h seen)"
    using assms by (simp_all add: unseen_def)
  moreover have "k \<in> unseen shares seen" if "k \<in> unseen shares (bs_insert h seen)" for k
    using that by (simp add: unseen_def split: if_splits)
  ultimately show "unseen shares (bs_insert h seen) \<subset> unseen shares seen" by blast
qed

function active_branch :: "share_map \<Rightarrow> string btset \<Rightarrow> string \<Rightarrow> string list" where
  "active_branch shares seen h =
     (if bt_contains seen h then []
      else case bt_get shares h of
        None \<Rightarrow> []
      | Some node \<Rightarrow> h #
          (if nd_parent_share_hash node = ZERO_SHARE_PARENT_HASH then []
           else active_branch shares (bs_insert h seen) (nd_parent_share_hash node)))"
  by pat_completeness auto
termination
  by (relation "measure (\<lambda>(shares, seen, h). card (unseen shares seen))") (auto intro!: unseen_shrinks)

declare active_branch.simps [simp del]

function descends_loop :: "share_map \<Rightarrow> string \<Rightarrow> string btset \<Rightarrow> string \<Rightarrow> bool" where
  "descends_loop shares ancestor_hash seen h =
     (if h = ancestor_hash then True
      else if bt_contains seen h then False
      else case bt_get shares h of
        None \<Rightarrow> False
      | Some node \<Rightarrow>
          if nd_parent_share_hash node = ZERO_SHARE_PARENT_HASH then False
          else descends_loop shares ancestor_hash (bs_insert h seen) (nd_parent_share_hash node))"
  by pat_completeness auto
termination
  by (relation "measure (\<lambda>(shares, a, seen, h). card (unseen shares seen))") (auto intro!: unseen_shrinks)

declare descends_loop.simps [simp del]

definition share_descends_from :: "SharechainReplayState \<Rightarrow> string \<Rightarrow> string \<Rightarrow> bool" where
  "share_descends_from st candidate_hash ancestor_hash =
     descends_loop (st_shares st) (to_ascii_lowercase ancestor_hash) bt_empty (to_ascii_lowercase candidate_hash)"

text \<open>
  Crediting one share of the active branch. The entry of the miner is created before the
  addition is checked, and kept when it overflows.
\<close>

definition score_entry :: "(string, Score) btree \<Rightarrow> string \<Rightarrow> Score" where
  "score_entry m k = (case bt_get m k of None \<Rightarrow> 0 | Some v \<Rightarrow> v)"

definition credit_share :: "string \<Rightarrow> Share \<Rightarrow> unit replay_act" where
  "credit_share h share st = (let
     miner_id = to_ascii_lowercase (sh_miner_id share);
     entry = score_entry (st_hashrate_scores st) miner_id;
     st0 = st\<lparr>st_hashrate_scores := bt_insert miner_id entry (st_hashrate_scores st)\<rparr>
     in case checked_add entry (sh_hashrate_score_delta share) of
       None \<Rightarrow> (Err (HashrateScoreOverflow miner_id), st0)
     | Some score \<Rightarrow> (let
         st1 = st0\<lparr>st_hashrate_scores := bt_insert miner_id score (st_hashrate_scores st0)\<rparr>
         in case checked_add (st_active_share_score_total st1) (sh_hashrate_score_delta share) of
           None \<Rightarrow> (Err (ShareBranchScoreOverflow h), st1)
         | Some total_score \<Rightarrow> (Ok (), st1\<lparr>st_active_share_score_total := total_score\<rparr>)))"

text \<open>The crediting loop; the \<open>expect\<close> on the lookup panics on a share that is not stored.\<close>

fun credit_branch :: "string list \<Rightarrow> unit replay_act" where
  "credit_branch [] st = (Ok (), st)"
| "credit_branch (h # hs) st = (case bt_get (st_shares st) h of
     None \<Rightarrow> (Panic, st)
   | Some node \<Rightarrow> bindA (credit_share h (nd_share node)) (\<lambda>_. credit_branch hs) st)"

definition rebuild_active_branch :: "string \<Rightarrow> unit replay_act" where
  "rebuild_active_branch tip st = (let branch = active_branch (st_shares st) bt_empty tip in
     bindA (credit_branch branch) (\<lambda>_ s. (Ok (), s\<lparr>st_best_share_tip := Some tip\<rparr>))
       (st\<lparr>st_active_share_hashes := bs_collect branch, st_hashrate_scores := bt_empty,
           st_active_share_score_total := 0\<rparr>))"

text \<open>Fork choice: a higher cumulative score wins, and the smaller hash on equal scores.\<close>

definition is_better_share :: "SharechainReplayState \<Rightarrow> string \<Rightarrow> Score \<Rightarrow> (SharechainReplayError, bool) res" where
  "is_better_share st h score = (case st_best_share_tip st of
     None \<Rightarrow> Ok True
   | Some tip \<Rightarrow> (case bt_get (st_shares st) tip of
       None \<Rightarrow> Ok True
     | Some current \<Rightarrow>
         bindR (expect (nd_cumulative_score current)) (\<lambda>current_score.
         Ok (score > current_score \<or> (score = current_score \<and> h < tip)))))"

definition extends_active_tip :: "SharechainReplayState \<Rightarrow> ShareNode \<Rightarrow> bool" where
  "extends_active_tip st node \<longleftrightarrow>
     (case st_best_share_tip st of None \<Rightarrow> False | Some tip \<Rightarrow> nd_parent_share_hash node = tip)
     \<and> bt_contains (st_active_share_hashes st) (nd_parent_share_hash node)"

definition consider_resolved_share :: "string \<Rightarrow> unit replay_act" where
  "consider_resolved_share h st =
     (if latest_sharechain_checkpoint st \<noteq> None then (Ok (), st)
      else case bt_get (st_shares st) h of
        None \<Rightarrow> (Panic, st)
      | Some node \<Rightarrow>
          bindA (readA (\<lambda>st. bindR (expect (nd_cumulative_score node)) (is_better_share st h))) (\<lambda>is_better st.
            if \<not> is_better then (Ok (), st)
            else if extends_active_tip st node then
              bindA (credit_share h (nd_share node)) (\<lambda>_ s.
                (Ok (), s\<lparr>st_active_share_hashes := bs_insert h (st_active_share_hashes s),
                          st_best_share_tip := Some h\<rparr>)) st
            else rebuild_active_branch h st) st)"

text \<open>The score and height of a candidate from its parent: nothing while the parent is unresolved.\<close>

definition branch_score :: "share_map \<Rightarrow> string \<Rightarrow> ShareNode \<Rightarrow> (SharechainReplayError, (Score \<times> u64) option) res" where
  "branch_score shares candidate_hash candidate =
     (if nd_parent_share_hash candidate = ZERO_SHARE_PARENT_HASH
      then Ok (Some (sh_hashrate_score_delta (nd_share candidate), 1))
      else case bt_get shares (nd_parent_share_hash candidate) of
        None \<Rightarrow> Ok None
      | Some parent \<Rightarrow> (case nd_cumulative_score parent of
          None \<Rightarrow> Ok None
        | Some parent_score \<Rightarrow>
            bindR (ok_or (ShareBranchScoreOverflow candidate_hash)
              (checked_add parent_score (sh_hashrate_score_delta (nd_share candidate)))) (\<lambda>score.
            bindR (ok_or (ShareBranchScoreOverflow candidate_hash)
              (checked_add (nd_height parent) 1)) (\<lambda>height.
            Ok (Some (score, height))))))"

definition children :: "SharechainReplayState \<Rightarrow> string \<Rightarrow> string list" where
  "children st h = (case bt_get (st_children_by_parent st) h of None \<Rightarrow> [] | Some s \<Rightarrow> bt_keys s)"

text \<open>
  The breadth-first loop. The fuel is the number of stored shares; \<open>ReplayTree\<close> shows that it
  never runs out in a reachable state, as a share enters the queue at most once.
\<close>

fun resolve_queue :: "nat \<Rightarrow> string list \<Rightarrow> unit replay_act" where
  "resolve_queue fuel [] st = (Ok (), st)"
| "resolve_queue 0 (c # q) st = (Panic, st)"
| "resolve_queue (Suc n) (c # q) st = (case bt_get (st_shares st) c of
     None \<Rightarrow> resolve_queue n q st
   | Some candidate \<Rightarrow> (case branch_score (st_shares st) c candidate of
       Err e \<Rightarrow> (Err e, st)
     | Panic \<Rightarrow> (Panic, st)
     | Ok None \<Rightarrow> resolve_queue n q st
     | Ok (Some (score, height)) \<Rightarrow>
         if height = 0 then (Err (ShareBranchScoreOverflow c), st)
         else bindA (consider_resolved_share c) (\<lambda>_ s. resolve_queue n (q @ children s c) s)
           (st\<lparr>st_shares := bt_insert c
             (candidate\<lparr>nd_cumulative_score := Some score, nd_height := height\<rparr>) (st_shares st)\<rparr>)))"

definition resolve_share_and_descendants :: "string \<Rightarrow> unit replay_act" where
  "resolve_share_and_descendants h st = resolve_queue (bt_len (st_shares st)) [h] st"

text \<open>\<open>find_map\<close> over the stored shares in key order.\<close>

definition other_root :: "share_map \<Rightarrow> string \<Rightarrow> string option" where
  "other_root shares candidate = map_option (\<lambda>(h, _). to_ascii_lowercase h)
     (List.find (\<lambda>(h, node). eq_ignore_ascii_case (nd_parent_share_hash node) ZERO_SHARE_PARENT_HASH
       \<and> \<not> eq_ignore_ascii_case h candidate) (entries shares))"

definition validate_unique_sharechain_root ::
  "string \<Rightarrow> string \<Rightarrow> SharechainReplayState \<Rightarrow> (SharechainReplayError, unit) res" where
  "validate_unique_sharechain_root candidate0 parent_share_hash st =
     (if \<not> eq_ignore_ascii_case parent_share_hash ZERO_SHARE_PARENT_HASH then Ok ()
      else let candidate = to_ascii_lowercase candidate0 in
        case other_root (st_shares st) candidate of
          Some existing \<Rightarrow> Err (AdditionalSharechainRoot existing candidate)
        | None \<Rightarrow> Ok ())"

definition new_node :: "Share \<Rightarrow> string \<Rightarrow> ShareNode" where
  "new_node share parent_share_hash = \<lparr>nd_share = share, nd_parent_share_hash = parent_share_hash,
     nd_cumulative_score = None, nd_height = 0\<rparr>"

definition add_child :: "string \<Rightarrow> string \<Rightarrow> (string, string btset) btree \<Rightarrow> (string, string btset) btree" where
  "add_child parent child m = bt_insert parent
     (bs_insert child (case bt_get m parent of None \<Rightarrow> bt_empty | Some s \<Rightarrow> s)) m"

definition apply_share :: "extern \<Rightarrow> Share \<Rightarrow> unit replay_act" where
  "apply_share X share0 st = (let share = normalized_share share0; h = share_hash X share in
     case bt_get (st_shares st) h of
       Some existing \<Rightarrow> if nd_share existing \<noteq> share then (Err (ConflictingShare h), st) else (Ok (), st)
     | None \<Rightarrow> (let work_hash = to_ascii_lowercase (sh_work_hash share) in
         case bt_get (st_share_hash_by_work_hash st) work_hash of
           Some existing_share_hash \<Rightarrow> (Err (DuplicateShareWork work_hash existing_share_hash), st)
         | None \<Rightarrow> (let parent = to_ascii_lowercase (sh_parent_share_hash share) in
             bindA (readA (validate_unique_sharechain_root h parent)) (\<lambda>_ st.
             bindA (resolve_share_and_descendants h) (\<lambda>_ s.
               (Ok (), s\<lparr>st_share_hash_by_work_hash := bt_insert work_hash h (st_share_hash_by_work_hash s)\<rparr>))
               (st\<lparr>st_shares := bt_insert h (new_node share parent) (st_shares st),
                   st_children_by_parent := add_child parent h (st_children_by_parent st)\<rparr>)) st)))"

definition validate_share_bitcoin_work_template ::
  "extern \<Rightarrow> Share \<Rightarrow> SharechainReplayState \<Rightarrow> (SharechainReplayError, unit) res" where
  "validate_share_bitcoin_work_template X share st = (let template_hash = to_ascii_lowercase (sh_bitcoin_template_hash share) in
     bindR (get_or (UnknownShareBitcoinWorkTemplate template_hash) (st_bitcoin_work_templates st) template_hash) (\<lambda>template.
     bindR (map_err InvalidSharechainSignature (bitcoin_header_prefix_hex X share)) (\<lambda>share_prefix.
     if \<not> eq_ignore_ascii_case share_prefix (bt_header_prefix_hex template)
     then Err (ShareBitcoinWorkTemplateMismatch template_hash)
     else map_err InvalidSharechainSignature (verify_assigned_share_target X template (sh_target share)))))"

definition check_share :: "extern \<Rightarrow> Share \<Rightarrow> SharechainReplayState \<Rightarrow> (SharechainReplayError, unit) res" where
  "check_share X share st = (let miner_id = to_ascii_lowercase (sh_miner_id share);
     template_hash = to_ascii_lowercase (sh_bitcoin_template_hash share) in
     bindR (get_or (UnknownShareMiner miner_id) (st_registrations st) miner_id) (\<lambda>registration.
     bindR (get_or (UnknownShareBitcoinWorkTemplate template_hash) (st_bitcoin_work_templates st) template_hash) (\<lambda>template.
     bindR (map_err InvalidSharechainSignature
       (verify_mining_signature_for_template X share (reg_mining_pubkey_hex registration) template)) (\<lambda>_.
     validate_share_bitcoin_work_template X share st))))"

section \<open>Checkpoints\<close>

definition check_checkpoint_order ::
  "SharechainCheckpointAnchorV1 \<Rightarrow> (u32 \<times> SharechainCheckpointAnchorV1) option \<Rightarrow> (SharechainReplayError, unit) res" where
  "check_checkpoint_order c previous = (let
     expected_round = (case previous of None \<Rightarrow> 1 | Some (round, _) \<Rightarrow> saturating_add round 1) in
     if cp_round c \<noteq> expected_round
     then Err (NonSequentialCheckpoint (saturating_sub expected_round 1) (cp_round c))
     else case previous of
       None \<Rightarrow> if cp_parent_checkpoint_tip c \<noteq> ZERO_SHARE_PARENT_HASH then Err CheckpointParentMismatch else Ok ()
     | Some (_, prior) \<Rightarrow>
         if cp_parent_checkpoint_tip c \<noteq> cp_share_tip_hash prior then Err CheckpointParentMismatch
         else bindR (ok_or CheckpointIntervalNotElapsed
           (checked_add (cp_finalization_block prior) CHECKPOINT_MIN_INTERVAL_BLOCKS)) (\<lambda>earliest.
         if cp_finalization_block c < earliest then Err CheckpointIntervalNotElapsed else Ok ()))"

definition check_checkpoint_miner ::
  "extern \<Rightarrow> SharechainCheckpointAnchorV1 \<Rightarrow> SharechainReplayState \<Rightarrow> string \<Rightarrow> (SharechainReplayError, unit) res" where
  "check_checkpoint_miner X c st miner_id =
     bindR (get_or CheckpointRegistrationSetMismatch (st_registrations st) miner_id) (\<lambda>registration.
     bindR (instead_err CheckpointRegistrationSetMismatch (require_registry_anchor X registration)) (\<lambda>anchor.
     if \<not> eq_ignore_ascii_case (mr_contract_address anchor) (cp_contract_address c)
       \<or> \<not> eq_ignore_ascii_case (mr_experiment_id anchor) (cp_experiment_id c)
     then Err CheckpointRegistrationSetMismatch else Ok ()))"

definition check_checkpoint_tip :: "SharechainCheckpointAnchorV1 \<Rightarrow> SharechainReplayState \<Rightarrow> (SharechainReplayError, unit) res" where
  "check_checkpoint_tip c st =
     bindR (ok_or (UnknownCheckpointShareTip (cp_share_tip_hash c))
       (case bt_get (st_shares st) (cp_share_tip_hash c) of
          None \<Rightarrow> None
        | Some node \<Rightarrow> if nd_cumulative_score node \<noteq> None then Some node else None)) (\<lambda>tip.
     bindR (ok_or CheckpointShareMetadataMismatch (parse_word (cp_cumulative_score c))) (\<lambda>expected_score.
     if nd_height tip \<noteq> cp_share_height c \<or> nd_cumulative_score tip \<noteq> Some expected_score
     then Err CheckpointShareMetadataMismatch else Ok ()))"

definition check_checkpoint :: "extern \<Rightarrow> SharechainCheckpointAnchorV1 \<Rightarrow> SharechainReplayState \<Rightarrow> (SharechainReplayError, unit) res" where
  "check_checkpoint X c st = (let previous = bt_last (st_sharechain_checkpoints st) in
     bindR (check_checkpoint_order c previous) (\<lambda>_.
     if bt_keys (st_registrations st) \<noteq> cp_registered_miners c then Err CheckpointRegistrationSetMismatch
     else bindR (try_each (check_checkpoint_miner X c st) (cp_registered_miners c)) (\<lambda>_.
     bindR (check_checkpoint_tip c st) (\<lambda>_.
     case previous of
       None \<Rightarrow> Ok ()
     | Some (_, prior) \<Rightarrow>
         if \<not> share_descends_from st (cp_share_tip_hash c) (cp_share_tip_hash prior)
         then Err CheckpointNotDescendant else Ok ()))))"

definition apply_sharechain_checkpoint :: "extern \<Rightarrow> SharechainCheckpointAnchorV1 \<Rightarrow> unit replay_act" where
  "apply_sharechain_checkpoint X checkpoint0 = (let c = normalized_checkpoint checkpoint0 in
     bindA (readA (\<lambda>_. map_err IdenaAnchorPolicy (validate_checkpoint c))) (\<lambda>_ st.
     case bt_get (st_sharechain_checkpoints st) (cp_round c) of
       Some existing \<Rightarrow> if existing = c then (Ok (), st) else (Err (ConflictingCheckpoint (cp_round c)), st)
     | None \<Rightarrow>
         bindA (readA (check_checkpoint X c)) (\<lambda>_ st.
           rebuild_active_branch (cp_share_tip_hash c)
             (st\<lparr>st_sharechain_checkpoints := bt_insert (cp_round c) c (st_sharechain_checkpoints st)\<rparr>)) st))"

section \<open>Votes, payouts and withdrawals\<close>

definition apply_snapshot_vote :: "extern \<Rightarrow> SnapshotVote \<Rightarrow> unit replay_act" where
  "apply_snapshot_vote X vote = (let voter_miner_id = to_ascii_lowercase (sv_voter_miner_id vote) in
     bindA (readA (\<lambda>st.
       bindR (get_or (UnknownSnapshotVoter voter_miner_id) (st_registrations st) voter_miner_id) (\<lambda>registration.
       map_err InvalidSharechainSignature (vote_verify_mining_signature X vote (reg_mining_pubkey_hex registration))))) (\<lambda>_.
     modifyA (\<lambda>st. let vkey = (sv_snapshot_day vote, sv_idena_height vote, to_ascii_lowercase (sv_score_root vote));
         voters = (case bt_get (st_snapshot_votes st) vkey of None \<Rightarrow> bt_empty | Some s \<Rightarrow> s)
       in st\<lparr>st_snapshot_votes := bt_insert vkey (bs_insert voter_miner_id voters) (st_snapshot_votes st)\<rparr>)))"

definition check_direct_output :: "SharechainReplayState \<Rightarrow> DirectPayout \<Rightarrow> (SharechainReplayError, unit) res" where
  "check_direct_output st d = (let miner_id = to_ascii_lowercase (dp_miner_id d) in
     bindR (get_or (UnknownPayoutMiner miner_id) (st_registrations st) miner_id) (\<lambda>registration.
     if to_ascii_lowercase (dp_btc_payout_script_hex d) \<noteq> reg_btc_payout_script_hex registration
     then Err (PayoutScriptMismatch miner_id) else Ok ()))"

definition check_vault_allocation :: "SharechainReplayState \<Rightarrow> VaultAllocation \<Rightarrow> (SharechainReplayError, unit) res" where
  "check_vault_allocation st a = (let miner_id = to_ascii_lowercase (va_miner_id a) in
     bindR (get_or (UnknownPayoutMiner miner_id) (st_registrations st) miner_id) (\<lambda>registration.
     if to_ascii_lowercase (va_claim_owner_id a) \<noteq> reg_claim_owner_pubkey_hex registration
     then Err (PayoutClaimOwnerMismatch miner_id) else Ok ()))"

definition validate_payout_schedule_bindings ::
  "extern \<Rightarrow> PayoutSchedule \<Rightarrow> SharechainReplayState \<Rightarrow> (SharechainReplayError, unit) res" where
  "validate_payout_schedule_bindings X s st =
     bindR (map_err InvalidPayoutSchedule (validate_schedule X s)) (\<lambda>_.
     bindR (try_each (check_direct_output st) (ps_direct_outputs s)) (\<lambda>_.
     try_each (check_vault_allocation st) (ps_vault_allocations s)))"

definition apply_payout_schedule_proposal :: "extern \<Rightarrow> PayoutSchedule \<Rightarrow> unit replay_act" where
  "apply_payout_schedule_proposal X s =
     bindA (readA (validate_payout_schedule_bindings X s)) (\<lambda>_ st.
     let payout_root = to_ascii_lowercase (ps_payout_root s) in
     case bt_get (st_proposed_payout_schedules st) payout_root of
       Some existing \<Rightarrow> if existing \<noteq> s then (Err (ConflictingPayoutSchedule payout_root), st) else (Ok (), st)
     | None \<Rightarrow> (Ok (), st\<lparr>st_proposed_payout_schedules :=
         bt_insert payout_root s (st_proposed_payout_schedules st)\<rparr>))"

definition expected_payout_schedule ::
  "extern \<Rightarrow> ParticipantAccount list \<Rightarrow> Sats \<Rightarrow> nat \<Rightarrow> Sats \<Rightarrow> SharechainReplayState \<Rightarrow> (SharechainReplayError, PayoutSchedule) res" where
  "expected_payout_schedule X accounts reward_sats direct_limit min_direct_payout_sats st =
     bindR (map_err InvalidPayoutSchedule (build_payout_schedule X accounts reward_sats direct_limit min_direct_payout_sats)) (\<lambda>schedule.
     bindR (validate_payout_schedule_bindings X schedule st) (\<lambda>_. Ok schedule))"

definition validate_deterministic_payout_schedule ::
  "extern \<Rightarrow> PayoutSchedule \<Rightarrow> ParticipantAccount list \<Rightarrow> Sats \<Rightarrow> nat \<Rightarrow> Sats \<Rightarrow> SharechainReplayState \<Rightarrow> (SharechainReplayError, unit) res" where
  "validate_deterministic_payout_schedule X schedule accounts reward_sats direct_limit min_direct_payout_sats st =
     bindR (validate_payout_schedule_bindings X schedule st) (\<lambda>_.
     bindR (expected_payout_schedule X accounts reward_sats direct_limit min_direct_payout_sats st) (\<lambda>expected.
     if expected \<noteq> schedule then Err PayoutScheduleMismatch else Ok ()))"

definition apply_confirmed_payout_schedule ::
  "extern \<Rightarrow> PayoutSchedule \<Rightarrow> ParticipantAccount list \<Rightarrow> Sats \<Rightarrow> nat \<Rightarrow> Sats \<Rightarrow> unit replay_act" where
  "apply_confirmed_payout_schedule X schedule accounts reward_sats direct_limit min_direct_payout_sats =
     bindA (readA (validate_deterministic_payout_schedule X schedule accounts reward_sats direct_limit min_direct_payout_sats)) (\<lambda>_.
     on_ledger (apply_payout_schedule schedule))"

definition replace_claim_ledger :: "ClaimLedger \<Rightarrow> SharechainReplayState \<Rightarrow> SharechainReplayState" where
  "replace_claim_ledger l st = st\<lparr>st_claim_ledger := l\<rparr>"

definition check_withdrawal_request ::
  "extern \<Rightarrow> WithdrawalRequest \<Rightarrow> SharechainReplayState \<Rightarrow> (SharechainReplayError, unit) res" where
  "check_withdrawal_request X request0 st =
     bindR (map_err InvalidWithdrawal (validate_request X request0 0)) (\<lambda>_.
     let request = normalized_request request0;
         available_sats = balance (st_claim_ledger st) (wr_claim_owner_id request) in
     if wr_amount_sats request > available_sats
     then Err (LedgerFailure (InsufficientBalance (wr_claim_owner_id request) (wr_amount_sats request) available_sats))
     else Ok ())"

definition apply_withdrawal_request :: "extern \<Rightarrow> WithdrawalRequest \<Rightarrow> unit replay_act" where
  "apply_withdrawal_request X request0 =
     bindA (readA (check_withdrawal_request X request0)) (\<lambda>_ st.
     let request = normalized_request request0 in
     case bt_get (st_withdrawal_requests st) (wr_request_id request) of
       Some existing \<Rightarrow> if existing \<noteq> request
         then (Err (ConflictingWithdrawalRequest (wr_request_id request)), st) else (Ok (), st)
     | None \<Rightarrow> (Ok (), st\<lparr>st_withdrawal_requests :=
         bt_insert (wr_request_id request) request (st_withdrawal_requests st)\<rparr>))"

definition stored_request :: "SharechainReplayState \<Rightarrow> WithdrawalOutput \<Rightarrow> (SharechainReplayError, WithdrawalRequest) res" where
  "stored_request st w = get_or (UnknownWithdrawalRequest (wo_request_id w)) (st_withdrawal_requests st) (wo_request_id w)"

definition expected_withdrawal_batch ::
  "extern \<Rightarrow> WithdrawalBatch \<Rightarrow> u64 \<Rightarrow> SharechainReplayState \<Rightarrow> (SharechainReplayError, WithdrawalBatch) res" where
  "expected_withdrawal_batch X batch0 current_height st = (let batch = normalized_batch batch0 in
     bindR (try_map (stored_request st) (wb_outputs batch)) (\<lambda>requests.
     bindR (map_err InvalidWithdrawal
       (build_withdrawal_batch X requests (wb_inputs batch) (wb_fee_rate_sat_vb batch) current_height)) (\<lambda>expected.
     if expected \<noteq> batch then Err (WithdrawalBatchMismatch (batch_hash X batch)) else Ok expected)))"

definition output_matches_request :: "WithdrawalRequest \<Rightarrow> WithdrawalOutput \<Rightarrow> bool" where
  "output_matches_request r w \<longleftrightarrow>
     eq_ignore_ascii_case (wr_destination_script_hex r) (wo_destination_script_hex w)
     \<and> wr_output_kind r = wo_output_kind w \<and> wr_amount_sats r = wo_gross_amount_sats w"

definition pending_matches_output :: "PendingWithdrawal \<Rightarrow> WithdrawalOutput \<Rightarrow> bool" where
  "pending_matches_output p w \<longleftrightarrow> pw_request_id p = wo_request_id w
     \<and> pw_gross_amount_sats p = wo_gross_amount_sats w \<and> pw_fee_sats p = wo_fee_sats w
     \<and> pw_net_amount_sats p = wo_net_amount_sats w"

text \<open>One turn of the loop of \<open>claim_ledger_after_withdrawal_batch\<close> on the cloned ledger.\<close>

definition reserve_output ::
  "extern \<Rightarrow> SharechainReplayState \<Rightarrow> u64 \<Rightarrow> ClaimLedger \<Rightarrow> WithdrawalOutput \<Rightarrow> (SharechainReplayError, ClaimLedger) res" where
  "reserve_output X st current_height ledger w =
     bindR (stored_request st w) (\<lambda>request.
     if \<not> output_matches_request request w then Err (WithdrawalBatchRequestMismatch (wo_request_id w))
     else case reserve_withdrawal X request (wo_fee_sats w) current_height ledger of
       (Ok reserved, ledger') \<Rightarrow>
         if \<not> pending_matches_output reserved w then Err (WithdrawalBatchRequestMismatch (wo_request_id w))
         else Ok ledger'
     | (Err e, _) \<Rightarrow> Err (LedgerFailure e)
     | (Panic, _) \<Rightarrow> Panic)"

definition claim_ledger_after_withdrawal_batch ::
  "extern \<Rightarrow> WithdrawalBatch \<Rightarrow> u64 \<Rightarrow> SharechainReplayState \<Rightarrow> (SharechainReplayError, ClaimLedger) res" where
  "claim_ledger_after_withdrawal_batch X batch0 current_height st =
     bindR (expected_withdrawal_batch X batch0 current_height st) (\<lambda>batch.
     try_fold (reserve_output X st current_height) (st_claim_ledger st) (wb_outputs batch))"

definition check_reserved_output ::
  "extern \<Rightarrow> u64 \<Rightarrow> SharechainReplayState \<Rightarrow> WithdrawalOutput \<Rightarrow> (SharechainReplayError, unit) res" where
  "check_reserved_output X current_height st w =
     bindR (stored_request st w) (\<lambda>request.
     if \<not> output_matches_request request w then Err (WithdrawalBatchRequestMismatch (wo_request_id w)) else
     bindR (map_err InvalidWithdrawal (validate_request X request current_height)) (\<lambda>_.
     bindR (ok_or (UnreservedWithdrawalRequest (wo_request_id w))
       (pending_withdrawal (st_claim_ledger st) (wo_request_id w))) (\<lambda>reserved.
     if \<not> pending_matches_output reserved w \<or> pw_claim_owner_id reserved \<noteq> wr_claim_owner_id request
     then Err (WithdrawalBatchRequestMismatch (wo_request_id w)) else Ok ())))"

definition withdrawal_batch_is_reserved ::
  "extern \<Rightarrow> WithdrawalBatch \<Rightarrow> u64 \<Rightarrow> SharechainReplayState \<Rightarrow> (SharechainReplayError, unit) res" where
  "withdrawal_batch_is_reserved X batch0 current_height st =
     bindR (expected_withdrawal_batch X batch0 current_height st) (\<lambda>batch.
     let h = batch_hash X batch in
     bindR (get_or (UnknownWithdrawalBatch h) (st_withdrawal_batches st) h) (\<lambda>accepted.
     if accepted \<noteq> batch then Err (ConflictingWithdrawalBatch h)
     else try_each (check_reserved_output X current_height st) (wb_outputs batch)))"

definition apply_withdrawal_batch :: "extern \<Rightarrow> WithdrawalBatch \<Rightarrow> unit replay_act" where
  "apply_withdrawal_batch X batch0 st = (let batch = normalized_batch batch0; h = batch_hash X batch in
     case bt_get (st_withdrawal_batches st) h of
       Some existing \<Rightarrow> if existing \<noteq> batch then (Err (ConflictingWithdrawalBatch h), st) else (Ok (), st)
     | None \<Rightarrow>
         bindA (readA (claim_ledger_after_withdrawal_batch X batch 0)) (\<lambda>ledger st.
           (Ok (), st\<lparr>st_claim_ledger := ledger,
                      st_withdrawal_batches := bt_insert h batch (st_withdrawal_batches st)\<rparr>)) st)"

section \<open>Applying a message\<close>

fun apply_payload :: "extern \<Rightarrow> SharechainMessage \<Rightarrow> unit replay_act" where
  "apply_payload X (MsgMinerRegistration r) = apply_registration X r"
| "apply_payload X (MsgBitcoinWorkTemplate t) = apply_bitcoin_work_template X t"
| "apply_payload X (MsgShare s) = bindA (readA (check_share X s)) (\<lambda>_. apply_share X s)"
| "apply_payload X (MsgSharechainCheckpoint c) = apply_sharechain_checkpoint X c"
| "apply_payload X (MsgSnapshotVote v) = apply_snapshot_vote X v"
| "apply_payload X (MsgPayoutSchedule s) = apply_payout_schedule_proposal X s"
| "apply_payload X (MsgWithdrawalRequest r) = apply_withdrawal_request X r"
| "apply_payload X (MsgWithdrawalBatch b) = apply_withdrawal_batch X b"
| "apply_payload X (MsgPohwCommitment c) = readA (\<lambda>_. map_err InvalidCommitment (validate_commitment_fields c))"

definition record_message :: "string \<Rightarrow> SharechainReplayState \<Rightarrow> SharechainReplayState" where
  "record_message h st = st\<lparr>st_applied_message_hashes := bs_insert h (st_applied_message_hashes st),
     st_last_message_hash := Some h\<rparr>"

definition apply_message :: "extern \<Rightarrow> SharechainMessage \<Rightarrow> ApplyOutcome replay_act" where
  "apply_message X m st = (let h = message_hash X m in
     if bt_contains (st_applied_message_hashes st) h then (Ok DuplicateIgnored, st)
     else bindA (apply_payload X m) (\<lambda>_ s. (Ok Applied, record_message h s)) st)"

section \<open>Policy checks on a message\<close>

definition validate_share_work_binding_policy ::
  "extern \<Rightarrow> SharechainMessage \<Rightarrow> ShareWorkBindingPolicyV1 \<Rightarrow> SharechainReplayState \<Rightarrow> (SharechainReplayError, unit) res" where
  "validate_share_work_binding_policy X message policy st =
     bindR (map_err (\<lambda>e. InvalidSharechainSignature (InvalidShareWorkBinding e)) (validate_binding_policy policy)) (\<lambda>_.
     case message of
       MsgShare share \<Rightarrow> (let template_hash = to_ascii_lowercase (sh_bitcoin_template_hash share) in
         bindR (get_or (UnknownShareBitcoinWorkTemplate template_hash) (st_bitcoin_work_templates st) template_hash) (\<lambda>template.
         map_err InvalidSharechainSignature (verify_required_work_binding X share template policy)))
     | _ \<Rightarrow> Ok ())"

definition validate_target_bound_message ::
  "extern \<Rightarrow> SharechainMessage \<Rightarrow> SharechainReplayState \<Rightarrow> (SharechainReplayError, unit) res" where
  "validate_target_bound_message X message st = (case message of
     MsgBitcoinWorkTemplate template \<Rightarrow> map_err InvalidSharechainSignature (require_target_bound X template)
   | MsgShare share \<Rightarrow> (let template_hash = to_ascii_lowercase (sh_bitcoin_template_hash share) in
       bindR (get_or (UnknownShareBitcoinWorkTemplate template_hash) (st_bitcoin_work_templates st) template_hash) (\<lambda>template.
       bindR (map_err InvalidSharechainSignature (require_target_bound X template)) (\<lambda>_.
       map_err InvalidSharechainSignature (verify_assigned_share_target X template (sh_target share)))))
   | _ \<Rightarrow> Ok ())"

text \<open>The loop over the stored shares that rejects a reused anchor of the same miner.\<close>

definition reuses_anchor :: "SharechainReplayState \<Rightarrow> string \<Rightarrow> IdenaBlockAnchorV1 \<Rightarrow> ShareNode \<Rightarrow> bool" where
  "reuses_anchor st miner_id anchor node \<longleftrightarrow>
     eq_ignore_ascii_case (sh_miner_id (nd_share node)) miner_id \<and>
     (case bt_get (st_bitcoin_work_templates st) (to_ascii_lowercase (sh_bitcoin_template_hash (nd_share node))) of
        None \<Rightarrow> False | Some t \<Rightarrow> bt_idena_anchor t = Some anchor)"

definition validate_bootstrap_parent ::
  "SharechainReplayState \<Rightarrow> string \<Rightarrow> IdenaBlockAnchorV1 \<Rightarrow> (SharechainReplayError, unit) res" where
  "validate_bootstrap_parent st parent_hash anchor =
     (if parent_hash = ZERO_SHARE_PARENT_HASH then Ok () else
     bindR (get_or (MissingAnchoredShareParent parent_hash) (st_shares st) parent_hash) (\<lambda>parent.
     let parent_template_hash = to_ascii_lowercase (sh_bitcoin_template_hash (nd_share parent)) in
     bindR (get_or (MissingAnchoredParentBitcoinWorkTemplate parent_template_hash)
       (st_bitcoin_work_templates st) parent_template_hash) (\<lambda>parent_template.
     case bt_idena_anchor parent_template of
       None \<Rightarrow> Ok ()
     | Some parent_anchor \<Rightarrow>
         if ba_height anchor \<le> ba_height parent_anchor then Err NonIncreasingBootstrapAnchor else Ok ())))"

definition validate_anchored_share ::
  "extern \<Rightarrow> Share \<Rightarrow> IdenaAnchorPolicyV2 \<Rightarrow> SharechainReplayState \<Rightarrow> (SharechainReplayError, unit) res" where
  "validate_anchored_share X share policy st = (let miner_id = to_ascii_lowercase (sh_miner_id share);
     template_hash = to_ascii_lowercase (sh_bitcoin_template_hash share);
     parent_hash = to_ascii_lowercase (sh_parent_share_hash share) in
     bindR (get_or (UnknownShareMiner miner_id) (st_registrations st) miner_id) (\<lambda>registration.
     bindR (instead_err (UnanchoredMinerRegistration miner_id) (require_registry_anchor X registration)) (\<lambda>registry_anchor.
     bindR (map_err IdenaAnchorPolicy (validate_registry_anchor X policy registry_anchor)) (\<lambda>_.
     bindR (get_or (UnknownShareBitcoinWorkTemplate template_hash) (st_bitcoin_work_templates st) template_hash) (\<lambda>template.
     bindR (instead_err (UnanchoredBitcoinWorkTemplate template_hash) (require_idena_anchor X template)) (\<lambda>anchor.
     if ba_height anchor < mr_registration_block registry_anchor then Err TemplateAnchorBeforeRegistration else
     bindR (validate_unique_sharechain_root (share_hash X share) parent_hash st) (\<lambda>_.
     bindR (map_err InvalidSharechainSignature (bitcoin_header_version X template)) (\<lambda>version.
     if \<not> bootstrap_limits_active policy version then Ok ()
     else if list_ex (reuses_anchor st miner_id anchor) (bt_values (st_shares st))
     then Err (DuplicateBootstrapAnchor miner_id (ba_height anchor))
     else validate_bootstrap_parent st parent_hash anchor))))))))"

definition validate_anchored_template ::
  "extern \<Rightarrow> BitcoinWorkTemplate \<Rightarrow> IdenaAnchorPolicyV2 \<Rightarrow> SharechainReplayState \<Rightarrow> (SharechainReplayError, unit) res" where
  "validate_anchored_template X template policy st = (let miner_id = to_ascii_lowercase (bt_miner_id template) in
     bindR (get_or (UnknownBitcoinWorkTemplateMiner miner_id) (st_registrations st) miner_id) (\<lambda>registration.
     bindR (instead_err (UnanchoredMinerRegistration miner_id) (require_registry_anchor X registration)) (\<lambda>registry_anchor.
     bindR (map_err IdenaAnchorPolicy (validate_registry_anchor X policy registry_anchor)) (\<lambda>_.
     bindR (instead_err (UnanchoredBitcoinWorkTemplate (to_ascii_lowercase (bt_template_hash template)))
       (require_idena_anchor X template)) (\<lambda>block_anchor.
     bindR (map_err IdenaAnchorPolicy (policy_commitment_hash X policy)) (\<lambda>policy_hash.
     bindR (map_err InvalidSharechainSignature (require_idena_anchor_policy_hash X template)) (\<lambda>template_policy_hash.
     if template_policy_hash \<noteq> policy_hash then Err (IdenaAnchorPolicy PolicyCommitmentMismatch)
     else if ba_height block_anchor < mr_registration_block registry_anchor then Err TemplateAnchorBeforeRegistration
     else Ok ())))))))"

definition validate_idena_anchor_policy ::
  "extern \<Rightarrow> SharechainMessage \<Rightarrow> IdenaAnchorPolicyV2 \<Rightarrow> SharechainReplayState \<Rightarrow> (SharechainReplayError, unit) res" where
  "validate_idena_anchor_policy X message policy st =
     bindR (map_err IdenaAnchorPolicy (validate_policy X policy)) (\<lambda>_.
     case message of
       MsgMinerRegistration registration \<Rightarrow>
         bindR (instead_err (UnanchoredMinerRegistration (to_ascii_lowercase (reg_miner_id registration)))
           (require_registry_anchor X registration)) (\<lambda>anchor.
         map_err IdenaAnchorPolicy (validate_registry_anchor X policy anchor))
     | MsgBitcoinWorkTemplate template \<Rightarrow> validate_anchored_template X template policy st
     | MsgShare share \<Rightarrow> validate_anchored_share X share policy st
     | MsgSharechainCheckpoint checkpoint \<Rightarrow> map_err IdenaAnchorPolicy (validate_checkpoint_anchor X policy checkpoint)
     | _ \<Rightarrow> Ok ())"

section \<open>Rebuilding the derived share state\<close>

fun index_work_hashes :: "(string \<times> ShareNode) list \<Rightarrow> unit replay_act" where
  "index_work_hashes [] st = (Ok (), st)"
| "index_work_hashes ((h, node) # nodes) st =
     bindA (readA (validate_unique_sharechain_root h (nd_parent_share_hash node))) (\<lambda>_ st.
       let work_hash = to_ascii_lowercase (sh_work_hash (nd_share node));
           existing = bt_get (st_share_hash_by_work_hash st) work_hash;
           st' = st\<lparr>st_share_hash_by_work_hash := bt_insert work_hash h (st_share_hash_by_work_hash st)\<rparr>
       in case existing of
         Some existing_share_hash \<Rightarrow> (Err (DuplicateShareWork work_hash existing_share_hash), st')
       | None \<Rightarrow> index_work_hashes nodes st') st"

definition index_children :: "share_map \<Rightarrow> (string, string btset) btree" where
  "index_children shares = foldl (\<lambda>m (h, node). add_child (nd_parent_share_hash node) h m) bt_empty (entries shares)"

type_synonym score_memo = "(string, (Score \<times> u64) option) btree"

function compute_share_branch_score ::
  "string \<Rightarrow> share_map \<Rightarrow> score_memo \<Rightarrow> string btset \<Rightarrow>
   (SharechainReplayError, (Score \<times> u64) option) res \<times> score_memo \<times> string btset" where
  "compute_share_branch_score h shares memo visiting = (case bt_get memo h of
     Some cached \<Rightarrow> (Ok cached, memo, visiting)
   | None \<Rightarrow>
       if bt_contains visiting h then (Ok None, bt_insert h None memo, visiting)
       else
       let visiting1 = bs_insert h visiting in
       (case (case bt_get shares h of
            None \<Rightarrow> (Ok None, memo, visiting1)
          | Some node \<Rightarrow>
              if nd_parent_share_hash node = ZERO_SHARE_PARENT_HASH
              then (Ok (Some (sh_hashrate_score_delta (nd_share node), 1)), memo, visiting1)
              else if bt_contains shares (nd_parent_share_hash node) then
                (case compute_share_branch_score (nd_parent_share_hash node) shares memo visiting1 of
                   (r, memo2, visiting2) \<Rightarrow>
                     (bindR r (\<lambda>parent. case parent of
                        None \<Rightarrow> Ok None
                      | Some (parent_score, parent_height) \<Rightarrow>
                          bindR (ok_or (ShareBranchScoreOverflow h)
                            (checked_add parent_score (sh_hashrate_score_delta (nd_share node)))) (\<lambda>score.
                          bindR (ok_or (ShareBranchScoreOverflow h) (checked_add parent_height 1)) (\<lambda>height.
                          Ok (Some (score, height))))), memo2, visiting2))
              else (Ok None, memo, visiting1)) of
          (Ok result, memo2, visiting2) \<Rightarrow> (Ok result, bt_insert h result memo2, bt_remove h visiting2)
        | (Err e, memo2, visiting2) \<Rightarrow> (Err e, memo2, visiting2)
        | (Panic, memo2, visiting2) \<Rightarrow> (Panic, memo2, visiting2)))"
  by pat_completeness auto
termination
  by (relation "measure (\<lambda>(h, shares, memo, visiting). card (unseen shares visiting))") (auto intro!: unseen_shrinks)

declare compute_share_branch_score.simps [simp del]

fun branch_score_table :: "share_map \<Rightarrow> score_memo \<Rightarrow> string list \<Rightarrow> (SharechainReplayError, score_memo) res" where
  "branch_score_table shares memo [] = Ok memo"
| "branch_score_table shares memo (h # hs) = (case compute_share_branch_score h shares memo bt_empty of
     (Ok _, memo', _) \<Rightarrow> branch_score_table shares memo' hs
   | (Err e, _, _) \<Rightarrow> Err e
   | (Panic, _, _) \<Rightarrow> Panic)"

definition store_scores :: "score_memo \<Rightarrow> share_map \<Rightarrow> share_map" where
  "store_scores scores shares = bt_map (\<lambda>h node. case bt_get scores h of
       Some (Some (score, height)) \<Rightarrow> node\<lparr>nd_cumulative_score := Some score, nd_height := height\<rparr>
     | _ \<Rightarrow> node\<lparr>nd_cumulative_score := None, nd_height := 0\<rparr>) shares"

definition best_scored_share :: "score_memo \<Rightarrow> string option" where
  "best_scored_share scores = map_option fst (max_by (then_with (asc snd) (desc fst))
     (List.map_filter (\<lambda>(h, s). map_option (\<lambda>(score, _). (h, score)) s) (entries scores)))"

text \<open>Here the crediting loop skips a share that is not stored.\<close>

fun credit_stored_branch :: "string list \<Rightarrow> unit replay_act" where
  "credit_stored_branch [] st = (Ok (), st)"
| "credit_stored_branch (h # hs) st = (case bt_get (st_shares st) h of
     None \<Rightarrow> credit_stored_branch hs st
   | Some node \<Rightarrow> bindA (credit_share h (nd_share node)) (\<lambda>_. credit_stored_branch hs) st)"

definition rebuild_derived_share_state :: "unit replay_act" where
  "rebuild_derived_share_state st =
     bindA (\<lambda>st. index_work_hashes (entries (st_shares st)) (st\<lparr>st_share_hash_by_work_hash := bt_empty\<rparr>)) (\<lambda>_ st.
     let st1 = st\<lparr>st_children_by_parent := index_children (st_shares st)\<rparr> in
     bindA (readA (\<lambda>st. branch_score_table (st_shares st) bt_empty (bt_keys (st_shares st)))) (\<lambda>scores st.
     let shares = store_scores scores (st_shares st);
         tip = best_scored_share scores;
         branch = (case tip of None \<Rightarrow> [] | Some t \<Rightarrow> active_branch shares bt_empty t)
     in credit_stored_branch branch (st\<lparr>st_shares := shares, st_best_share_tip := tip,
          st_active_share_hashes := bs_collect branch, st_hashrate_scores := bt_empty,
          st_active_share_score_total := 0\<rparr>)) st1) st"

section \<open>The accounting root\<close>

definition utf8 :: "bytes \<Rightarrow> string" where
  "utf8 bs = map (\<lambda>b. char_of (unat b)) bs"

definition accounting_snapshot_vote_key :: "extern \<Rightarrow> SnapshotVoteKey \<Rightarrow> string" where
  "accounting_snapshot_vote_key X k = (case k of (day, height, root) \<Rightarrow>
     utf8 (to_vec X (JArr [JStr day, JUInt height, JStr (to_ascii_lowercase root)])))"

definition json_PendingWithdrawal :: "PendingWithdrawal \<Rightarrow> json" where
  "json_PendingWithdrawal p = JObj [
     (''request_id'', JStr (pw_request_id p)),
     (''claim_owner_id'', JStr (pw_claim_owner_id p)),
     (''gross_amount_sats'', JUInt (pw_gross_amount_sats p)),
     (''fee_sats'', JUInt (pw_fee_sats p)),
     (''net_amount_sats'', JUInt (pw_net_amount_sats p))]"

definition json_ClaimLedger :: "ClaimLedger \<Rightarrow> json" where
  "json_ClaimLedger l = JObj [
     (''balances'', JMap (\<lambda>k. k) JUInt (cl_balances l)),
     (''pending_withdrawals'', JMap (\<lambda>k. k) json_PendingWithdrawal (cl_pending_withdrawals l)),
     (''last_withdrawal_nonce_by_owner'', JMap (\<lambda>k. k) JUInt (cl_last_withdrawal_nonce_by_owner l))]"

definition AccountingStateRootMaterial :: "extern \<Rightarrow> SharechainReplayState \<Rightarrow> json" where
  "AccountingStateRootMaterial X st = JObj [
     (''version'', JStr ''POHW1_ACCOUNTING_STATE''),
     (''best_share_tip'', JOpt JStr (st_best_share_tip st)),
     (''active_share_hashes'', JStrs (bt_keys (st_active_share_hashes st))),
     (''active_share_score_total'', JUInt (st_active_share_score_total st)),
     (''hashrate_scores'', JMap (\<lambda>k. k) JUInt (st_hashrate_scores st)),
     (''registrations'', JMap (\<lambda>k. k) json_MinerRegistration (bt_map (\<lambda>_. normalized_registration) (st_registrations st))),
     (''sharechain_checkpoints'', JMap show_word json_Checkpoint (st_sharechain_checkpoints st)),
     (''snapshot_votes'', JMap (\<lambda>k. k) JSet (bt_collect
       (map (\<lambda>(k, voters). (accounting_snapshot_vote_key X k, voters)) (entries (st_snapshot_votes st))))),
     (''proposed_payout_schedules'', JMap (\<lambda>k. k) json_PayoutSchedule (st_proposed_payout_schedules st)),
     (''withdrawal_requests'', JMap (\<lambda>k. k) json_WithdrawalRequest (bt_map (\<lambda>_. normalized_request) (st_withdrawal_requests st))),
     (''withdrawal_batches'', JMap (\<lambda>k. k) json_WithdrawalBatch (st_withdrawal_batches st)),
     (''claim_ledger'', json_ClaimLedger (st_claim_ledger st))]"

definition accounting_state_root :: "extern \<Rightarrow> SharechainReplayState \<Rightarrow> string" where
  "accounting_state_root X st = hash_hex X (sha256_tagged X (as_bytes ''POHW1_ACCOUNTING_STATE'')
     (canonical_json X (AccountingStateRootMaterial X st)))"

end
