(* ===== verification/ReplayTree.thy ===== *)
theory ReplayTree
  imports ReplayState
begin

text \<open>
  The share tree of the replay state: which shares count as resolved, what the branch of a share
  contributes to the scores, and that resolving a new share and its waiting descendants
  (\<open>resolve_new_share\<close>), choosing the best tip and rebuilding the active branch keep the tree
  consistent. The result for one share message is \<open>apply_share_correct\<close>.
\<close>

section \<open>Resolved shares\<close>

definition resolved :: "share_map \<Rightarrow> string \<Rightarrow> bool" where
  "resolved S h \<longleftrightarrow> (\<exists>node. bt_get S h = Some node \<and> nd_cumulative_score node \<noteq> None)"

definition scored_node :: "share_map \<Rightarrow> ShareNode \<Rightarrow> bool" where
  "scored_node S node \<longleftrightarrow> (case nd_cumulative_score node of
     None \<Rightarrow> nd_height node = 0
   | Some s \<Rightarrow>
       if nd_parent_share_hash node = ZERO_SHARE_PARENT_HASH
       then s = sh_hashrate_score_delta (nd_share node) \<and> nd_height node = 1
       else \<exists>p ps. bt_get S (nd_parent_share_hash node) = Some p \<and> nd_cumulative_score p = Some ps \<and>
         unat s = unat ps + unat (sh_hashrate_score_delta (nd_share node)) \<and>
         unat (nd_height node) = Suc (unat (nd_height p)))"

definition scored :: "share_map \<Rightarrow> bool" where
  "scored S \<longleftrightarrow> bt_get S ZERO_SHARE_PARENT_HASH = None \<and>
     (\<forall>h node. bt_get S h = Some node \<longrightarrow> scored_node S node)"

definition depth :: "share_map \<Rightarrow> string \<Rightarrow> nat" where
  "depth S h = (case bt_get S h of None \<Rightarrow> 0 | Some node \<Rightarrow> unat (nd_height node))"

definition weight :: "share_map \<Rightarrow> string \<Rightarrow> nat" where
  "weight S h = (case bt_get S h of None \<Rightarrow> 0 | Some node \<Rightarrow> unat (sh_hashrate_score_delta (nd_share node)))"

definition miner :: "share_map \<Rightarrow> string \<Rightarrow> string" where
  "miner S h = (case bt_get S h of None \<Rightarrow> [] | Some node \<Rightarrow> to_ascii_lowercase (sh_miner_id (nd_share node)))"

definition score_of :: "share_map \<Rightarrow> string \<Rightarrow> nat" where
  "score_of S h = (case bt_get S h of None \<Rightarrow> 0 | Some node \<Rightarrow>
     (case nd_cumulative_score node of None \<Rightarrow> 0 | Some s \<Rightarrow> unat s))"

abbreviation branch :: "share_map \<Rightarrow> string \<Rightarrow> string list" where
  "branch S h \<equiv> active_branch S bt_empty h"

lemma resolved_cases:
  assumes "scored S" and "resolved S h"
  obtains (root) node where "bt_get S h = Some node" "nd_parent_share_hash node = ZERO_SHARE_PARENT_HASH"
      "nd_cumulative_score node = Some (sh_hashrate_score_delta (nd_share node))" "nd_height node = 1"
  | (step) node s where "bt_get S h = Some node" "nd_parent_share_hash node \<noteq> ZERO_SHARE_PARENT_HASH"
      "nd_cumulative_score node = Some s" "resolved S (nd_parent_share_hash node)"
      "unat s = score_of S (nd_parent_share_hash node) + weight S h"
      "depth S h = Suc (depth S (nd_parent_share_hash node))"
proof -
  from assms(2) obtain node s where n: "bt_get S h = Some node" "nd_cumulative_score node = Some s"
    by (auto simp: resolved_def)
  with assms(1) have sn: "scored_node S node" by (auto simp: scored_def)
  show thesis
  proof (cases "nd_parent_share_hash node = ZERO_SHARE_PARENT_HASH")
    case True
    with sn n root show ?thesis by (simp add: scored_node_def)
  next
    case False
    with sn n step show ?thesis
      by (auto simp: scored_node_def resolved_def score_of_def weight_def depth_def)
  qed
qed

lemma resolved_induct [consumes 2, case_names root step]:
  assumes S: "scored S" and "resolved S h"
    and root: "\<And>h node. bt_get S h = Some node \<Longrightarrow> nd_parent_share_hash node = ZERO_SHARE_PARENT_HASH \<Longrightarrow>
      nd_cumulative_score node = Some (sh_hashrate_score_delta (nd_share node)) \<Longrightarrow> nd_height node = 1 \<Longrightarrow> P h"
    and step: "\<And>h node s. bt_get S h = Some node \<Longrightarrow> nd_parent_share_hash node \<noteq> ZERO_SHARE_PARENT_HASH \<Longrightarrow>
      nd_cumulative_score node = Some s \<Longrightarrow> resolved S (nd_parent_share_hash node) \<Longrightarrow>
      unat s = score_of S (nd_parent_share_hash node) + weight S h \<Longrightarrow>
      depth S h = Suc (depth S (nd_parent_share_hash node)) \<Longrightarrow> P (nd_parent_share_hash node) \<Longrightarrow> P h"
  shows "P h"
  using assms(2)
proof (induction "depth S h" arbitrary: h rule: less_induct)
  case less
  from S less.prems show ?case
  proof (cases rule: resolved_cases)
    case (root node)
    then show ?thesis by (rule assms(3))
  next
    case (step node s)
    moreover from step have "P (nd_parent_share_hash node)" by (intro less.hyps) simp_all
    ultimately show ?thesis using assms(4) by blast
  qed
qed

lemma branch_seen:
  assumes "scored S" and "resolved S h" and "\<And>x. bt_get seen x \<noteq> None \<Longrightarrow> depth S x > depth S h"
  shows "active_branch S seen h = branch S h"
  using assms
proof (induction arbitrary: seen rule: resolved_induct)
  case (root h node)
  have "bt_get seen h = None" using root.prems [of h] by (cases "bt_get seen h") auto
  with root show ?case by (simp add: active_branch.simps)
next
  case (step h node s)
  let ?p = "nd_parent_share_hash node"
  have "bt_get seen h = None" using step.prems [of h] by (cases "bt_get seen h") auto
  moreover have "active_branch S (bs_insert h seen) ?p = branch S ?p"
  proof (rule step.IH)
    fix x assume "bt_get (bs_insert h seen) x \<noteq> None"
    then show "depth S x > depth S ?p"
      using step.hyps(6) step.prems [of x] by (cases "x = h") auto
  qed
  moreover have "active_branch S (bs_insert h bt_empty) ?p = branch S ?p"
    by (rule step.IH) (use step.hyps(6) in \<open>auto split: if_splits\<close>)
  ultimately show ?case
    using step.hyps(1,2) by (subst (1 2) active_branch.simps) simp
qed

lemma branch_root:
  "bt_get S h = Some node \<Longrightarrow> nd_parent_share_hash node = ZERO_SHARE_PARENT_HASH \<Longrightarrow> branch S h = [h]"
  by (simp add: active_branch.simps)

lemma branch_step:
  assumes "scored S" and "resolved S h" and "bt_get S h = Some node"
    and "nd_parent_share_hash node \<noteq> ZERO_SHARE_PARENT_HASH"
  shows "branch S h = h # branch S (nd_parent_share_hash node)"
proof -
  from assms(1,2) have "resolved S (nd_parent_share_hash node)"
    and "depth S h = Suc (depth S (nd_parent_share_hash node))"
    by (cases rule: resolved_cases; use assms(3,4) in simp)+
  then have "active_branch S (bs_insert h bt_empty) (nd_parent_share_hash node) = branch S (nd_parent_share_hash node)"
    using assms(1) by (intro branch_seen) (auto split: if_splits)
  with assms(3,4) show ?thesis by (subst active_branch.simps) simp
qed

text \<open>What the branch of a resolved share is.\<close>

lemma branch_resolved:
  assumes "scored S" and "resolved S h"
  shows "\<forall>x \<in> set (branch S h). resolved S x \<and> depth S x \<le> depth S h"
  using assms
proof (induction rule: resolved_induct)
  case (root h node)
  then show ?case by (simp add: branch_root resolved_def)
next
  case (step h node s)
  moreover have "resolved S h" using step by (auto simp: resolved_def)
  ultimately show ?case using branch_step [OF assms(1), of h node] by auto
qed

lemma branch_facts:
  assumes "scored S" and "resolved S h"
  shows "hd (branch S h) = h \<and> distinct (branch S h) \<and> sum_list (map (weight S) (branch S h)) = score_of S h \<and>
    length (branch S h) = depth S h"
  using assms
proof (induction rule: resolved_induct)
  case (root h node)
  then show ?case by (simp add: branch_root weight_def score_of_def depth_def)
next
  case (step h node s)
  have r: "resolved S h" using step by (auto simp: resolved_def)
  have "h \<notin> set (branch S (nd_parent_share_hash node))"
    using branch_resolved [OF assms(1) step.hyps(4)] step.hyps(6) by auto
  with step show ?case
    using branch_step [OF assms(1) r step.hyps(1,2)] by (simp add: score_of_def add.commute)
qed

text \<open>Growing the tree keeps the branches of the shares that were resolved.\<close>

definition keeps :: "share_map \<Rightarrow> share_map \<Rightarrow> bool" where
  "keeps S S' \<longleftrightarrow> (\<forall>h node. bt_get S h = Some node \<longrightarrow> nd_cumulative_score node \<noteq> None \<longrightarrow> bt_get S' h = Some node)"

lemma keeps_resolved: "keeps S S' \<Longrightarrow> resolved S h \<Longrightarrow> resolved S' h \<and> bt_get S' h = bt_get S h"
  by (auto simp: keeps_def resolved_def)

lemma keeps_trans: "keeps S S' \<Longrightarrow> keeps S' S'' \<Longrightarrow> keeps S S''"
  by (force simp: keeps_def)

lemma keeps_branch:
  assumes "scored S" and "resolved S h" and "scored S'" and "keeps S S'"
  shows "branch S' h = branch S h"
  using assms(1,2)
proof (induction rule: resolved_induct)
  case (root h node)
  then have "bt_get S' h = Some node" using assms(4) by (auto simp: keeps_def)
  with root show ?case by (simp add: branch_root)
next
  case (step h node s)
  have r: "resolved S h" using step by (auto simp: resolved_def)
  have "bt_get S' h = Some node" and r': "resolved S' h" using keeps_resolved [OF assms(4) r] step by auto
  with step show ?case
    using branch_step [OF assms(1) r step.hyps(1,2)] branch_step [OF assms(3) r'] by simp
qed

section \<open>Accounting of a list of shares\<close>

definition credited :: "share_map \<Rightarrow> string list \<Rightarrow> string \<Rightarrow> nat" where
  "credited S hs m = sum_list (map (weight S) (filter (\<lambda>h. miner S h = m) hs))"

definition totals_for :: "SharechainReplayState \<Rightarrow> string list \<Rightarrow> bool" where
  "totals_for st hs \<longleftrightarrow>
     unat (st_active_share_score_total st) = sum_list (map (weight (st_shares st)) hs) \<and>
     (\<forall>m. unat (score_entry (st_hashrate_scores st) m) = credited (st_shares st) hs m) \<and>
     (\<forall>m. bt_contains (st_hashrate_scores st) m \<longleftrightarrow> m \<in> miner (st_shares st) ` set hs)"

definition accounts_for :: "SharechainReplayState \<Rightarrow> string list \<Rightarrow> bool" where
  "accounts_for st hs \<longleftrightarrow> st_active_share_hashes st = bs_collect hs \<and> totals_for st hs"

lemma credited_simps [simp]:
  "credited S [] m = 0"
  "credited S (h # hs) m = (if miner S h = m then weight S h else 0) + credited S hs m"
  "credited S (hs @ hs') m = credited S hs m + credited S hs' m"
  by (simp_all add: credited_def)

lemma bs_collect_set_eq: "set hs = set hs' \<Longrightarrow> bs_collect hs = bs_collect hs'"
  by (rule btm.map_ext) (simp add: bs_get_collect)

lemma bs_collect_Cons: "bs_collect (h # hs) = bs_insert h (bs_collect hs)"
  by (rule btm.map_ext) (simp add: bs_get_collect)

lemma totals_for_append_Cons: "totals_for st (hs @ [h]) \<longleftrightarrow> totals_for st (h # hs)"
  by (simp add: totals_for_def add.commute)

lemma totals_for_cong:
  assumes "totals_for st hs" and "st_active_share_score_total st' = st_active_share_score_total st"
    and "st_hashrate_scores st' = st_hashrate_scores st"
    and "\<And>h. h \<in> set hs \<Longrightarrow> bt_get (st_shares st') h = bt_get (st_shares st) h"
  shows "totals_for st' hs"
proof -
  have "weight (st_shares st') h = weight (st_shares st) h" "miner (st_shares st') h = miner (st_shares st) h"
    if "h \<in> set hs" for h
    using assms(4) [OF that] by (simp_all add: weight_def miner_def)
  then have w: "sum_list (map (weight (st_shares st')) hs) = sum_list (map (weight (st_shares st)) hs)"
    and m: "miner (st_shares st') ` set hs = miner (st_shares st) ` set hs"
    and c: "credited (st_shares st') hs m = credited (st_shares st) hs m" for m
    by (auto simp: credited_def cong: map_cong filter_cong)
      (intro arg_cong [where f = sum_list] map_cong, auto cong: filter_cong)
  from assms(1-3) show ?thesis unfolding totals_for_def w m c by simp
qed

text \<open>What changes when shares are credited.\<close>

definition scores_only :: "SharechainReplayState \<Rightarrow> SharechainReplayState \<Rightarrow> bool" where
  "scores_only st st' \<longleftrightarrow> st'\<lparr>st_hashrate_scores := bt_empty, st_active_share_score_total := 0\<rparr> =
     st\<lparr>st_hashrate_scores := bt_empty, st_active_share_score_total := 0\<rparr>"

definition underived :: "SharechainReplayState \<Rightarrow> SharechainReplayState" where
  "underived st = st\<lparr>st_active_share_hashes := bt_empty, st_hashrate_scores := bt_empty,
     st_active_share_score_total := 0, st_best_share_tip := None\<rparr>"

lemma scores_only_fields:
  assumes "scores_only st st'"
  shows "st_shares st' = st_shares st" "st_active_share_hashes st' = st_active_share_hashes st"
    "st_best_share_tip st' = st_best_share_tip st" "underived st' = underived st"
proof -
  have e: "st'\<lparr>st_hashrate_scores := bt_empty, st_active_share_score_total := 0\<rparr> =
     st\<lparr>st_hashrate_scores := bt_empty, st_active_share_score_total := 0\<rparr>"
    using assms by (simp add: scores_only_def)
  show "st_shares st' = st_shares st" "st_active_share_hashes st' = st_active_share_hashes st"
    "st_best_share_tip st' = st_best_share_tip st" "underived st' = underived st"
    using arg_cong [OF e, of st_shares] arg_cong [OF e, of st_active_share_hashes]
      arg_cong [OF e, of st_best_share_tip] arg_cong [OF e, of underived]
    by (simp_all add: underived_def)
qed

lemma underived_fields:
  assumes "underived st' = underived st"
  shows "st_shares st' = st_shares st" "st_children_by_parent st' = st_children_by_parent st"
    "st_sharechain_checkpoints st' = st_sharechain_checkpoints st"
  using arg_cong [OF assms, of st_shares] arg_cong [OF assms, of st_children_by_parent]
    arg_cong [OF assms, of st_sharechain_checkpoints]
  by (simp_all add: underived_def)

lemma credit_share_Ok:
  assumes "credit_share h share st = (Ok (), st')"
  shows "scores_only st st' \<and>
    unat (st_active_share_score_total st') = unat (st_active_share_score_total st) + unat (sh_hashrate_score_delta share) \<and>
    (\<forall>m. unat (score_entry (st_hashrate_scores st') m) = unat (score_entry (st_hashrate_scores st) m) +
      (if m = to_ascii_lowercase (sh_miner_id share) then unat (sh_hashrate_score_delta share) else 0)) \<and>
    (\<forall>m. bt_contains (st_hashrate_scores st') m \<longleftrightarrow>
      m = to_ascii_lowercase (sh_miner_id share) \<or> bt_contains (st_hashrate_scores st) m)"
  using assms
  by (auto simp: credit_share_def Let_def scores_only_def checked_simps score_entry_def btm.ins_ins
      split: option.splits)

lemma credit_share_no_panic: "fst (credit_share h share st) \<noteq> Panic"
  by (simp add: credit_share_def Let_def split: option.splits)

lemma credit_share_totals:
  assumes "credit_share h (nd_share node) st = (Ok (), st')" and "bt_get (st_shares st) h = Some node"
    and "totals_for st hs"
  shows "totals_for st' (hs @ [h])"
proof -
  note c = credit_share_Ok [OF assms(1)]
  then have S: "st_shares st' = st_shares st" by (simp add: scores_only_fields)
  from assms(2) have "weight (st_shares st) h = unat (sh_hashrate_score_delta (nd_share node))"
    "miner (st_shares st) h = to_ascii_lowercase (sh_miner_id (nd_share node))"
    by (simp_all add: weight_def miner_def)
  with c assms(3) S show ?thesis unfolding totals_for_def by auto
qed

lemma credit_branch_totals:
  assumes "credit_branch hs st = (Ok (), st')" and "totals_for st done"
  shows "scores_only st st' \<and> totals_for st' (done @ hs)"
  using assms
proof (induction hs arbitrary: st "done")
  case Nil
  then show ?case by (simp add: scores_only_def)
next
  case (Cons h hs)
  from Cons.prems(1) obtain node st1 where n: "bt_get (st_shares st) h = Some node"
    and c: "credit_share h (nd_share node) st = (Ok (), st1)" and r: "credit_branch hs st1 = (Ok (), st')"
    by (auto simp: res_simps split: option.splits)
  have "scores_only st1 st' \<and> totals_for st' ((done @ [h]) @ hs)"
    by (rule Cons.IH [OF r]) (rule credit_share_totals [OF c n Cons.prems(2)])
  with credit_share_Ok [OF c] show ?case by (simp add: scores_only_def)
qed

lemma credit_branch_no_panic:
  assumes "\<And>h. h \<in> set hs \<Longrightarrow> bt_get (st_shares st) h \<noteq> None"
  shows "fst (credit_branch hs st) \<noteq> Panic"
  using assms
proof (induction hs arbitrary: st)
  case (Cons h hs)
  then obtain node where n: "bt_get (st_shares st) h = Some node" by fastforce
  obtain r st1 where c: "credit_share h (nd_share node) st = (r, st1)" by fastforce
  show ?case
  proof (cases r)
    case (Ok u)
    then have "st_shares st1 = st_shares st" using credit_share_Ok c by (metis old.unit.exhaust scores_only_fields(1))
    with Cons.prems have "fst (credit_branch hs st1) \<noteq> Panic" by (intro Cons.IH) simp
    with n c Ok show ?thesis by (simp add: bindA_def)
  next
    case Panic
    with c credit_share_no_panic [of h "nd_share node" st] show ?thesis by simp
  qed (use n c in \<open>simp add: bindA_def\<close>)
qed simp

section \<open>The active tip\<close>

definition tip_ok :: "SharechainReplayState \<Rightarrow> bool" where
  "tip_ok st \<longleftrightarrow> (case st_best_share_tip st of
     None \<Rightarrow> accounts_for st []
   | Some t \<Rightarrow> resolved (st_shares st) t \<and> accounts_for st (branch (st_shares st) t))"

lemma tip_ok_keeps:
  assumes "tip_ok st" and "scored (st_shares st)" and "scored S'" and "keeps (st_shares st) S'"
    and "st' = st\<lparr>st_shares := S', st_children_by_parent := C\<rparr>"
  shows "tip_ok st'"
proof (cases "st_best_share_tip st")
  case None
  with assms(1,5) show ?thesis by (simp add: tip_ok_def accounts_for_def totals_for_def)
next
  case (Some t)
  with assms(1) have r: "resolved (st_shares st) t" and a: "accounts_for st (branch (st_shares st) t)"
    by (auto simp: tip_ok_def)
  have same: "bt_get S' h = bt_get (st_shares st) h" if "h \<in> set (branch (st_shares st) t)" for h
    using that branch_resolved [OF assms(2) r] keeps_resolved [OF assms(4)] by auto
  have "totals_for st' (branch (st_shares st) t)"
    by (rule totals_for_cong [where st = st]) (use a same assms(5) in \<open>auto simp: accounts_for_def\<close>)
  with a keeps_branch [OF assms(2) r assms(3,4)] keeps_resolved [OF assms(4) r] Some assms(5)
  show ?thesis by (simp add: tip_ok_def accounts_for_def)
qed

lemma rebuild_active_branch_Ok:
  assumes "rebuild_active_branch t st = (Ok (), st')" and "resolved (st_shares st) t"
  shows "underived st' = underived st \<and> st_best_share_tip st' = Some t \<and> tip_ok st'"
proof -
  let ?b = "branch (st_shares st) t"
  let ?st0 = "st\<lparr>st_active_share_hashes := bs_collect ?b, st_hashrate_scores := bt_empty,
     st_active_share_score_total := 0\<rparr>"
  from assms(1) obtain st1 where c: "credit_branch ?b ?st0 = (Ok (), st1)"
    and st': "st' = st1\<lparr>st_best_share_tip := Some t\<rparr>"
    by (auto simp: rebuild_active_branch_def Let_def res_simps)
  have "totals_for ?st0 []" by (simp add: totals_for_def score_entry_def)
  from credit_branch_totals [OF c this] have f: "scores_only ?st0 st1" and t: "totals_for st1 ?b"
    by simp_all
  have "totals_for st' ?b" by (rule totals_for_cong [OF t]) (simp_all add: st')
  with assms(2) scores_only_fields [OF f] show ?thesis
    by (simp add: st' tip_ok_def accounts_for_def underived_def)
qed

lemma rebuild_active_branch_no_panic:
  assumes "scored (st_shares st)" and "resolved (st_shares st) t"
  shows "fst (rebuild_active_branch t st) \<noteq> Panic"
proof -
  have "fst (credit_branch (branch (st_shares st) t) (st\<lparr>st_active_share_hashes := A,
      st_hashrate_scores := bt_empty, st_active_share_score_total := 0\<rparr>)) \<noteq> Panic" for A
    using branch_resolved [OF assms] by (intro credit_branch_no_panic) (auto simp: resolved_def)
  then show ?thesis
    by (auto simp: rebuild_active_branch_def Let_def bindA_def split: prod.splits res.splits)
      (metis fst_conv)+
qed

text \<open>The order of the fork choice.\<close>

definition beats :: "share_map \<Rightarrow> string \<Rightarrow> string option \<Rightarrow> bool" where
  "beats S h tip \<longleftrightarrow> (case tip of None \<Rightarrow> True
   | Some t \<Rightarrow> score_of S h > score_of S t \<or> (score_of S h = score_of S t \<and> h < t))"

lemma is_better_share_eq:
  assumes "tip_ok st" and "bt_get (st_shares st) h = Some node" and "nd_cumulative_score node = Some s"
  shows "is_better_share st h s = Ok (beats (st_shares st) h (st_best_share_tip st))"
proof (cases "st_best_share_tip st")
  case None
  then show ?thesis by (simp add: is_better_share_def beats_def)
next
  case (Some t)
  with assms(1) obtain tn ts where "bt_get (st_shares st) t = Some tn" "nd_cumulative_score tn = Some ts"
    by (auto simp: tip_ok_def resolved_def)
  with Some assms(2,3) show ?thesis
    by (auto simp: is_better_share_def beats_def score_of_def word_less_nat_alt dest: unat_eq_word)
qed

lemma consider_resolved_share_eq:
  assumes "tip_ok st" and "bt_get (st_shares st) h = Some node" and "nd_cumulative_score node = Some s"
    and "bt_last (st_sharechain_checkpoints st) = None"
  shows "consider_resolved_share h st =
    (if \<not> beats (st_shares st) h (st_best_share_tip st) then (Ok (), st)
     else if extends_active_tip st node then
       bindA (credit_share h (nd_share node)) (\<lambda>_ s.
         (Ok (), s\<lparr>st_active_share_hashes := bs_insert h (st_active_share_hashes s),
                   st_best_share_tip := Some h\<rparr>)) st
     else rebuild_active_branch h st)"
  using assms is_better_share_eq [OF assms(1-3)]
  by (simp add: consider_resolved_share_def latest_sharechain_checkpoint_def bindA_def readA_def)

lemma consider_resolved_share_no_panic:
  assumes "scored (st_shares st)" and "tip_ok st" and "resolved (st_shares st) h"
    and "bt_last (st_sharechain_checkpoints st) = None"
  shows "fst (consider_resolved_share h st) \<noteq> Panic"
proof -
  from assms(3) obtain node s where n: "bt_get (st_shares st) h = Some node" "nd_cumulative_score node = Some s"
    by (auto simp: resolved_def)
  have "fst (bindA (credit_share h (nd_share node)) (\<lambda>_ s. (Ok (), g s)) st) \<noteq> Panic" for g
    using credit_share_no_panic [of h "nd_share node" st] by (auto simp: bindA_def split: prod.splits res.splits)
  then show ?thesis
    using rebuild_active_branch_no_panic [OF assms(1,3)] by (simp add: consider_resolved_share_eq [OF assms(2) n assms(4)])
qed

lemma consider_resolved_share_Ok:
  assumes "consider_resolved_share h st = (Ok (), st')" and "scored (st_shares st)" and "tip_ok st"
    and "resolved (st_shares st) h" and "bt_last (st_sharechain_checkpoints st) = None"
  shows "underived st' = underived st \<and> tip_ok st' \<and>
    st_best_share_tip st' = (if beats (st_shares st) h (st_best_share_tip st) then Some h else st_best_share_tip st)"
proof -
  let ?S = "st_shares st"
  from assms(4) obtain node s where n: "bt_get ?S h = Some node" "nd_cumulative_score node = Some s"
    by (auto simp: resolved_def)
  note eq = assms(1) [unfolded consider_resolved_share_eq [OF assms(3) n assms(5)]]
  consider (worse) "\<not> beats ?S h (st_best_share_tip st)"
    | (extend) "beats ?S h (st_best_share_tip st)" "extends_active_tip st node"
    | (rebuild) "beats ?S h (st_best_share_tip st)" "\<not> extends_active_tip st node" by blast
  then show ?thesis
  proof cases
    case worse
    with assms(3) eq show ?thesis by simp
  next
    case extend
    let ?p = "nd_parent_share_hash node"
    from extend(2) have tip: "st_best_share_tip st = Some ?p"
      by (auto simp: extends_active_tip_def split: option.splits)
    with assms(3) have rp: "resolved ?S ?p" and a: "accounts_for st (branch ?S ?p)"
      by (auto simp: tip_ok_def)
    from eq extend obtain st1 where c: "credit_share h (nd_share node) st = (Ok (), st1)"
      and st': "st' = st1\<lparr>st_active_share_hashes := bs_insert h (st_active_share_hashes st1), st_best_share_tip := Some h\<rparr>"
      by (auto simp: res_simps)
    have f: "scores_only st st1" using credit_share_Ok [OF c] by simp
    have "?p \<noteq> ZERO_SHARE_PARENT_HASH" using assms(2) rp by (auto simp: scored_def resolved_def)
    then have b: "branch ?S h = h # branch ?S ?p"
      by (rule branch_step [OF assms(2,4) n(1)])
    have "totals_for st1 (h # branch ?S ?p)"
      using credit_share_totals [OF c n(1)] a by (simp add: accounts_for_def totals_for_append_Cons)
    then have "totals_for st' (h # branch ?S ?p)"
      by (rule totals_for_cong) (simp_all add: st')
    with a assms(4) extend scores_only_fields [OF f] b show ?thesis
      by (simp add: st' tip_ok_def accounts_for_def underived_def bs_collect_Cons)
  next
    case rebuild
    with eq have "rebuild_active_branch h st = (Ok (), st')" by simp
    from rebuild_active_branch_Ok [OF this assms(4)] rebuild show ?thesis by simp
  qed
qed

section \<open>The resolution loop\<close>

definition ready :: "share_map \<Rightarrow> ShareNode \<Rightarrow> bool" where
  "ready S node \<longleftrightarrow> nd_parent_share_hash node = ZERO_SHARE_PARENT_HASH \<or> resolved S (nd_parent_share_hash node)"

definition child_index :: "SharechainReplayState \<Rightarrow> bool" where
  "child_index st \<longleftrightarrow> (\<forall>p c. c \<in> set (children st p) \<longleftrightarrow>
     (\<exists>node. bt_get (st_shares st) c = Some node \<and> nd_parent_share_hash node = p))"

definition complete_but :: "share_map \<Rightarrow> string list \<Rightarrow> bool" where
  "complete_but S q \<longleftrightarrow> (\<forall>h node. bt_get S h = Some node \<and> ready S node \<longrightarrow> resolved S h \<or> h \<in> set q)"

definition queue_ok :: "share_map \<Rightarrow> string list \<Rightarrow> bool" where
  "queue_ok S q \<longleftrightarrow> distinct q \<and>
     (\<forall>h \<in> set q. \<exists>node. bt_get S h = Some node \<and> nd_cumulative_score node = None \<and> ready S node)"

definition best_ok :: "SharechainReplayState \<Rightarrow> bool" where
  "best_ok st \<longleftrightarrow> bt_last (st_sharechain_checkpoints st) \<noteq> None \<or>
     (\<forall>h. resolved (st_shares st) h \<longrightarrow> \<not> beats (st_shares st) h (st_best_share_tip st))"

definition unresolved :: "share_map \<Rightarrow> string set" where
  "unresolved S = {h \<in> set (bt_keys S). \<not> resolved S h}"

lemma finite_unresolved: "finite (unresolved S)"
  by (rule finite_subset [of _ "set (bt_keys S)"]) (auto simp: unresolved_def simp del: set_bt_keys)

text \<open>One share gets its score: \<open>c\<close> was ready, and \<open>S'\<close> differs from \<open>S\<close> in the score of \<open>c\<close> only.\<close>

definition resolves :: "share_map \<Rightarrow> string \<Rightarrow> ShareNode \<Rightarrow> Score \<Rightarrow> u64 \<Rightarrow> bool" where
  "resolves S c node s ht \<longleftrightarrow> bt_get S c = Some node \<and> nd_cumulative_score node = None \<and> ready S node \<and>
     scored_node S (node\<lparr>nd_cumulative_score := Some s, nd_height := ht\<rparr>)"

abbreviation with_score :: "share_map \<Rightarrow> string \<Rightarrow> ShareNode \<Rightarrow> Score \<Rightarrow> u64 \<Rightarrow> share_map" where
  "with_score S c node s ht \<equiv> bt_insert c (node\<lparr>nd_cumulative_score := Some s, nd_height := ht\<rparr>) S"

lemma resolved_with_score:
  "resolves S c node s ht \<Longrightarrow> resolved (with_score S c node s ht) h \<longleftrightarrow> h = c \<or> resolved S h"
  by (auto simp: resolves_def resolved_def)

lemma keeps_with_score: "resolves S c node s ht \<Longrightarrow> keeps S (with_score S c node s ht)"
  by (auto simp: keeps_def resolves_def)

lemma parent_of_resolving:
  assumes "resolves S c node s ht" and "scored S"
  shows "nd_parent_share_hash node \<noteq> c" and "c \<noteq> ZERO_SHARE_PARENT_HASH" and "\<not> resolved S c"
  using assms by (auto simp: resolves_def ready_def resolved_def scored_def)

lemma scored_with_score:
  assumes r: "resolves S c node s ht" and S: "scored S"
  shows "scored (with_score S c node s ht)"
proof -
  let ?S = "with_score S c node s ht"
  have mono: "scored_node ?S n" if "scored_node S n" for n
    using that parent_of_resolving(3) [OF assms]
    by (auto simp: scored_node_def resolved_def split: option.splits if_splits)
  show ?thesis
    using S r parent_of_resolving(2) [OF assms] by (auto simp: scored_def resolves_def intro!: mono)
qed

lemma child_of_resolving:
  assumes r: "resolves S c node s ht" and S: "scored S"
    and "bt_get S x = Some xn" and "nd_parent_share_hash xn = c"
  shows "x \<noteq> c" and "nd_cumulative_score xn = None"
proof -
  show "x \<noteq> c" using parent_of_resolving(1) [OF r S] assms(3,4) r by (auto simp: resolves_def)
  show "nd_cumulative_score xn = None"
  proof (rule ccontr)
    assume "nd_cumulative_score xn \<noteq> None"
    with assms(3) have "resolved S x" by (auto simp: resolved_def)
    with S show False
      by (cases rule: resolved_cases) (use assms(3,4) parent_of_resolving(2,3) [OF r S] in auto)
  qed
qed

lemma queue_step:
  assumes r: "resolves S c node s ht" and S: "scored S" and q: "queue_ok S (c # q)"
    and ch: "distinct cs" "\<And>x. x \<in> set cs \<longleftrightarrow> (\<exists>xn. bt_get S x = Some xn \<and> nd_parent_share_hash xn = c)"
  shows "queue_ok (with_score S c node s ht) (q @ cs)"
proof -
  let ?S = "with_score S c node s ht"
  have "x \<notin> set cs" if "x \<in> set q" for x
  proof
    assume "x \<in> set cs"
    with that q ch(2) have "\<exists>xn. bt_get S x = Some xn \<and> nd_parent_share_hash xn = c \<and> ready S xn"
      by (auto simp: queue_ok_def)
    then show False using parent_of_resolving(2,3) [OF r S] by (auto simp: ready_def)
  qed
  then have "distinct (q @ cs)" using q ch(1) by (auto simp: queue_ok_def)
  moreover have "\<exists>n. bt_get ?S x = Some n \<and> nd_cumulative_score n = None \<and> ready ?S n" if "x \<in> set q" for x
    using q that by (auto simp: queue_ok_def ready_def resolved_with_score [OF r])
  moreover have "\<exists>n. bt_get ?S x = Some n \<and> nd_cumulative_score n = None \<and> ready ?S n" if "x \<in> set cs" for x
    using that ch(2) child_of_resolving [OF r S] by (auto simp: ready_def resolved_with_score [OF r])
  ultimately show ?thesis unfolding queue_ok_def set_append ball_Un by blast
qed

lemma complete_step:
  assumes r: "resolves S c node s ht" and "complete_but S (c # q)"
    and ch: "\<And>x. x \<in> set cs \<longleftrightarrow> (\<exists>xn. bt_get S x = Some xn \<and> nd_parent_share_hash xn = c)"
  shows "complete_but (with_score S c node s ht) (q @ cs)"
  using assms(2) ch
  by (auto simp: complete_but_def resolved_with_score [OF r] ready_def split: if_splits)

lemma unresolved_step:
  assumes r: "resolves S c node s ht" and S: "scored S"
  shows "card (unresolved S) = Suc (card (unresolved (with_score S c node s ht)))"
proof -
  have "unresolved S = insert c (unresolved (with_score S c node s ht))"
    using r parent_of_resolving(3) [OF assms]
    by (auto simp: unresolved_def resolved_with_score [OF r] resolves_def)
  moreover have "c \<notin> unresolved (with_score S c node s ht)"
    by (simp add: unresolved_def resolved_with_score [OF r])
  ultimately show ?thesis using finite_unresolved by simp
qed

lemma branch_score_ready:
  assumes "bt_get S c = Some node" and "nd_cumulative_score node = None" and "ready S node" and "scored S"
  shows "(\<exists>e. branch_score S c node = Err e) \<or>
    (\<exists>s ht. branch_score S c node = Ok (Some (s, ht)) \<and> ht \<noteq> 0 \<and> resolves S c node s ht)"
proof (cases "nd_parent_share_hash node = ZERO_SHARE_PARENT_HASH")
  case True
  with assms show ?thesis by (simp add: branch_score_def resolves_def scored_node_def)
next
  case False
  with assms(3) obtain p ps where p: "bt_get S (nd_parent_share_hash node) = Some p" "nd_cumulative_score p = Some ps"
    by (auto simp: ready_def resolved_def)
  show ?thesis
  proof (cases "branch_score S c node")
    case (Ok v)
    with False p obtain s ht where "v = Some (s, ht)" "checked_add ps (sh_hashrate_score_delta (nd_share node)) = Some s"
      "checked_add (nd_height p) 1 = Some ht"
      by (auto simp: branch_score_def res_simps)
    moreover from this have "unat ht = Suc (unat (nd_height p))" by (simp add: checked_simps)
    moreover from this have "ht \<noteq> 0" by auto
    ultimately show ?thesis using assms False p Ok
      by (auto simp: resolves_def scored_node_def checked_simps)
  next
    case Panic
    with False p show ?thesis
      by (cases "checked_add ps (sh_hashrate_score_delta (nd_share node))"; cases "checked_add (nd_height p) 1")
        (simp_all add: branch_score_def)
  qed simp
qed

text \<open>The fork choice is the maximum of a linear order.\<close>

lemma beats_trans: "beats S h (Some t) \<Longrightarrow> beats S x (Some h) \<Longrightarrow> beats S x (Some t)"
  by (auto simp: beats_def)

lemma not_beats_self: "\<not> beats S h (Some h)"
  by (simp add: beats_def)

lemma beats_keeps:
  assumes "keeps S S'" and "resolved S h" and "\<And>t. tip = Some t \<Longrightarrow> resolved S t"
  shows "beats S' h tip \<longleftrightarrow> beats S h tip"
  using keeps_resolved [OF assms(1)] assms(2,3) by (cases tip) (auto simp: beats_def score_of_def)

definition loop_inv :: "string list \<Rightarrow> SharechainReplayState \<Rightarrow> bool" where
  "loop_inv q st \<longleftrightarrow> scored (st_shares st) \<and> child_index st \<and> queue_ok (st_shares st) q \<and>
     complete_but (st_shares st) q \<and> tip_ok st \<and> best_ok st"

definition shape :: "ShareNode \<Rightarrow> Share \<times> string" where
  "shape node = (nd_share node, nd_parent_share_hash node)"

text \<open>What the loop changes: scores of unresolved shares and, before any checkpoint, the derived fields.\<close>

definition grown :: "SharechainReplayState \<Rightarrow> SharechainReplayState \<Rightarrow> bool" where
  "grown st st' \<longleftrightarrow> keeps (st_shares st) (st_shares st') \<and>
     (\<forall>h. map_option shape (bt_get (st_shares st') h) = map_option shape (bt_get (st_shares st) h)) \<and>
     (underived st')\<lparr>st_shares := bt_empty\<rparr> = (underived st)\<lparr>st_shares := bt_empty\<rparr> \<and>
     (bt_last (st_sharechain_checkpoints st) \<noteq> None \<longrightarrow> st' = st\<lparr>st_shares := st_shares st'\<rparr>)"

lemma underived_shares:
  "(underived (st\<lparr>st_shares := S\<rparr>))\<lparr>st_shares := S'\<rparr> = (underived st)\<lparr>st_shares := S'\<rparr>"
  by (simp add: underived_def)

lemma grown_refl: "grown st st"
  by (simp add: grown_def keeps_def)

lemma grown_checkpoints:
  assumes "grown st st'"
  shows "st_sharechain_checkpoints st' = st_sharechain_checkpoints st"
proof -
  have e: "(underived st')\<lparr>st_shares := bt_empty\<rparr> = (underived st)\<lparr>st_shares := bt_empty\<rparr>"
    using assms by (simp add: grown_def)
  show ?thesis using arg_cong [OF e, of st_sharechain_checkpoints] by (simp add: underived_def)
qed

lemma grown_trans:
  assumes "grown st st'" and "grown st' st''"
  shows "grown st st''"
proof -
  have "st'' = st\<lparr>st_shares := st_shares st''\<rparr>" if c: "bt_last (st_sharechain_checkpoints st) \<noteq> None"
  proof -
    from c assms(1) have 1: "st' = st\<lparr>st_shares := st_shares st'\<rparr>" by (simp add: grown_def)
    from c assms have 2: "st'' = st'\<lparr>st_shares := st_shares st''\<rparr>"
      by (simp add: grown_def grown_checkpoints [OF assms(1)])
    show ?thesis by (subst 2, subst 1) simp
  qed
  with assms show ?thesis unfolding grown_def by (auto intro: keeps_trans)
qed

lemma best_ok_step:
  assumes r: "resolves S c node s ht" and S: "scored S"
    and best: "\<And>h. resolved S h \<Longrightarrow> \<not> beats S h tip" and tip: "\<And>t. tip = Some t \<Longrightarrow> resolved S t"
    and S': "S' = with_score S c node s ht"
    and tip': "tip' = (if beats S' c tip then Some c else tip)" and h: "resolved S' h"
  shows "\<not> beats S' h tip'"
proof -
  have old: "\<not> beats S' x tip" if "resolved S x" for x
    using best [OF that] beats_keeps [OF keeps_with_score [OF r] that, of tip] tip S' by simp
  from h have "h = c \<or> resolved S h" by (simp add: S' resolved_with_score [OF r])
  then show ?thesis
  proof
    assume "h = c"
    then show ?thesis by (simp add: tip' not_beats_self)
  next
    assume "resolved S h"
    with old have o: "\<not> beats S' h tip" by simp
    show ?thesis
    proof (cases "beats S' c tip")
      case True
      show ?thesis
      proof (cases tip)
        case None
        with o show ?thesis by (simp add: beats_def)
      next
        case (Some t)
        with True o show ?thesis using beats_trans [of S' c t h] by (auto simp: tip')
      qed
    next
      case False
      with o show ?thesis by (simp add: tip')
    qed
  qed
qed

lemma resolve_step:
  assumes inv: "loop_inv (c # q) st" and r: "resolves (st_shares st) c node s ht"
    and c: "consider_resolved_share c (st\<lparr>st_shares := with_score (st_shares st) c node s ht\<rparr>) = (res, st2)"
  shows "res \<noteq> Panic \<and> (res = Ok () \<longrightarrow> loop_inv (q @ children st2 c) st2 \<and> grown st st2 \<and>
    st_shares st2 = with_score (st_shares st) c node s ht)"
proof -
  let ?S = "st_shares st"
  let ?S1 = "with_score ?S c node s ht"
  let ?st1 = "st\<lparr>st_shares := ?S1\<rparr>"
  from inv have S: "scored ?S" and ci: "child_index st" and q: "queue_ok ?S (c # q)"
    and cb: "complete_but ?S (c # q)" and t: "tip_ok st" and b: "best_ok st" by (simp_all add: loop_inv_def)
  have n: "bt_get ?S c = Some node" using r by (simp add: resolves_def)
  note S1 = scored_with_score [OF r S] and k = keeps_with_score [OF r]
  have t1: "tip_ok ?st1"
    by (rule tip_ok_keeps [OF t S S1 k, where C = "st_children_by_parent st"]) simp
  have rc: "resolved ?S1 c" by (simp add: resolved_with_score [OF r])
  have chs: "x \<in> set (children st c) \<longleftrightarrow> (\<exists>xn. bt_get ?S x = Some xn \<and> nd_parent_share_hash xn = c)" for x
    using ci by (simp add: child_index_def)
  have dist: "distinct (children st c)" by (simp add: children_def split: option.splits)
  note qs = queue_step [OF r S q dist chs] and cs = complete_step [OF r cb chs]
  have ci1: "child_index ?st1"
    using ci n by (auto simp: child_index_def children_def)
  have shp: "map_option shape (bt_get ?S1 h) = map_option shape (bt_get ?S h)" for h
    using n by (simp add: shape_def)
  show ?thesis
  proof (cases "bt_last (st_sharechain_checkpoints st)")
    case (Some cp)
    with c have "res = Ok ()" "st2 = ?st1"
      by (simp_all add: consider_resolved_share_def latest_sharechain_checkpoint_def)
    with Some S1 ci1 qs cs t1 k shp show ?thesis
      by (simp add: loop_inv_def grown_def best_ok_def children_def underived_shares)
  next
    case None
    have "fst (consider_resolved_share c ?st1) \<noteq> Panic"
      by (rule consider_resolved_share_no_panic) (use S1 t1 rc None in simp_all)
    then have np: "res \<noteq> Panic" using c by simp
    show ?thesis
    proof (cases "res = Ok ()")
      case True
      have "underived st2 = underived ?st1 \<and> tip_ok st2 \<and>
          st_best_share_tip st2 = (if beats ?S1 c (st_best_share_tip st) then Some c else st_best_share_tip st)"
        using consider_resolved_share_Ok [of c ?st1 st2] c True S1 t1 rc None by simp
      then have u: "underived st2 = underived ?st1" and t2: "tip_ok st2"
        and tip: "st_best_share_tip st2 = (if beats ?S1 c (st_best_share_tip st) then Some c else st_best_share_tip st)"
        by blast+
      note f = underived_fields [OF u, simplified]
      have ub: "(underived st2)\<lparr>st_shares := bt_empty\<rparr> = (underived st)\<lparr>st_shares := bt_empty\<rparr>"
        using arg_cong [OF u, of "\<lambda>z. z\<lparr>st_shares := bt_empty\<rparr>"] by (simp add: underived_def)
      have "best_ok st2"
      proof -
        have "\<not> beats ?S1 h (st_best_share_tip st2)" if "resolved ?S1 h" for h
          by (rule best_ok_step [OF r S _ _ refl tip that])
            (use b None t in \<open>auto simp: best_ok_def tip_ok_def split: option.splits\<close>)
        then show ?thesis by (simp add: best_ok_def f)
      qed
      moreover have "child_index st2" using ci1 by (simp add: child_index_def children_def f)
      ultimately show ?thesis
        using True None S1 qs cs t2 k shp ub by (simp add: loop_inv_def grown_def f children_def)
    qed (use np in simp)
  qed
qed

lemma resolve_queue_correct:
  assumes "resolve_queue n q st = (res, st')" and "loop_inv q st" and "card (unresolved (st_shares st)) \<le> n"
  shows "res \<noteq> Panic \<and> (res = Ok () \<longrightarrow> loop_inv [] st' \<and> grown st st')"
  using assms
proof (induction n q st rule: resolve_queue.induct)
  case (1 fuel st)
  then show ?case by (auto simp: grown_refl)
next
  case (2 c q st)
  then have "c \<in> unresolved (st_shares st)"
    by (auto simp: loop_inv_def queue_ok_def unresolved_def resolved_def)
  with 2 show ?case using finite_unresolved [of "st_shares st"] by auto
next
  case (3 n c q st)
  let ?S = "st_shares st"
  from "3.prems"(2) obtain node where node: "bt_get ?S c = Some node" "nd_cumulative_score node = None" "ready ?S node"
    and S: "scored ?S" by (auto simp: loop_inv_def queue_ok_def)
  from branch_score_ready [OF node S] show ?case
  proof (elim disjE exE conjE)
    fix e assume "branch_score ?S c node = Err e"
    with "3.prems"(1) node show ?thesis by auto
  next
    fix s ht assume bs: "branch_score ?S c node = Ok (Some (s, ht))" "ht \<noteq> 0" and r: "resolves ?S c node s ht"
    obtain res2 st2 where c: "consider_resolved_share c (st\<lparr>st_shares := with_score ?S c node s ht\<rparr>) = (res2, st2)"
      by fastforce
    note step = resolve_step [OF "3.prems"(2) r c]
    show ?thesis
    proof (cases res2)
      case (Ok u)
      then have st2: "loop_inv (q @ children st2 c) st2" "grown st st2"
        "st_shares st2 = with_score ?S c node s ht" using step by simp_all
      have e: "resolve_queue n (q @ children st2 c) st2 = (res, st')"
        using "3.prems"(1) node bs c Ok by (simp add: bindA_def)
      have "card (unresolved (st_shares st2)) \<le> n"
        using unresolved_step [OF r S] "3.prems"(3) st2(3) by simp
      from "3.IH"(3) [OF node(1) bs(1) refl refl bs(2) e st2(1) this] st2(2) show ?thesis
        by (auto intro: grown_trans)
    next
      case Panic
      with step show ?thesis by simp
    qed (use "3.prems"(1) node bs c in \<open>auto simp: bindA_def\<close>)
  qed
qed

section \<open>Admitting a share\<close>

definition share_keys :: "extern \<Rightarrow> SharechainReplayState \<Rightarrow> bool" where
  "share_keys X st \<longleftrightarrow> (\<forall>h node. bt_get (st_shares st) h = Some node \<longrightarrow>
     share_hash X (nd_share node) = h \<and> normalized_share (nd_share node) = nd_share node \<and>
     nd_parent_share_hash node = to_ascii_lowercase (sh_parent_share_hash (nd_share node)))"

definition work_index :: "SharechainReplayState \<Rightarrow> bool" where
  "work_index st \<longleftrightarrow> (\<forall>h node. bt_get (st_shares st) h = Some node \<longrightarrow>
     bt_get (st_share_hash_by_work_hash st) (to_ascii_lowercase (sh_work_hash (nd_share node))) = Some h)"

definition single_root :: "SharechainReplayState \<Rightarrow> bool" where
  "single_root st \<longleftrightarrow> (\<forall>h h' node node'. bt_get (st_shares st) h = Some node \<and> bt_get (st_shares st) h' = Some node' \<and>
     nd_parent_share_hash node = ZERO_SHARE_PARENT_HASH \<and> nd_parent_share_hash node' = ZERO_SHARE_PARENT_HASH \<longrightarrow>
     eq_ignore_ascii_case h h')"

definition tree_inv :: "extern \<Rightarrow> SharechainReplayState \<Rightarrow> bool" where
  "tree_inv X st \<longleftrightarrow> loop_inv [] st \<and> share_keys X st \<and> work_index st \<and> single_root st"

text \<open>The fields that the invariant of the tree reads.\<close>

lemma loop_inv_cong:
  assumes "st_shares st' = st_shares st" "st_children_by_parent st' = st_children_by_parent st"
    "st_active_share_hashes st' = st_active_share_hashes st"
    "st_active_share_score_total st' = st_active_share_score_total st"
    "st_best_share_tip st' = st_best_share_tip st" "st_hashrate_scores st' = st_hashrate_scores st"
    "st_sharechain_checkpoints st' = st_sharechain_checkpoints st"
  shows "loop_inv q st' \<longleftrightarrow> loop_inv q st"
  unfolding loop_inv_def child_index_def children_def tip_ok_def accounts_for_def totals_for_def best_ok_def assms ..

lemma tree_inv_cong:
  assumes "st_shares st' = st_shares st" "st_children_by_parent st' = st_children_by_parent st"
    "st_active_share_hashes st' = st_active_share_hashes st"
    "st_active_share_score_total st' = st_active_share_score_total st"
    "st_best_share_tip st' = st_best_share_tip st" "st_hashrate_scores st' = st_hashrate_scores st"
    "st_sharechain_checkpoints st' = st_sharechain_checkpoints st"
    "st_share_hash_by_work_hash st' = st_share_hash_by_work_hash st"
  shows "tree_inv X st' \<longleftrightarrow> tree_inv X st"
  unfolding tree_inv_def share_keys_def work_index_def single_root_def loop_inv_cong [OF assms(1-7)] assms(1,8) ..

text \<open>No share hashes to the string of zeros that marks a root: a preimage of zero under the digest.\<close>

definition no_zero_share_hash :: "extern \<Rightarrow> bool" where
  "no_zero_share_hash X \<longleftrightarrow> (\<forall>s. share_hash X s \<noteq> ZERO_SHARE_PARENT_HASH)"

lemma children_add_child:
  assumes "st0 = st\<lparr>st_shares := T, st_children_by_parent := add_child p h (st_children_by_parent st)\<rparr>"
  shows "x \<in> set (children st0 y) \<longleftrightarrow> x \<in> set (children st y) \<or> (y = p \<and> x = h)"
proof -
  have "bt_get (st_children_by_parent st0) y = (if y = p
      then Some (bs_insert h (case bt_get (st_children_by_parent st) p of None \<Rightarrow> bt_empty | Some s \<Rightarrow> s))
      else bt_get (st_children_by_parent st) y)"
    by (simp add: assms add_child_def)
  then show ?thesis
    by (auto simp: children_def split: option.splits if_splits)
qed

lemma resolved_new_node:
  "bt_get S h = None \<Longrightarrow> resolved (bt_insert h (new_node share p) S) x \<longleftrightarrow> resolved S x"
  by (auto simp: resolved_def new_node_def)

lemma keeps_new_node: "bt_get S h = None \<Longrightarrow> keeps S (bt_insert h (new_node share p) S)"
  by (auto simp: keeps_def)

lemma scored_new_node:
  assumes "scored S" and "bt_get S h = None" and "h \<noteq> ZERO_SHARE_PARENT_HASH"
  shows "scored (bt_insert h (new_node share p) S)"
proof -
  have "scored_node (bt_insert h (new_node share p) S) n" if "scored_node S n" for n
    using that assms(2) by (auto simp: scored_node_def split: option.splits if_splits)
  then show ?thesis using assms by (auto simp: scored_def scored_node_def new_node_def)
qed

lemma card_unresolved_le: "card (unresolved S) \<le> bt_len S"
proof -
  have "card (unresolved S) \<le> card (set (bt_keys S))"
    by (rule card_mono) (auto simp: unresolved_def simp del: set_bt_keys)
  also have "\<dots> = bt_len S" using distinct_card [OF distinct_bt_keys, of S] by (simp add: bt_keys_def bt_len_def)
  finally show ?thesis .
qed

text \<open>Storing a new share gives a state that the loop can start from.\<close>

lemma add_share_inv:
  assumes inv: "loop_inv [] st" and new: "bt_get (st_shares st) h = None" and nz: "h \<noteq> ZERO_SHARE_PARENT_HASH"
    and st0: "st0 = st\<lparr>st_shares := bt_insert h (new_node share p) (st_shares st),
      st_children_by_parent := add_child p h (st_children_by_parent st)\<rparr>"
  shows "if ready (st_shares st0) (new_node share p) then loop_inv [h] st0 else loop_inv [] st0"
proof -
  let ?S = "st_shares st" and ?T = "st_shares st0"
  from inv have S: "scored ?S" and ci: "child_index st" and cb: "complete_but ?S []"
    and t: "tip_ok st" and b: "best_ok st" by (simp_all add: loop_inv_def)
  have S0: "?T = bt_insert h (new_node share p) ?S" by (simp add: st0)
  note res = resolved_new_node [OF new, where share = share and p = p]
  have "scored ?T" unfolding S0 by (rule scored_new_node [OF S new nz])
  moreover have "child_index st0"
    using ci new by (auto simp: child_index_def children_add_child [OF st0] S0 new_node_def)
  moreover have "tip_ok st0"
    by (rule tip_ok_keeps [OF t S \<open>scored ?T\<close> _ st0 [folded S0]]) (simp add: S0 keeps_new_node new)
  moreover have "best_ok st0"
  proof -
    have "\<not> beats ?T x (st_best_share_tip st)"
      if "resolved ?S x" "bt_last (st_sharechain_checkpoints st) = None" for x
      using b that beats_keeps [OF keeps_new_node [OF new, of share p] that(1), of "st_best_share_tip st"] t
      by (auto simp: best_ok_def S0 tip_ok_def split: option.splits)
    then show ?thesis
      by (cases "bt_last (st_sharechain_checkpoints st) = None") (simp_all add: best_ok_def st0 res)
  qed
  moreover have "complete_but ?T [h]" and "\<not> ready ?T (new_node share p) \<Longrightarrow> complete_but ?T []"
    using cb by (auto simp: complete_but_def S0 ready_def res split: if_splits)
  moreover have "ready ?T (new_node share p) \<Longrightarrow> queue_ok ?T [h]" and "queue_ok ?T []"
    by (auto simp: queue_ok_def S0 new_node_def)
  ultimately show ?thesis by (simp add: loop_inv_def)
qed

lemma resolve_new_share:
  assumes inv: "loop_inv [] st" and new: "bt_get (st_shares st) h = None" and nz: "h \<noteq> ZERO_SHARE_PARENT_HASH"
    and st0: "st0 = st\<lparr>st_shares := bt_insert h (new_node share p) (st_shares st),
      st_children_by_parent := add_child p h (st_children_by_parent st)\<rparr>"
    and r: "resolve_share_and_descendants h st0 = (res, st1)"
  shows "res \<noteq> Panic \<and> (res = Ok () \<longrightarrow> loop_inv [] st1 \<and> grown st0 st1)"
proof -
  let ?T = "st_shares st0"
  have h: "bt_get ?T h = Some (new_node share p)" by (simp add: st0)
  note start = add_share_inv [OF inv new nz st0]
  show ?thesis
  proof (cases "ready ?T (new_node share p)")
    case True
    with start r show ?thesis
      unfolding resolve_share_and_descendants_def
      by (intro resolve_queue_correct) (use card_unresolved_le [of "st_shares st0"] in simp_all)
  next
    case False
    then have "branch_score ?T h (new_node share p) = Ok None"
      by (auto simp: branch_score_def ready_def resolved_def split: option.splits)
    moreover have "bt_len ?T > 0"
      using h by (cases "entries ?T") (auto simp: bt_len_def bt_get_def)
    then obtain n where "bt_len ?T = Suc n" by (cases "bt_len ?T") auto
    ultimately have "res = Ok ()" "st1 = st0"
      using r h by (auto simp: resolve_share_and_descendants_def)
    with start False show ?thesis by (simp add: grown_refl)
  qed
qed

lemma grown_node:
  assumes "grown st st'" and "bt_get (st_shares st') h = Some node'"
  obtains node where "bt_get (st_shares st) h = Some node" "nd_share node' = nd_share node"
    "nd_parent_share_hash node' = nd_parent_share_hash node"
proof -
  have "map_option shape (bt_get (st_shares st') h) = map_option shape (bt_get (st_shares st) h)"
    using assms(1) unfolding grown_def by blast
  with assms(2) show thesis
    by (cases "bt_get (st_shares st) h") (auto simp: shape_def intro: that)
qed

lemma grown_works: "grown st st' \<Longrightarrow> st_share_hash_by_work_hash st' = st_share_hash_by_work_hash st"
proof -
  assume "grown st st'"
  then have e: "(underived st')\<lparr>st_shares := bt_empty\<rparr> = (underived st)\<lparr>st_shares := bt_empty\<rparr>" by (simp add: grown_def)
  show ?thesis using arg_cong [OF e, of st_share_hash_by_work_hash] by (simp add: underived_def)
qed

lemma zero_case: "eq_ignore_ascii_case (to_ascii_lowercase p) ZERO_SHARE_PARENT_HASH \<longleftrightarrow> to_ascii_lowercase p = ZERO_SHARE_PARENT_HASH"
proof -
  have "to_ascii_lowercase ZERO_SHARE_PARENT_HASH = ZERO_SHARE_PARENT_HASH" by code_simp
  then show ?thesis by (simp add: eq_ignore_ascii_case_def)
qed

lemma unique_root_Ok:
  assumes "validate_unique_sharechain_root h (to_ascii_lowercase p) st = Ok ()"
    and "to_ascii_lowercase p = ZERO_SHARE_PARENT_HASH"
    and "bt_get (st_shares st) x = Some node" and "nd_parent_share_hash node = ZERO_SHARE_PARENT_HASH"
  shows "eq_ignore_ascii_case x h"
proof -
  have "other_root (st_shares st) (to_ascii_lowercase h) = None"
    using assms(1,2) by (simp add: validate_unique_sharechain_root_def Let_def split: option.splits)
  moreover have "(x, node) \<in> set (entries (st_shares st))" using assms(3) by (simp add: btm.ents_get)
  ultimately show ?thesis
    using assms(4) unfolding other_root_def
    by (auto simp: find_None_iff) (metis eq_ignore_ascii_case_refl)
qed

text \<open>What is stored after a share \<open>s\<close> with hash \<open>h\<close> has been added to \<open>st\<close>.\<close>

definition stored_with :: "SharechainReplayState \<Rightarrow> string \<Rightarrow> Share \<Rightarrow> SharechainReplayState \<Rightarrow> bool" where
  "stored_with st h s st' \<longleftrightarrow>
     (\<forall>x n'. bt_get (st_shares st') x = Some n' \<longrightarrow>
       (if x = h then shape n' = (s, to_ascii_lowercase (sh_parent_share_hash s))
        else \<exists>n. bt_get (st_shares st) x = Some n \<and> shape n' = shape n)) \<and>
     st_share_hash_by_work_hash st' =
       bt_insert (to_ascii_lowercase (sh_work_hash s)) h (st_share_hash_by_work_hash st)"

lemma stored_withE:
  assumes "stored_with st h s st'" and "bt_get (st_shares st') x = Some n'"
  obtains (new) "x = h" "nd_share n' = s" "nd_parent_share_hash n' = to_ascii_lowercase (sh_parent_share_hash s)"
  | (old) n where "x \<noteq> h" "bt_get (st_shares st) x = Some n" "nd_share n' = nd_share n"
      "nd_parent_share_hash n' = nd_parent_share_hash n"
proof -
  have "if x = h then shape n' = (s, to_ascii_lowercase (sh_parent_share_hash s))
      else \<exists>n. bt_get (st_shares st) x = Some n \<and> shape n' = shape n"
    using assms unfolding stored_with_def by blast
  then show thesis using new old by (auto simp: shape_def split: if_splits)
qed

lemma stored_with_grown:
  assumes g: "grown (st\<lparr>st_shares := bt_insert h (new_node s (to_ascii_lowercase (sh_parent_share_hash s))) (st_shares st),
      st_children_by_parent := C\<rparr>) st1"
    and st': "st' = st1\<lparr>st_share_hash_by_work_hash :=
      bt_insert (to_ascii_lowercase (sh_work_hash s)) h (st_share_hash_by_work_hash st1)\<rparr>"
  shows "stored_with st h s st'"
  unfolding stored_with_def
proof (intro conjI allI impI)
  fix x n' assume "bt_get (st_shares st') x = Some n'"
  then have "bt_get (st_shares st1) x = Some n'" by (simp add: st')
  with g obtain n where "bt_get (bt_insert h (new_node s (to_ascii_lowercase (sh_parent_share_hash s))) (st_shares st)) x = Some n"
    "nd_share n' = nd_share n" "nd_parent_share_hash n' = nd_parent_share_hash n"
    by (auto elim: grown_node)
  then show "if x = h then shape n' = (s, to_ascii_lowercase (sh_parent_share_hash s))
      else \<exists>n. bt_get (st_shares st) x = Some n \<and> shape n' = shape n"
    by (cases "x = h") (auto simp: new_node_def shape_def)
next
  show "st_share_hash_by_work_hash st' =
      bt_insert (to_ascii_lowercase (sh_work_hash s)) h (st_share_hash_by_work_hash st)"
    using grown_works [OF g] by (simp add: st')
qed

lemma stored_with_keys:
  assumes "stored_with st h s st'" and "share_keys X st" and "h = share_hash X s" and "normalized_share s = s"
  shows "share_keys X st'"
  unfolding share_keys_def
proof (intro allI impI)
  fix x n' assume "bt_get (st_shares st') x = Some n'"
  with assms(1) show "share_hash X (nd_share n') = x \<and> normalized_share (nd_share n') = nd_share n' \<and>
      nd_parent_share_hash n' = to_ascii_lowercase (sh_parent_share_hash (nd_share n'))"
  proof (cases rule: stored_withE)
    case new
    with assms(3,4) show ?thesis by simp
  next
    case (old n)
    with assms(2) show ?thesis unfolding share_keys_def by metis
  qed
qed

lemma stored_with_works:
  assumes "stored_with st h s st'" and "work_index st"
    and "bt_get (st_share_hash_by_work_hash st) (to_ascii_lowercase (sh_work_hash s)) = None"
  shows "work_index st'"
  unfolding work_index_def
proof (intro allI impI)
  fix x n' assume x: "bt_get (st_shares st') x = Some n'"
  have works: "st_share_hash_by_work_hash st' =
      bt_insert (to_ascii_lowercase (sh_work_hash s)) h (st_share_hash_by_work_hash st)"
    using assms(1) by (simp add: stored_with_def)
  from assms(1) x show "bt_get (st_share_hash_by_work_hash st') (to_ascii_lowercase (sh_work_hash (nd_share n'))) = Some x"
  proof (cases rule: stored_withE)
    case new
    then show ?thesis by (simp add: works)
  next
    case (old n)
    with assms(2) have "bt_get (st_share_hash_by_work_hash st) (to_ascii_lowercase (sh_work_hash (nd_share n))) = Some x"
      by (simp add: work_index_def)
    with old assms(3) show ?thesis by (auto simp: works)
  qed
qed

lemma stored_with_root:
  assumes "stored_with st h s st'" and "single_root st"
    and v: "validate_unique_sharechain_root h (to_ascii_lowercase (sh_parent_share_hash s)) st = Ok ()"
  shows "single_root st'"
  unfolding single_root_def
proof (intro allI impI, elim conjE)
  fix x y n n'
  assume x: "bt_get (st_shares st') x = Some n" "nd_parent_share_hash n = ZERO_SHARE_PARENT_HASH"
    and y: "bt_get (st_shares st') y = Some n'" "nd_parent_share_hash n' = ZERO_SHARE_PARENT_HASH"
  have node: "x = h \<and> to_ascii_lowercase (sh_parent_share_hash s) = ZERO_SHARE_PARENT_HASH \<or>
      (\<exists>m. bt_get (st_shares st) x = Some m \<and> nd_parent_share_hash m = ZERO_SHARE_PARENT_HASH)"
    if "bt_get (st_shares st') x = Some n" "nd_parent_share_hash n = ZERO_SHARE_PARENT_HASH" for x n
    using assms(1) that(1) by (cases rule: stored_withE) (use that(2) in auto)
  show "eq_ignore_ascii_case x y"
    using node [OF x] node [OF y] unique_root_Ok [OF v] assms(2)
    by (auto simp: single_root_def eq_ignore_ascii_case_def)
qed

lemma apply_share_stored_cases:
  assumes "apply_share X share0 st = (res, st')"
  defines "s \<equiv> normalized_share share0"
  defines "h \<equiv> share_hash X s" and "p \<equiv> to_ascii_lowercase (sh_parent_share_hash s)"
    and "w \<equiv> to_ascii_lowercase (sh_work_hash s)"
  obtains (unchanged) "res \<noteq> Panic" "st' = st"
  | (new) res1 st1 where "bt_get (st_shares st) h = None" "bt_get (st_share_hash_by_work_hash st) w = None"
      "validate_unique_sharechain_root h p st = Ok ()"
      "resolve_share_and_descendants h (st\<lparr>st_shares := bt_insert h (new_node s p) (st_shares st),
        st_children_by_parent := add_child p h (st_children_by_parent st)\<rparr>) = (res1, st1)"
      "(res, st') = (case res1 of Ok _ \<Rightarrow> (Ok (), st1\<lparr>st_share_hash_by_work_hash :=
          bt_insert w h (st_share_hash_by_work_hash st1)\<rparr>) | Err e \<Rightarrow> (Err e, st1) | Panic \<Rightarrow> (Panic, st1))"
proof (cases "bt_get (st_shares st) h = None \<and> bt_get (st_share_hash_by_work_hash st) w = None \<and>
    validate_unique_sharechain_root h p st = Ok ()")
  case False
  have "validate_unique_sharechain_root h p st \<noteq> Panic"
    by (simp add: validate_unique_sharechain_root_def Let_def split: option.splits)
  with False assms(1) have "res \<noteq> Panic \<and> st' = st"
    by (cases "validate_unique_sharechain_root h p st")
      (auto simp: apply_share_def s_def [symmetric] h_def [symmetric] w_def [symmetric] p_def [symmetric]
        Let_def bindA_def readA_def split: option.splits if_splits)
  then show ?thesis using unchanged by blast
next
  case True
  obtain res1 st1 where r: "resolve_share_and_descendants h (st\<lparr>st_shares := bt_insert h (new_node s p) (st_shares st),
        st_children_by_parent := add_child p h (st_children_by_parent st)\<rparr>) = (res1, st1)" by fastforce
  show ?thesis
    by (rule new [OF _ _ _ r]) (use True assms(1) r in \<open>simp_all add: apply_share_def s_def [symmetric] h_def [symmetric]
      w_def [symmetric] p_def [symmetric] Let_def bindA_def readA_def split: res.splits\<close>)
qed

lemma apply_share_correct:
  assumes inv: "tree_inv X st" and nz: "no_zero_share_hash X" and a: "apply_share X share0 st = (res, st')"
  shows "res \<noteq> Panic \<and> (res = Ok () \<longrightarrow> tree_inv X st')"
  using a
proof (cases rule: apply_share_stored_cases)
  case unchanged
  with inv show ?thesis by simp
next
  case (new res1 st1)
  let ?s = "normalized_share share0"
  have "share_hash X ?s \<noteq> ZERO_SHARE_PARENT_HASH" using nz by (simp add: no_zero_share_hash_def)
  moreover have "loop_inv [] st" using inv by (simp add: tree_inv_def)
  ultimately have step: "res1 \<noteq> Panic \<and> (res1 = Ok () \<longrightarrow> loop_inv [] st1 \<and> grown (st\<lparr>st_shares :=
      bt_insert (share_hash X ?s) (new_node ?s (to_ascii_lowercase (sh_parent_share_hash ?s))) (st_shares st),
      st_children_by_parent := add_child (to_ascii_lowercase (sh_parent_share_hash ?s)) (share_hash X ?s) (st_children_by_parent st)\<rparr>) st1)"
    using resolve_new_share [OF _ new(1) _ refl new(4)] by blast
  show ?thesis
  proof (cases "res1 = Ok ()")
    case False
    with new(5) step show ?thesis by (cases res1) auto
  next
    case True
    then have st': "st' = st1\<lparr>st_share_hash_by_work_hash := bt_insert (to_ascii_lowercase (sh_work_hash ?s))
        (share_hash X ?s) (st_share_hash_by_work_hash st1)\<rparr>" and res: "res = Ok ()"
      using new(5) by simp_all
    from step True have "loop_inv [] st1" by simp
    then have "loop_inv [] st'" by (subst loop_inv_cong [where st = st1]) (simp_all add: st')
    moreover have sw: "stored_with st (share_hash X ?s) ?s st'"
      by (rule stored_with_grown [OF conjunct2 [OF mp [OF conjunct2 [OF step] True]] st'])
    ultimately show ?thesis
      using inv res stored_with_keys [OF sw _ refl] stored_with_works [OF sw _ new(2)] stored_with_root [OF sw _ new(3)]
      by (simp add: tree_inv_def)
  qed
qed

end
