(* ===== verification/ReplayInv.thy ===== *)
theory ReplayInv
  imports ReplayTree
begin

text \<open>
  Whole runs of the replay state: the steps a node performs, what an invariant of the replay state
  has to survive (\<open>replay_invariant\<close>), and the properties that hold in every reachable state.
\<close>

section \<open>Runs\<close>

text \<open>
  The changes a node makes to its replay state. The node drops the state when an operation returns
  an error, so only successful operations are steps.
\<close>

inductive replay_step :: "extern \<Rightarrow> SharechainReplayState \<Rightarrow> SharechainReplayState \<Rightarrow> bool" for X where
  message: "apply_message X m st = (Ok r, st') \<Longrightarrow> replay_step X st st'"
| accept_prefix: "accept_bitcoin_work_template_prefix X p st = (Ok r, st') \<Longrightarrow> replay_step X st st'"
| accept_template: "accept_bitcoin_work_template X t st = (Ok r, st') \<Longrightarrow> replay_step X st st'"
| confirmed_payout: "apply_confirmed_payout_schedule X s accounts reward limit mn st = (Ok (), st') \<Longrightarrow> replay_step X st st'"
| new_ledger: "replay_step X st (replace_claim_ledger l st)"

inductive replay_reachable :: "extern \<Rightarrow> SharechainReplayState \<Rightarrow> bool" for X where
  init: "replay_reachable X default_state"
| step: "replay_reachable X st \<Longrightarrow> replay_step X st st' \<Longrightarrow> replay_reachable X st'"

lemma apply_message_Ok_iff:
  "apply_message X m st = (Ok r, st') \<longleftrightarrow>
     (if bt_contains (st_applied_message_hashes st) (message_hash X m) then r = DuplicateIgnored \<and> st' = st
      else r = Applied \<and> (\<exists>st1. apply_payload X m st = (Ok (), st1) \<and> st' = record_message (message_hash X m) st1))"
  by (auto simp: apply_message_def Let_def res_simps)

text \<open>A property of the state that no step destroys, and one that also holds at the start.\<close>

locale replay_kept =
  fixes X :: extern and I :: "SharechainReplayState \<Rightarrow> bool"
  assumes inv_payload: "I st \<Longrightarrow> apply_payload X m st = (Ok (), st') \<Longrightarrow> I st'"
    and inv_prefix: "I st \<Longrightarrow> insert_accepted_prefix th p st = (Ok r, st') \<Longrightarrow> I st'"
    and inv_record: "I st \<Longrightarrow> I (record_message h st)"
    and inv_ledger: "I st \<Longrightarrow> I (st\<lparr>st_claim_ledger := l\<rparr>)"
begin

lemma inv_message: "apply_message X m st = (Ok r, st') \<Longrightarrow> I st \<Longrightarrow> I st'"
  using inv_payload inv_record by (auto simp: apply_message_Ok_iff split: if_splits)

lemma inv_step: "replay_step X st st' \<Longrightarrow> I st \<Longrightarrow> I st'"
proof (induction rule: replay_step.induct)
  case (message m st r st')
  then show ?case by (rule inv_message)
next
  case (accept_prefix p st r st')
  then show ?case by (auto simp: accept_bitcoin_work_template_prefix_def res_simps intro: inv_prefix)
next
  case (accept_template t st r st')
  then show ?case by (auto simp: accept_bitcoin_work_template_def res_simps intro: inv_prefix)
next
  case (confirmed_payout s accounts reward limit mn st st')
  then show ?case
    by (auto simp: apply_confirmed_payout_schedule_def on_ledger_def res_simps intro: inv_ledger split: prod.splits)
next
  case (new_ledger st l)
  then show ?case by (simp add: replace_claim_ledger_def inv_ledger)
qed

lemma inv_run: "(replay_step X)\<^sup>*\<^sup>* st st' \<Longrightarrow> I st \<Longrightarrow> I st'"
  by (induction rule: rtranclp_induct) (auto intro: inv_step)

end

locale replay_invariant = replay_kept +
  assumes inv_init: "I default_state"
begin

lemma inv_reachable: "replay_reachable X st \<Longrightarrow> I st"
  by (induction rule: replay_reachable.induct) (auto intro: inv_init inv_step)

end

section \<open>What the messages leave alone\<close>

definition tree_part where
  "tree_part st = (st_shares st, st_children_by_parent st, st_active_share_hashes st, st_active_share_score_total st,
     st_best_share_tip st, st_hashrate_scores st, st_sharechain_checkpoints st, st_share_hash_by_work_hash st)"

lemma tree_part_fields:
  assumes "tree_part st' = tree_part st"
  shows "st_shares st' = st_shares st" "st_children_by_parent st' = st_children_by_parent st"
    "st_active_share_hashes st' = st_active_share_hashes st"
    "st_active_share_score_total st' = st_active_share_score_total st"
    "st_best_share_tip st' = st_best_share_tip st" "st_hashrate_scores st' = st_hashrate_scores st"
    "st_sharechain_checkpoints st' = st_sharechain_checkpoints st"
    "st_share_hash_by_work_hash st' = st_share_hash_by_work_hash st"
  using assms by (simp_all add: tree_part_def)

fun is_tree_message :: "SharechainMessage \<Rightarrow> bool" where
  "is_tree_message (MsgShare _) = True"
| "is_tree_message (MsgSharechainCheckpoint _) = True"
| "is_tree_message _ = False"

lemma payload_tree_part:
  assumes "apply_payload X m st = (r, st')" and "\<not> is_tree_message m"
  shows "tree_part st' = tree_part st"
  using assms
  by (cases m) (auto simp: apply_registration_def apply_bitcoin_work_template_def apply_snapshot_vote_def
      apply_payout_schedule_proposal_def apply_withdrawal_request_def apply_withdrawal_batch_def bindA_def readA_def
      modifyA_def Let_def tree_part_def split: res.splits option.splits if_splits)

lemma tree_inv_part: "tree_part st' = tree_part st \<Longrightarrow> tree_inv X st' \<longleftrightarrow> tree_inv X st"
  using tree_part_fields [of st' st] by (intro tree_inv_cong) simp_all

lemma checkpoint_Ok:
  assumes "apply_sharechain_checkpoint X c0 st = (Ok (), st')"
  defines "c \<equiv> normalized_checkpoint c0"
  shows "bt_get (st_sharechain_checkpoints st) (cp_round c) = Some c \<and> st' = st \<or>
    bt_get (st_sharechain_checkpoints st) (cp_round c) = None \<and> validate_checkpoint c = Ok () \<and> check_checkpoint X c st = Ok () \<and>
      rebuild_active_branch (cp_share_tip_hash c)
        (st\<lparr>st_sharechain_checkpoints := bt_insert (cp_round c) c (st_sharechain_checkpoints st)\<rparr>) = (Ok (), st')"
  using assms(1)
  by (auto simp: apply_sharechain_checkpoint_def c_def [symmetric] res_simps split: option.splits if_splits)

section \<open>What shares and checkpoints leave alone\<close>

definition outside_tree where
  "outside_tree st = (st_applied_message_hashes st, st_accepted_bitcoin_work_template_prefixes st, st_bitcoin_work_templates st,
     st_registrations st, st_snapshot_votes st, st_proposed_payout_schedules st, st_withdrawal_requests st,
     st_withdrawal_batches st, st_claim_ledger st, st_last_message_hash st)"

abbreviation outside where
  "outside st \<equiv> (outside_tree st, st_sharechain_checkpoints st)"

lemma outside_updates [simp]:
  "outside_tree (st\<lparr>st_shares := a\<rparr>) = outside_tree st" "outside_tree (st\<lparr>st_share_hash_by_work_hash := b\<rparr>) = outside_tree st"
  "outside_tree (st\<lparr>st_children_by_parent := c\<rparr>) = outside_tree st" "outside_tree (st\<lparr>st_active_share_hashes := d\<rparr>) = outside_tree st"
  "outside_tree (st\<lparr>st_active_share_score_total := e\<rparr>) = outside_tree st" "outside_tree (st\<lparr>st_best_share_tip := f\<rparr>) = outside_tree st"
  "outside_tree (st\<lparr>st_hashrate_scores := g\<rparr>) = outside_tree st"
  "outside_tree (st\<lparr>st_sharechain_checkpoints := i\<rparr>) = outside_tree st"
  by (simp_all add: outside_tree_def)

lemma credit_share_outside: "credit_share h s st = (r, st') \<Longrightarrow> outside st' = outside st"
  by (auto simp: credit_share_def Let_def split: option.splits)

lemma credit_branch_outside: "credit_branch hs st = (r, st') \<Longrightarrow> outside st' = outside st"
proof (induction hs arbitrary: st)
  case (Cons h hs)
  then show ?case
    by (auto simp: bindA_def split: option.splits prod.splits res.splits dest: credit_share_outside)
qed simp

lemma rebuild_outside: "rebuild_active_branch t st = (r, st') \<Longrightarrow> outside st' = outside st"
  by (auto simp: rebuild_active_branch_def bindA_def Let_def split: prod.splits res.splits dest!: credit_branch_outside)

lemma consider_outside: "consider_resolved_share h st = (r, st') \<Longrightarrow> outside st' = outside st"
  by (auto simp: consider_resolved_share_def bindA_def readA_def Let_def
      split: prod.splits res.splits option.splits if_splits dest: rebuild_outside credit_share_outside)

lemma resolve_queue_outside: "resolve_queue n q st = (r, st') \<Longrightarrow> outside st' = outside st"
proof (induction n q st rule: resolve_queue.induct)
  case (3 n c q st)
  show ?case
  proof (cases "bt_get (st_shares st) c")
    case None
    then show ?thesis using "3.IH"(1) "3.prems" by simp
  next
    case (Some node)
    show ?thesis
    proof (cases "branch_score (st_shares st) c node")
      case (Ok v)
      show ?thesis
      proof (cases v)
        case None
        then show ?thesis using "3.IH"(2) [OF Some Ok None] "3.prems" Ok Some by simp
      next
        case v: (Some sh)
        obtain s ht where sh: "sh = (s, ht)" by (cases sh)
        let ?st = "st\<lparr>st_shares := bt_insert c (node\<lparr>nd_cumulative_score := Some s, nd_height := ht\<rparr>) (st_shares st)\<rparr>"
        obtain r1 st1 where c: "consider_resolved_share c ?st = (r1, st1)" by (cases "consider_resolved_share c ?st")
        then have o: "outside st1 = outside st" using consider_outside [OF c] by simp
        show ?thesis
          using "3.prems" "3.IH"(3) [OF Some Ok v sh [symmetric]] o
          by (cases "ht = 0"; cases r1) (auto simp: Some Ok v sh c bindA_def)
      qed
    qed (use "3.prems" Some in auto)
  qed
qed simp_all

lemma apply_share_outside:
  assumes "apply_share X s st = (r, st')"
  shows "outside st' = outside st"
  using assms
proof (cases rule: apply_share_stored_cases)
  case (new res1 st1)
  then show ?thesis
    by (auto simp: resolve_share_and_descendants_def split: res.splits dest!: resolve_queue_outside)
qed simp

lemma checkpoint_outside:
  assumes "apply_sharechain_checkpoint X c st = (Ok (), st')"
  shows "outside_tree st' = outside_tree st"
  using checkpoint_Ok [OF assms] by (auto dest!: rebuild_outside)

lemma bt_last_insert_max:
  assumes "\<And>l. bt_get m l \<noteq> None \<Longrightarrow> l < k"
  shows "bt_last (bt_insert k v m) = Some (k, v)"
proof -
  have "bt_insert k v m \<noteq> bt_empty"
    by (metis bt_get_simps(1,2) option.distinct(1))
  then obtain k' v' where l: "bt_last (bt_insert k v m) = Some (k', v')"
    by (metis bt_last_None_iff option.exhaust surj_pair)
  from bt_last_Some [OF l] have "bt_get (bt_insert k v m) k' = Some v'" and "k \<le> k'" by auto
  with assms [of k'] show ?thesis using l by (auto split: if_splits)
qed

section \<open>Branches and descent\<close>

lemma branch_subset:
  assumes "scored S" and "resolved S b" and "a \<in> set (branch S b)"
  shows "set (branch S a) \<subseteq> set (branch S b)"
  using assms
proof (induction rule: resolved_induct)
  case (root h node)
  then show ?case by (simp add: branch_root)
next
  case (step h node s)
  then have r: "resolved S h" by (auto simp: resolved_def)
  have b: "branch S h = h # branch S (nd_parent_share_hash node)"
    by (rule branch_step [OF assms(1) r step.hyps(1,2)])
  show ?case
  proof (cases "a = h")
    case False
    with step b show ?thesis by auto
  qed simp
qed

lemma branch_member_resolved: "scored S \<Longrightarrow> resolved S b \<Longrightarrow> a \<in> set (branch S b) \<Longrightarrow> resolved S a"
  using branch_resolved by blast

lemma branch_self: "scored S \<Longrightarrow> resolved S b \<Longrightarrow> b \<in> set (branch S b)"
  by (auto simp: resolved_def active_branch.simps)

lemma descends_loop_branch:
  assumes "scored S" and "resolved S c" and "descends_loop S a seen c"
  shows "a \<in> set (branch S c)"
  using assms
proof (induction arbitrary: seen rule: resolved_induct)
  case (root h node)
  then show ?case by (simp add: branch_root descends_loop.simps [of S a seen h] split: if_splits)
next
  case (step h node s)
  then have r: "resolved S h" by (auto simp: resolved_def)
  have b: "branch S h = h # branch S (nd_parent_share_hash node)"
    by (rule branch_step [OF assms(1) r step.hyps(1,2)])
  from step.prems step.hyps(1,2) have "h = a \<or> descends_loop S a (bs_insert h seen) (nd_parent_share_hash node)"
    by (subst (asm) descends_loop.simps) (auto split: if_splits)
  with step.IH b show ?case by auto
qed

section \<open>The checkpoint chain\<close>

definition follows :: "share_map \<Rightarrow> SharechainCheckpointAnchorV1 \<Rightarrow> SharechainCheckpointAnchorV1 \<Rightarrow> bool" where
  "follows S p c \<longleftrightarrow> cp_parent_checkpoint_tip c = cp_share_tip_hash p \<and>
     unat (cp_finalization_block p) + unat CHECKPOINT_MIN_INTERVAL_BLOCKS \<le> unat (cp_finalization_block c) \<and>
     cp_share_tip_hash p \<in> set (branch S (cp_share_tip_hash c))"

definition chain_link :: "SharechainReplayState \<Rightarrow> u32 \<Rightarrow> SharechainCheckpointAnchorV1 \<Rightarrow> bool" where
  "chain_link st r c \<longleftrightarrow> r \<noteq> 0 \<and> cp_round c = r \<and> validate_checkpoint c = Ok () \<and> normalized_checkpoint c = c \<and>
     resolved (st_shares st) (cp_share_tip_hash c) \<and>
     (if r = 1 then cp_parent_checkpoint_tip c = ZERO_SHARE_PARENT_HASH
      else \<exists>p. bt_get (st_sharechain_checkpoints st) (r - 1) = Some p \<and> follows (st_shares st) p c)"

definition chain_inv :: "SharechainReplayState \<Rightarrow> bool" where
  "chain_inv st \<longleftrightarrow> (\<forall>r c. bt_get (st_sharechain_checkpoints st) r = Some c \<longrightarrow> chain_link st r c) \<and>
     (\<forall>r c. bt_last (st_sharechain_checkpoints st) = Some (r, c) \<longrightarrow> st_best_share_tip st = Some (cp_share_tip_hash c))"

lemma chain_link_mono:
  assumes "chain_link st r c" and "scored (st_shares st)" and "scored (st_shares st')"
    and "keeps (st_shares st) (st_shares st')"
    and "\<And>r c. bt_get (st_sharechain_checkpoints st) r = Some c \<Longrightarrow> bt_get (st_sharechain_checkpoints st') r = Some c"
  shows "chain_link st' r c"
proof -
  have "branch (st_shares st') (cp_share_tip_hash c) = branch (st_shares st) (cp_share_tip_hash c)"
    using assms(1-4) by (intro keeps_branch) (auto simp: chain_link_def)
  with assms keeps_resolved [OF assms(4)] show ?thesis
    by (auto simp: chain_link_def follows_def)
qed

lemma checked_descent:
  assumes "check_checkpoint X c st = Ok ()" and "bt_last (st_sharechain_checkpoints st) = Some (n, p)"
    and "scored (st_shares st)" and "normalized_checkpoint c = c" and "normalized_checkpoint p = p"
  shows "follows (st_shares st) p c"
proof -
  have l: "to_ascii_lowercase (cp_share_tip_hash c) = cp_share_tip_hash c"
    "to_ascii_lowercase (cp_share_tip_hash p) = cp_share_tip_hash p"
    using arg_cong [OF assms(4), of cp_share_tip_hash] arg_cong [OF assms(5), of cp_share_tip_hash]
    by (simp_all add: normalized_checkpoint_def)
  have "resolved (st_shares st) (cp_share_tip_hash c)"
    and "share_descends_from st (cp_share_tip_hash c) (cp_share_tip_hash p)"
    using assms(1,2) by (auto simp: check_checkpoint_def check_checkpoint_tip_def Let_def res_simps resolved_def split: option.splits if_splits)
  then have "cp_share_tip_hash p \<in> set (branch (st_shares st) (cp_share_tip_hash c))"
    using assms(3) by (auto simp: share_descends_from_def l intro: descends_loop_branch)
  with assms(1,2) show ?thesis
    by (auto simp: follows_def check_checkpoint_def check_checkpoint_order_def Let_def res_simps checked_simps
        word_less_nat_alt split: if_splits)
qed

lemma checked_round:
  assumes "check_checkpoint X c st = Ok ()" and "bt_get (st_sharechain_checkpoints st) (cp_round c) = None"
  shows "case bt_last (st_sharechain_checkpoints st) of
      None \<Rightarrow> cp_round c = 1 \<and> cp_parent_checkpoint_tip c = ZERO_SHARE_PARENT_HASH
    | Some (n, p) \<Rightarrow> unat (cp_round c) = Suc (unat n)"
proof (cases "bt_last (st_sharechain_checkpoints st)")
  case None
  with assms(1) show ?thesis
    by (auto simp: check_checkpoint_def check_checkpoint_order_def Let_def res_simps split: if_splits)
next
  case (Some np)
  obtain n p where np: "np = (n, p)" by fastforce
  from Some assms(1) have r: "cp_round c = saturating_add n 1"
    by (auto simp: np check_checkpoint_def check_checkpoint_order_def Let_def res_simps split: if_splits)
  have "bt_get (st_sharechain_checkpoints st) n \<noteq> None" using bt_last_Some(1) Some np by fastforce
  with assms(2) have "cp_round c \<noteq> n" by auto
  moreover have "n = - 1" if "unat n + 1 \<ge> 2 ^ 32"
    using that unat_bound [of n] by (intro unat_eq_word) (simp add: unsigned_minus_1_eq_mask mask_eq_exp_minus_1)
  ultimately have "unat n + 1 < 2 ^ 32" using r
    by (cases "unat n + 1 < 2 ^ 32") (simp_all add: saturating_add_def not_less)
  then show ?thesis using r Some np by (simp add: saturating_add_def unat_add_exact)
qed

lemma checkpoint_chain_inv:
  assumes inv: "loop_inv [] st" "chain_inv st" and a: "apply_sharechain_checkpoint X c0 st = (Ok (), st')"
  shows "loop_inv [] st' \<and> chain_inv st' \<and> st_shares st' = st_shares st \<and>
    st_share_hash_by_work_hash st' = st_share_hash_by_work_hash st"
  using checkpoint_Ok [OF a]
proof (elim disjE conjE)
  assume "st' = st"
  with inv show ?thesis by simp
next
  let ?c = "normalized_checkpoint c0"
  let ?cps = "st_sharechain_checkpoints st"
  let ?st1 = "st\<lparr>st_sharechain_checkpoints := bt_insert (cp_round ?c) ?c ?cps\<rparr>"
  assume new: "bt_get ?cps (cp_round ?c) = None" and v: "validate_checkpoint ?c = Ok ()"
    and chk: "check_checkpoint X ?c st = Ok ()"
    and rb: "rebuild_active_branch (cp_share_tip_hash ?c) ?st1 = (Ok (), st')"
  from chk have tip: "resolved (st_shares st) (cp_share_tip_hash ?c)"
    by (auto simp: check_checkpoint_def check_checkpoint_tip_def Let_def res_simps resolved_def split: option.splits if_splits)
  have S: "scored (st_shares st)" using inv by (simp add: loop_inv_def)
  have u: "underived st' = underived ?st1" and bt: "st_best_share_tip st' = Some (cp_share_tip_hash ?c)" and t: "tip_ok st'"
    using rebuild_active_branch_Ok [OF rb] tip by simp_all
  note f = underived_fields [OF u, simplified]
  have works: "st_share_hash_by_work_hash st' = st_share_hash_by_work_hash st"
    using arg_cong [OF u, of st_share_hash_by_work_hash] by (simp add: underived_def)
  note rnd = checked_round [OF chk new]
  have max: "l < cp_round ?c" if l: "bt_get ?cps l \<noteq> None" for l
  proof (cases "bt_last ?cps")
    case None
    with l show ?thesis by (simp add: bt_last_None_iff)
  next
    case (Some np)
    then show ?thesis using rnd bt_last_Some(2) [of ?cps "fst np" "snd np" l] l
      by (auto simp: word_le_nat_alt word_less_nat_alt split: prod.splits)
  qed
  have last: "bt_last (st_sharechain_checkpoints st') = Some (cp_round ?c, ?c)"
    using bt_last_insert_max [OF max] by (simp add: f)
  have "chain_link st' r c" if "bt_get ?cps r = Some c" for r c
  proof (rule chain_link_mono [where st = st])
    show "chain_link st r c" using inv(2) that by (simp add: chain_inv_def)
  qed (use S new in \<open>auto simp: f keeps_def\<close>)
  moreover have "chain_link st' (cp_round ?c) ?c"
  proof (cases "bt_last ?cps")
    case None
    with rnd v tip show ?thesis by (simp add: chain_link_def f)
  next
    case (Some np)
    obtain n p where np: "np = (n, p)" by fastforce
    have p: "bt_get ?cps n = Some p" using bt_last_Some(1) Some np by fastforce
    then have pl: "normalized_checkpoint p = p" and n0: "n \<noteq> 0" using inv(2) by (auto simp: chain_inv_def chain_link_def)
    have un: "unat (cp_round ?c) = Suc (unat n)" using rnd Some np by simp
    then have r: "cp_round ?c = n + 1"
      using unat_bound [of "cp_round ?c"] by (intro unat_eq_word) (simp add: unat_add_exact)
    have "follows (st_shares st) p ?c"
      by (rule checked_descent [OF chk _ S normalized_checkpoint_idem pl]) (simp add: Some np)
    moreover have "n + 1 \<noteq> 1" "n + 1 \<noteq> 0" using n0 un r by auto
    ultimately show ?thesis using v tip p n0 unfolding chain_link_def f r by auto
  qed
  ultimately have "chain_inv st'" using bt last by (auto simp: chain_inv_def f split: if_splits)
  moreover have "loop_inv [] st'"
    using inv(1) t last by (auto simp: loop_inv_def f child_index_def children_def best_ok_def)
  ultimately show ?thesis by (simp add: f works)
qed

lemma apply_share_grows:
  assumes inv: "tree_inv X st" and nz: "no_zero_share_hash X" and a: "apply_share X share0 st = (Ok (), st')"
  shows "keeps (st_shares st) (st_shares st') \<and> st_sharechain_checkpoints st' = st_sharechain_checkpoints st \<and>
    (bt_last (st_sharechain_checkpoints st) \<noteq> None \<longrightarrow> st_best_share_tip st' = st_best_share_tip st)"
  using a
proof (cases rule: apply_share_stored_cases)
  case unchanged
  then show ?thesis by (simp add: keeps_def)
next
  case (new res1 st1)
  let ?s = "normalized_share share0"
  let ?p = "to_ascii_lowercase (sh_parent_share_hash ?s)"
  let ?z = "st\<lparr>st_shares := bt_insert (share_hash X ?s) (new_node ?s ?p) (st_shares st),
    st_children_by_parent := add_child ?p (share_hash X ?s) (st_children_by_parent st)\<rparr>"
  from new(5) have ok: "res1 = Ok ()" and st': "st_shares st' = st_shares st1"
      "st_sharechain_checkpoints st' = st_sharechain_checkpoints st1" "st_best_share_tip st' = st_best_share_tip st1"
    by (auto split: res.splits)
  have "loop_inv [] st" and "share_hash X ?s \<noteq> ZERO_SHARE_PARENT_HASH"
    using inv nz by (simp_all add: tree_inv_def no_zero_share_hash_def)
  then have g: "grown ?z st1" using resolve_new_share [OF _ new(1) _ refl new(4)] ok by blast
  have "keeps (st_shares st) (st_shares st1)"
    using keeps_new_node [OF new(1), of ?s ?p] g by (auto simp: grown_def intro: keeps_trans)
  moreover have "st_best_share_tip st1 = st_best_share_tip st" if "bt_last (st_sharechain_checkpoints st) \<noteq> None"
  proof -
    have "st1 = ?z\<lparr>st_shares := st_shares st1\<rparr>" using g that by (simp add: grown_def)
    then have "st_best_share_tip st1 = st_best_share_tip (?z\<lparr>st_shares := st_shares st1\<rparr>)" by (rule arg_cong)
    then show ?thesis by simp
  qed
  ultimately show ?thesis using grown_checkpoints [OF g] by (simp add: st')
qed

definition run_inv :: "extern \<Rightarrow> SharechainReplayState \<Rightarrow> bool" where
  "run_inv X st \<longleftrightarrow> tree_inv X st \<and> chain_inv st"

lemma chain_inv_part:
  assumes "tree_part st' = tree_part st"
  shows "chain_inv st' \<longleftrightarrow> chain_inv st"
  unfolding chain_inv_def chain_link_def tree_part_fields [OF assms] ..

lemma run_inv_part: "tree_part st' = tree_part st \<Longrightarrow> run_inv X st' \<longleftrightarrow> run_inv X st"
  using tree_inv_part [of st' st X] chain_inv_part [of st' st] by (simp add: run_inv_def)

lemma run_inv_init: "run_inv X default_state"
  by (simp add: run_inv_def tree_inv_def loop_inv_def chain_inv_def default_state_def scored_def child_index_def
      children_def queue_ok_def complete_but_def tip_ok_def accounts_for_def totals_for_def best_ok_def resolved_def
      share_keys_def work_index_def single_root_def score_entry_def bs_collect_def bt_last_def bt_empty.rep_eq)

lemma run_inv_share:
  assumes "run_inv X st" and "no_zero_share_hash X" and "apply_share X s st = (Ok (), st')"
  shows "run_inv X st'"
proof -
  have t: "tree_inv X st" "chain_inv st" using assms(1) by (simp_all add: run_inv_def)
  have t': "tree_inv X st'" using apply_share_correct [OF t(1) assms(2,3)] by simp
  note g = apply_share_grows [OF t(1) assms(2,3)]
  have "chain_link st' r c" if "bt_get (st_sharechain_checkpoints st') r = Some c" for r c
    by (rule chain_link_mono [where st = st])
      (use that g t t' in \<open>auto simp: chain_inv_def tree_inv_def loop_inv_def\<close>)
  then have "chain_inv st'" using g t(2) by (auto simp: chain_inv_def)
  with t' show ?thesis by (simp add: run_inv_def)
qed

lemma run_inv_checkpoint:
  assumes "run_inv X st" and "apply_sharechain_checkpoint X c st = (Ok (), st')"
  shows "run_inv X st'"
proof -
  from assms(1) have "loop_inv [] st" "chain_inv st" and t: "share_keys X st" "work_index st" "single_root st"
    by (simp_all add: run_inv_def tree_inv_def)
  then have "loop_inv [] st' \<and> chain_inv st'" and S: "st_shares st' = st_shares st"
    and w: "st_share_hash_by_work_hash st' = st_share_hash_by_work_hash st"
    using checkpoint_chain_inv [OF _ _ assms(2)] by simp_all
  moreover have "share_keys X st'" "work_index st'" "single_root st'"
    using t unfolding share_keys_def work_index_def single_root_def S w .
  ultimately show ?thesis by (simp add: run_inv_def tree_inv_def)
qed

interpretation run: replay_invariant X "\<lambda>st. no_zero_share_hash X \<longrightarrow> run_inv X st" for X
proof unfold_locales
  show "no_zero_share_hash X \<longrightarrow> run_inv X default_state" by (simp add: run_inv_init)
next
  fix st m st'
  assume i: "no_zero_share_hash X \<longrightarrow> run_inv X st" and a: "apply_payload X m st = (Ok (), st')"
  show "no_zero_share_hash X \<longrightarrow> run_inv X st'"
  proof (cases "is_tree_message m")
    case False
    with i show ?thesis using run_inv_part [OF payload_tree_part [OF a]] by simp
  next
    case True
    then show ?thesis using i a
      by (cases m) (auto simp: res_simps intro: run_inv_share run_inv_checkpoint)
  qed
next
  fix st th p r st'
  assume "no_zero_share_hash X \<longrightarrow> run_inv X st" and "insert_accepted_prefix th p st = (Ok r, st')"
  moreover from this(2) have "tree_part st' = tree_part st"
    by (auto simp: insert_accepted_prefix_def Let_def tree_part_def split: option.splits if_splits)
  ultimately show "no_zero_share_hash X \<longrightarrow> run_inv X st'" using run_inv_part by blast
next
  fix st h
  assume "no_zero_share_hash X \<longrightarrow> run_inv X st"
  moreover have "tree_part (record_message h st) = tree_part st" by (simp add: record_message_def tree_part_def)
  ultimately show "no_zero_share_hash X \<longrightarrow> run_inv X (record_message h st)" using run_inv_part by blast
next
  fix st l
  assume "no_zero_share_hash X \<longrightarrow> run_inv X st"
  moreover have "tree_part (st\<lparr>st_claim_ledger := l\<rparr>) = tree_part st" by (simp add: tree_part_def)
  ultimately show "no_zero_share_hash X \<longrightarrow> run_inv X (st\<lparr>st_claim_ledger := l\<rparr>)" using run_inv_part by blast
qed

end
