(* ===== verification/ReplayRun.thy ===== *)
theory ReplayRun
  imports ReplayInv
begin

text \<open>
  A concrete run of the replay state, evaluated step by step: a registration, an accepted work
  template, its announcement, the first share and the first checkpoint. The properties of
  \<open>ReplayProps\<close> are instantiated on its states.
\<close>

text \<open>
  Third-party functions for a concrete run: a byte below ten is written as its digit, twice; a digest
  repeats the last byte of its input, increased by one; the serialised form of a message is the
  number of its kind.
\<close>

definition message_kind :: "json \<Rightarrow> bytes" where
  "message_kind v = (case v of JObj ((_, JStr ty) # _) \<Rightarrow>
     (if ty = ''MinerRegistration'' then [1] else if ty = ''BitcoinWorkTemplate'' then [2]
      else if ty = ''Share'' then [3] else if ty = ''SharechainCheckpoint'' then [4] else []) | _ \<Rightarrow> [])"

fun pairs_to_bytes :: "string \<Rightarrow> bytes" where
  "pairs_to_bytes (a # b # s) = of_nat (of_char b - 48) # pairs_to_bytes s"
| "pairs_to_bytes _ = []"

definition digit_hash :: extern where
  "digit_hash = identity_hash\<lparr>
     sha256 := (\<lambda>m. replicate 32 (last m + 1)),
     to_vec := message_kind,
     hex_encode := (\<lambda>bs. concat (map (\<lambda>w. replicate 2 (char_of (48 + unat w))) bs)),
     hex_decode := (\<lambda>s. Inr (pairs_to_bytes s)),
     keccak_v256 := (\<lambda>_. replicate 32 1),
     sha256d_display := (\<lambda>_. replicate 64 CHR ''1'')\<rparr>"

definition digits :: "char \<Rightarrow> nat \<Rightarrow> string" where
  "digits c n = replicate n c"

lemma digits_simps [simp]:
  "length (digits c n) = n" "digits c n = [] \<longleftrightarrow> n = 0" "list_all P (digits c n) \<longleftrightarrow> n = 0 \<or> P c"
  "to_ascii_lowercase (digits c n) = digits (ascii_lower c) n"
  "digits c n = digits d n \<longleftrightarrow> n = 0 \<or> c = d"
  by (auto simp: digits_def to_ascii_lowercase_def list_all_iff)

lemma pairs_to_bytes_digits [simp]: "pairs_to_bytes (digits c (2 * n)) = replicate n (of_nat (of_char c - 48))"
  by (induction n) (simp_all add: digits_def)

lemma encode_replicate: "concat (replicate n (replicate 2 c)) = digits c (2 * n)"
  by (induction n) (simp_all add: digits_def numeral_2_eq_2)

lemma digit_chars [simp]:
  "char_of (49 :: nat) = CHR ''1''" "char_of (50 :: nat) = CHR ''2''" "char_of (51 :: nat) = CHR ''3''"
  "char_of (52 :: nat) = CHR ''4''" "char_of (53 :: nat) = CHR ''5''"
  by code_simp+

lemma digit_hash_sha [simp]:
  "sha256_tagged digit_hash tag payload = replicate 32 ((if payload = [] then 0 else last payload) + 1)"
  by (simp add: sha256_tagged_def digit_hash_def)

lemma digit_hash_hex [simp]: "hash_hex digit_hash (replicate 32 b) = digits (char_of (48 + unat b)) 64"
  using encode_replicate [of 32 "char_of (48 + unat b)"] by (simp add: hash_hex_def digit_hash_def)

lemma digit_hash_message [simp]:
  "message_hash digit_hash (MsgMinerRegistration r) = digits (CHR ''2'') 64"
  "message_hash digit_hash (MsgBitcoinWorkTemplate t) = digits (CHR ''3'') 64"
  "message_hash digit_hash (MsgShare s) = digits (CHR ''4'') 64"
  "message_hash digit_hash (MsgSharechainCheckpoint c) = digits (CHR ''5'') 64"
  by (simp_all add: message_hash_def canonical_json_def tagged_def digit_hash_def [THEN arg_cong [of _ _ to_vec]]
      message_kind_def)

abbreviation ones :: "nat \<Rightarrow> string" where
  "ones \<equiv> digits CHR ''1''"

lemma ones_class [simp]: "is_ascii_hexdigit CHR ''1''" "ascii_lower CHR ''1'' = CHR ''1''"
  "ascii_lower CHR ''2'' = CHR ''2''" "ascii_lower CHR ''4'' = CHR ''4''" "is_ascii_hexdigit CHR ''2''" "is_ascii_hexdigit CHR ''4''"
  by code_simp+

definition sample_registration :: MinerRegistration where
  "sample_registration = \<lparr>reg_version = 2, reg_miner_id = ''m1'', reg_idena_address = ''0x'' @ ones 40,
     reg_btc_payout_script_hex = ones 44, reg_claim_owner_pubkey_hex = ones 64, reg_mining_pubkey_hex = ones 64,
     reg_registry_anchor = Some \<lparr>mr_contract_address = ''0x'' @ ones 40, mr_experiment_id = ''exp'',
       mr_registration_sequence = 1, mr_registration_block = 1, mr_registration_epoch = 1,
       mr_registration_timestamp = 1, mr_registration_commitment = ones 64\<rparr>,
     reg_idena_signature_hex = ones 130, reg_mining_signature_hex = ones 128\<rparr>"

lemma digit_hash_fields [simp]:
  "hex_decode digit_hash (digits c n) = Inr (pairs_to_bytes (digits c n))"
  "hex_encode digit_hash (replicate k b) = digits (char_of (48 + unat b)) (2 * k)"
  "keccak_v256 digit_hash m = replicate 32 1" "to_vec digit_hash = message_kind"
  "xonly_from_str digit_hash p = Inr (as_bytes p)" "schnorr_from_slice digit_hash = Inr"
  "verify_schnorr digit_hash sg h pk = Inr ()" "recovery_id_from_i32 digit_hash = Inr"
  "recoverable_from_compact digit_hash d i = Inr (d, i)" "recover_ecdsa digit_hash e f = Inr (fst f)"
  "is_p2wpkh digit_hash d" "is_p2tr digit_hash d" "sha256d_display digit_hash d = ones 64"
  "max_attainable_regtest digit_hash = replicate 32 (- 1)" "regtest_difficulty digit_hash d = 1"
  by (simp_all add: digit_hash_def identity_hash_def digits_def encode_replicate [unfolded digits_def])

lemma pairs_even [simp]: "even n \<Longrightarrow> pairs_to_bytes (digits c n) = replicate (n div 2) (of_nat (of_char c - 48))"
  using pairs_to_bytes_digits [of c "n div 2"] by simp

lemma m1_ok [simp]: "sc_validate_miner_id f ''m1'' = Ok ()" "to_ascii_lowercase ''m1'' = ''m1''" "to_ascii_lowercase ''exp'' = ''exp''"
  "validate_experiment_id ''exp'' = Ok ()"
  by code_simp+

lemma prefixed_ones [simp]: "validate_prefixed_hex f (CHR ''0'' # CHR ''x'' # ones 40) 20 = Ok ()"
  "validate_unprefixed_hex g (ones 64) 32 = Ok ()" "validate_prefixed_hex f (CHR ''0'' # CHR ''x'' # ones 64) 32 = Ok ()"
  by code_simp+

lemma strip_digits [simp]: "c \<noteq> CHR ''0'' \<Longrightarrow> strip_prefix ''0x'' (digits c n) = None"
  by (cases n) (auto simp: strip_prefix_None_iff digits_def)

lemma registry_anchor_ok: "reg_validate_registry_anchor digit_hash sample_registration = Ok ()"
  by (simp add: sample_registration_def reg_validate_registry_anchor_def version_constants validate_registry_def
      registry_commitment_hash_def canonical_json_def message_kind_def MinerRegistryCommitmentPayload_def)

lemma registration_verifies: "registration_verify_mining_signature digit_hash sample_registration = Ok ()"
  using registry_anchor_ok
  by (simp add: registration_verify_mining_signature_def sample_registration_def sc_validate_idena_address_def
      version_constants length_constants decode_recoverable_idena_signature_def unwrap_prefix_0x_def
      validate_direct_payout_script_def verify_signature_with_def)

lemma lowercase_0x [simp]: "to_ascii_lowercase (CHR ''0'' # CHR ''x'' # s) = CHR ''0'' # CHR ''x'' # to_ascii_lowercase s"
  by (simp add: to_ascii_lowercase_def) code_simp

lemma registration_owned: "verify_idena_ownership_signature digit_hash sample_registration = Ok ()"
  by (simp add: verify_idena_ownership_signature_def sample_registration_def recover_idena_signin_address_def
      decode_recoverable_idena_signature_def unwrap_prefix_0x_def length_constants idena_recovery_id_def
      idena_address_from_pubkey_def keccak256_def)

definition sample_template :: BitcoinWorkTemplate where
  "sample_template = \<lparr>bt_version = 1, bt_miner_id = ''m1'', bt_header_prefix_hex = ones 152,
     bt_template_hash = digits CHR ''2'' 64, bt_assigned_share_target = None, bt_idena_anchor = None,
     bt_idena_anchor_policy_hash = None, bt_created_at_unix = 1, bt_mining_signature_hex = ones 128\<rparr>"

definition sample_share :: Share where
  "sample_share = \<lparr>sh_miner_id = ''m1'', sh_bitcoin_header_hex = ones 160, sh_bitcoin_template_hash = digits CHR ''2'' 64,
     sh_nonce_hex = ones 8, sh_work_hash = ones 64, sh_target = ones 64, sh_idena_snapshot_id = ''snap'',
     sh_idena_snapshot_proof_root = ones 64, sh_hashrate_score_delta = 1,
     sh_parent_share_hash = ZERO_SHARE_PARENT_HASH, sh_work_binding = None, sh_mining_signature_hex = ones 128\<rparr>"

definition first_checkpoint :: SharechainCheckpointAnchorV1 where
  "first_checkpoint = \<lparr>cp_contract_address = ''0x'' @ ones 40, cp_experiment_id = ''exp'', cp_round = 1,
     cp_share_tip_hash = digits CHR ''4'' 64, cp_share_height = 1, cp_cumulative_score = ''1'',
     cp_parent_checkpoint_tip = ZERO_SHARE_PARENT_HASH, cp_finalization_block = 1,
     cp_finalization_block_hash = ''0x'' @ ones 64, cp_finalization_epoch = 1, cp_finalization_timestamp = 1,
     cp_support_count = 1, cp_registered_count = 1, cp_registered_miners = [''m1''], cp_supporters = [''m1'']\<rparr>"

definition run1 :: SharechainReplayState where
  "run1 = record_message (digits CHR ''2'' 64)
     (default_state\<lparr>st_registrations := bt_insert ''m1'' sample_registration bt_empty\<rparr>)"

definition run2 :: SharechainReplayState where
  "run2 = run1\<lparr>st_accepted_bitcoin_work_template_prefixes := bt_insert (digits CHR ''2'' 64) (ones 152) bt_empty\<rparr>"

definition run3 :: SharechainReplayState where
  "run3 = record_message (digits CHR ''3'' 64)
     (run2\<lparr>st_bitcoin_work_templates := bt_insert (digits CHR ''2'' 64) sample_template bt_empty\<rparr>)"

lemma step1: "apply_message digit_hash (MsgMinerRegistration sample_registration) default_state = (Ok Applied, run1)"
proof -
  have "stored_registration sample_registration = sample_registration" "reg_miner_id sample_registration = ''m1''"
    by (simp_all add: stored_registration_def sample_registration_def)
  then show ?thesis
    by (simp add: apply_message_def apply_registration_def registration_verifies registration_owned run1_def res_simps default_state_def)
qed

lemma template_hash_ok: "verify_template_hash digit_hash sample_template = Ok ()"
  by (simp add: verify_template_hash_def sample_template_def expected_template_hash_def version_constants
      template_hash_for_header_prefix_hex_def decode_bitcoin_header_prefix_hex_def validate_bitcoin_header_prefix_hex_def
      validate_hex_exact_len_def length_constants decode_array_def)

lemma template_signed: "template_verify_mining_signature digit_hash sample_template (ones 64) = Ok ()"
  by (simp add: template_verify_mining_signature_def template_hash_ok)
    (simp add: verify_signature_with_def length_constants sample_template_def)

lemma step2: "accept_bitcoin_work_template digit_hash sample_template run1 = (Ok (digits CHR ''2'' 64), run2)"
  by (simp add: accept_bitcoin_work_template_def insert_accepted_prefix_def res_simps template_hash_ok)
    (simp add: run2_def sample_template_def run1_def record_message_def default_state_def)

lemma step3: "apply_message digit_hash (MsgBitcoinWorkTemplate sample_template) run2 = (Ok Applied, run3)"
proof -
  have "check_template digit_hash sample_template run2 = Ok ()"
    using template_signed
    by (simp add: check_template_def get_or_def run2_def run1_def record_message_def sample_template_def sample_registration_def)
  moreover have "normalized_template sample_template = sample_template"
    by (simp add: normalized_template_def sample_template_def)
  ultimately show ?thesis
    by (simp add: apply_message_def apply_bitcoin_work_template_def res_simps Let_def sample_template_def run3_def)
     (simp add: run2_def run1_def record_message_def default_state_def)
qed

lemma share_work_ok: "verify_work_score digit_hash sample_share = Ok ()"
  by (simp add: verify_work_score_def sample_share_def recomputed_work_hash_def decode_bitcoin_header_hex_def
     validate_bitcoin_header_hex_def validate_hex_exact_len_def length_constants decode_array_def decode_hex_32_def validate_hex_32_def
      max_share_target_bytes_def share_score_from_target_def)
    (simp add: numeral_eq_Suc)

lemma zero_hash: "ZERO_SHARE_PARENT_HASH = digits CHR ''0'' 64"
  by (simp add: ZERO_SHARE_PARENT_HASH_def digits_def)

lemma zero_class [simp]: "is_ascii_hexdigit CHR ''0''" "ascii_lower CHR ''0'' = CHR ''0''"
  "sc_validate_snapshot_id ''snap'' = Ok ()" "to_ascii_lowercase ''snap'' = ''snap''"
  by code_simp+

lemma share_signed: "verify_mining_signature_for_template digit_hash sample_share (ones 64) sample_template = Ok ()"
proof -
  have "validate_share_fields sample_share = Ok ()"
    by (simp add: validate_share_fields_def sample_share_def validate_bitcoin_header_hex_def
       validate_hex_exact_len_def validate_hex_32_def length_constants zero_hash)
  moreover have "bitcoin_header_prefix_hex digit_hash sample_share = Ok (ones 152)"
    by (simp add: bitcoin_header_prefix_hex_def sample_share_def decode_bitcoin_header_hex_def
     validate_bitcoin_header_hex_def validate_hex_exact_len_def length_constants decode_array_def)
  moreover have "verify_assigned_share_target digit_hash sample_template (sh_target sample_share) = Ok ()"
    by (simp add: verify_assigned_share_target_def template_hash_ok) (simp add: sample_template_def version_constants)
  moreover have "verify_nonce_binding digit_hash sample_share = Ok ()"
    by (simp add: verify_nonce_binding_def recomputed_nonce_hex_def sample_share_def decode_bitcoin_header_hex_def
     validate_bitcoin_header_hex_def validate_hex_exact_len_def length_constants decode_array_def)
  ultimately show ?thesis
    by (simp add: verify_mining_signature_for_template_def template_hash_ok share_work_ok Let_def)
      (simp add: sample_template_def sample_share_def verify_present_work_binding_for_template_def verify_present_work_binding_fields_def
        verify_signature_with_def length_constants)
qed

lemma share_checked: "check_share digit_hash sample_share run3 = Ok ()"
  using share_signed template_hash_ok
  by (simp add: check_share_def get_or_def Let_def run3_def run2_def run1_def record_message_def
        validate_share_bitcoin_work_template_def bitcoin_header_prefix_hex_def decode_bitcoin_header_hex_def
     validate_bitcoin_header_hex_def validate_hex_exact_len_def length_constants decode_array_def
     sample_registration_def sample_template_def sample_share_def verify_assigned_share_target_def version_constants)

definition run4 :: SharechainReplayState where
  "run4 = record_message (digits CHR ''4'' 64) (run3\<lparr>
     st_shares := bt_insert (digits CHR ''4'' 64) \<lparr>nd_share = sample_share, nd_parent_share_hash = ZERO_SHARE_PARENT_HASH,
       nd_cumulative_score = Some 1, nd_height = 1\<rparr> bt_empty,
     st_share_hash_by_work_hash := bt_insert (ones 64) (digits CHR ''4'' 64) bt_empty,
     st_children_by_parent := bt_insert ZERO_SHARE_PARENT_HASH (bs_insert (digits CHR ''4'' 64) bt_empty) bt_empty,
     st_active_share_hashes := bs_insert (digits CHR ''4'' 64) bt_empty,
     st_active_share_score_total := 1, st_best_share_tip := Some (digits CHR ''4'' 64),
     st_hashrate_scores := bt_insert ''m1'' 1 bt_empty\<rparr>)"

lemma first_share:
  assumes e: "st_shares st = bt_empty" "st_share_hash_by_work_hash st = bt_empty" "st_children_by_parent st = bt_empty"
      "st_best_share_tip st = None" "st_sharechain_checkpoints st = bt_empty"
    and s: "normalized_share s = s" "sh_parent_share_hash s = ZERO_SHARE_PARENT_HASH"
    and h: "share_hash X s = h" "h \<noteq> ZERO_SHARE_PARENT_HASH"
  defines "m \<equiv> to_ascii_lowercase (sh_miner_id s)" and "d \<equiv> sh_hashrate_score_delta s"
  shows "apply_share X s st = (Ok (), st\<lparr>
     st_shares := bt_insert h \<lparr>nd_share = s, nd_parent_share_hash = ZERO_SHARE_PARENT_HASH,
       nd_cumulative_score = Some d, nd_height = 1\<rparr> bt_empty,
     st_share_hash_by_work_hash := bt_insert (to_ascii_lowercase (sh_work_hash s)) h bt_empty,
     st_children_by_parent := bt_insert ZERO_SHARE_PARENT_HASH (bs_insert h bt_empty) bt_empty,
     st_active_share_hashes := bs_insert h bt_empty,
     st_active_share_score_total := d, st_best_share_tip := Some h,
     st_hashrate_scores := bt_insert m d bt_empty\<rparr>)"
proof -
  have z: "to_ascii_lowercase ZERO_SHARE_PARENT_HASH = ZERO_SHARE_PARENT_HASH" by (simp add: zero_hash)
  have len: "bt_len (bt_insert h n bt_empty) = Suc 0" for n :: ShareNode
    by (simp add: bt_len_def bt_insert.rep_eq bt_empty.rep_eq)
  have v: "validate_unique_sharechain_root h ZERO_SHARE_PARENT_HASH st = Ok ()"
    by (simp add: validate_unique_sharechain_root_def other_root_def e bt_empty.rep_eq)
  have c: "checked_add 0 x = Some x" for x :: Score by (simp add: checked_simps)
  have one: "bs_collect [h] = bs_insert h bt_empty" by (simp add: bs_collect_def)
  show ?thesis
    unfolding m_def d_def
    by (simp add: apply_share_def s h e z v bindA_def readA_def Let_def resolve_share_and_descendants_def len branch_score_def
     new_node_def add_child_def consider_resolved_share_def latest_sharechain_checkpoint_def bt_last_def bt_empty.rep_eq
      is_better_share_def extends_active_tip_def rebuild_active_branch_def active_branch.simps credit_share_def c one
      score_entry_def children_def btm.ins_ins)
qed

lemma step4: "apply_message digit_hash (MsgShare sample_share) run3 = (Ok Applied, run4)"
proof -
  have n: "normalized_share sample_share = sample_share"
    by (simp add: normalized_share_def sample_share_def zero_hash)
  have z: "digits CHR ''4'' 64 \<noteq> ZERO_SHARE_PARENT_HASH" by (simp add: zero_hash)
  have s: "sh_parent_share_hash sample_share = ZERO_SHARE_PARENT_HASH" "sh_miner_id sample_share = ''m1''"
    "sh_hashrate_score_delta sample_share = 1" "sh_work_hash sample_share = ones 64"
    by (simp_all add: sample_share_def)
  have e: "st_shares run3 = bt_empty" "st_share_hash_by_work_hash run3 = bt_empty" "st_children_by_parent run3 = bt_empty"
      "st_best_share_tip run3 = None" "st_sharechain_checkpoints run3 = bt_empty"
    and a: "st_applied_message_hashes run3 = bs_insert (digits CHR ''3'' 64) (bs_insert (digits CHR ''2'' 64) bt_empty)"
    by (simp_all add: run3_def run2_def run1_def record_message_def default_state_def)
  have h: "share_hash digit_hash sample_share = digits CHR ''4'' 64" by (simp add: share_hash_def)
  show ?thesis
    using first_share [OF e n s(1) h z] s share_checked a
    by (simp add: apply_message_def res_simps run4_def)
qed

definition run5 :: SharechainReplayState where
  "run5 = record_message (digits CHR ''5'' 64)
     (run4\<lparr>st_sharechain_checkpoints := bt_insert 1 first_checkpoint bt_empty\<rparr>)"

lemma checkpoint_parts:
  "validate_unprefixed_hex f (digits CHR ''4'' 64) 32 = Ok ()" "validate_unprefixed_hex f (digits CHR ''0'' 64) 32 = Ok ()"
  "validate_positive_checkpoint_score ''1'' = Ok ()" "validate_checkpoint_miner_list [''m1''] = Ok ()"
  "checkpoint_quorum_threshold 1 = Ok 1" "binary_search [''m1''] ''m1''" "parse_word ''1'' = Some (1 :: Score)"
  by code_simp+

lemma first_checkpoint_valid: "validate_checkpoint first_checkpoint = Ok ()"
  by (simp add: validate_checkpoint_def first_checkpoint_def zero_hash checkpoint_parts MAX_CHECKPOINT_MINERS_def)

lemma first_checkpoint_checked: "check_checkpoint digit_hash first_checkpoint run4 = Ok ()"
proof -
  have r: "st_registrations run4 = bt_insert ''m1'' sample_registration bt_empty" "st_sharechain_checkpoints run4 = bt_empty"
    "st_shares run4 = bt_insert (digits CHR ''4'' 64) \<lparr>nd_share = sample_share, nd_parent_share_hash = ZERO_SHARE_PARENT_HASH,
       nd_cumulative_score = Some 1, nd_height = 1\<rparr> bt_empty"
    by (simp_all add: run4_def run3_def run2_def run1_def record_message_def default_state_def)
  have a: "require_registry_anchor digit_hash sample_registration = Ok (the (reg_registry_anchor sample_registration))"
    by (simp add: require_registry_anchor_def registry_anchor_ok) (simp add: sample_registration_def)
  have m: "check_checkpoint_miner digit_hash first_checkpoint run4 ''m1'' = Ok ()"
    by (simp add: check_checkpoint_miner_def r get_or_def a instead_err_def)
      (simp add: sample_registration_def first_checkpoint_def)
  have t: "check_checkpoint_tip first_checkpoint run4 = Ok ()"
    by (simp add: check_checkpoint_tip_def r first_checkpoint_def checkpoint_parts)
  show ?thesis using m t
    by (simp add: check_checkpoint_def r check_checkpoint_order_def bt_last_def bt_empty.rep_eq first_checkpoint_def
      bt_keys_def bt_insert.rep_eq)
qed

lemma step5: "apply_message digit_hash (MsgSharechainCheckpoint first_checkpoint) run4 = (Ok Applied, run5)"
proof -
  have n: "normalized_checkpoint first_checkpoint = first_checkpoint"
    by (simp add: normalized_checkpoint_def first_checkpoint_def zero_hash)
  have c: "checked_add 0 x = Some x" for x :: Score by (simp add: checked_simps)
  have s: "sh_miner_id sample_share = ''m1''" "sh_hashrate_score_delta sample_share = 1"
    by (simp_all add: sample_share_def)
  have f: "cp_round first_checkpoint = 1" "cp_share_tip_hash first_checkpoint = digits CHR ''4'' 64"
    by (simp_all add: first_checkpoint_def)
  have "rebuild_active_branch (digits CHR ''4'' 64)
      (run4\<lparr>st_sharechain_checkpoints := bt_insert 1 first_checkpoint bt_empty\<rparr>) =
    (Ok (), run4\<lparr>st_sharechain_checkpoints := bt_insert 1 first_checkpoint bt_empty\<rparr>)"
    by (simp add: rebuild_active_branch_def run4_def record_message_def active_branch.simps bs_collect_def bindA_def
      credit_share_def score_entry_def c s Let_def btm.ins_ins)
  moreover have "st_sharechain_checkpoints run4 = bt_empty"
    "bt_get (st_applied_message_hashes run4) (digits CHR ''5'' 64) = None"
    by (simp_all add: run4_def run3_def run2_def run1_def record_message_def default_state_def)
  ultimately show ?thesis
    by (simp add: apply_message_def res_simps first_checkpoint_valid apply_sharechain_checkpoint_def Let_def n f
      first_checkpoint_checked run5_def)
qed

lemma sample_run:
  "replay_reachable digit_hash run3" "replay_reachable digit_hash run4" "replay_reachable digit_hash run5"
proof -
  have "replay_reachable digit_hash run1" using replay_reachable.step [OF init message [OF step1]] .
  from replay_reachable.step [OF this accept_template [OF step2]] have "replay_reachable digit_hash run2" .
  from replay_reachable.step [OF this message [OF step3]] show r: "replay_reachable digit_hash run3" .
  from replay_reachable.step [OF this message [OF step4]] show r: "replay_reachable digit_hash run4" .
  from replay_reachable.step [OF this message [OF step5]] show r: "replay_reachable digit_hash run5" .
qed

lemma digit_hash_no_zero: "no_zero_share_hash digit_hash"
  by (simp add: no_zero_share_hash_def share_hash_def zero_hash)

end
