(* ===== verification/ReplayProps.thy ===== *)
theory ReplayProps
  imports ReplayRun Payout
begin

text \<open>
  The properties of the replayed sharechain: accounting of the active branch, fork choice,
  convergence, finality of checkpoints, single effect of messages, stability of registrations, and
  conservation of claims by messages, withdrawal batches and confirmed payouts.
\<close>

section \<open>Parent chains\<close>

text \<open>
  A parent chain runs from a share to the root of the sharechain, each share stored and followed by
  its parent.
\<close>

fun parent_chain :: "share_map \<Rightarrow> string list \<Rightarrow> bool" where
  "parent_chain S [] \<longleftrightarrow> False"
| "parent_chain S (h # hs) \<longleftrightarrow> (\<exists>node. bt_get S h = Some node \<and>
     (if hs = [] then nd_parent_share_hash node = ZERO_SHARE_PARENT_HASH
      else nd_parent_share_hash node = hd hs \<and> parent_chain S hs))"

abbreviation chain_weight :: "share_map \<Rightarrow> string list \<Rightarrow> nat" where
  "chain_weight S hs \<equiv> sum_list (map (weight S) hs)"

lemma parent_chain_stored: "parent_chain S hs \<Longrightarrow> h \<in> set hs \<Longrightarrow> bt_get S h \<noteq> None"
  by (induction hs) (auto split: if_splits)

lemma branch_parent_chain:
  assumes "scored S" and "resolved S h"
  shows "parent_chain S (branch S h)"
  using assms
proof (induction rule: resolved_induct)
  case (root h node)
  then show ?case by (simp add: branch_root)
next
  case (step h node s)
  have "resolved S h" using step(1,3) by (auto simp: resolved_def)
  then have "branch S h = h # branch S (nd_parent_share_hash node)" using branch_step assms(1) step(1,2) by blast
  moreover have "hd (branch S (nd_parent_share_hash node)) = nd_parent_share_hash node"
    using branch_facts [OF assms(1) step(4)] by simp
  ultimately show ?case using step by auto
qed

lemma parent_chain_branch:
  assumes S: "scored S" "complete_but S []" and "parent_chain S hs"
  shows "resolved S (hd hs) \<and> branch S (hd hs) = hs"
  using assms(3)
proof (induction hs)
  case (Cons h hs)
  then obtain node where n: "bt_get S h = Some node"
    and p: "if hs = [] then nd_parent_share_hash node = ZERO_SHARE_PARENT_HASH
      else nd_parent_share_hash node = hd hs \<and> parent_chain S hs" by auto
  show ?case
  proof (cases hs)
    case Nil
    then have "resolved S h" using p n S(2) by (auto simp: complete_but_def ready_def)
    then show ?thesis using Nil p n by (simp add: branch_root)
  next
    case (Cons x xs)
    then have r: "resolved S (hd hs)" "branch S (hd hs) = hs" using Cons.IH p by auto
    then have "resolved S h" using p n S(2) Cons by (auto simp: complete_but_def ready_def)
    moreover have "hd hs \<noteq> ZERO_SHARE_PARENT_HASH" using S(1) r(1) by (auto simp: scored_def resolved_def)
    ultimately show ?thesis using branch_step [OF S(1) _ n] p r Cons by simp
  qed
qed simp

lemma reachable_inv:
  assumes "replay_reachable X st" and "no_zero_share_hash X"
  shows "tree_inv X st" "chain_inv st" "scored (st_shares st)" "complete_but (st_shares st) []" "tip_ok st" "best_ok st"
proof -
  have "run_inv X st" using run.inv_reachable [OF assms(1)] assms(2) by simp
  then show "tree_inv X st" "chain_inv st" "scored (st_shares st)" "complete_but (st_shares st) []" "tip_ok st" "best_ok st"
    by (simp_all add: run_inv_def tree_inv_def loop_inv_def)
qed

section \<open>The active branch\<close>

text \<open>
  C3: The active branch and the scores are those of the tip: in every reachable state with a tip, the
  active set is the parent chain from the tip to the root, the active total is the sum of the score
  deltas along it, and every miner's hashrate score is the sum of the deltas of the miner's own shares
  on that chain, with no entry for a miner that has none. The hypothesis on the message digest is
  that no share hashes to the all-zero parent marker.
\<close>

theorem active_branch_accounting:
  assumes "replay_reachable X st" and "no_zero_share_hash X" and "st_best_share_tip st = Some t"
  shows "\<exists>hs. parent_chain (st_shares st) hs \<and> hd hs = t \<and> distinct hs \<and>
    st_active_share_hashes st = bs_collect hs \<and>
    unat (st_active_share_score_total st) = chain_weight (st_shares st) hs \<and>
    (\<forall>m. unat (score_entry (st_hashrate_scores st) m) = credited (st_shares st) hs m) \<and>
    (\<forall>m. bt_contains (st_hashrate_scores st) m \<longleftrightarrow> m \<in> miner (st_shares st) ` set hs)"
proof -
  note i = reachable_inv [OF assms(1,2)]
  have r: "resolved (st_shares st) t" and a: "accounts_for st (branch (st_shares st) t)"
    using i(5) assms(3) by (simp_all add: tip_ok_def)
  then show ?thesis
    using branch_parent_chain [OF i(3) r] branch_facts [OF i(3) r]
    by (intro exI [of _ "branch (st_shares st) t"]) (simp add: accounts_for_def totals_for_def)
qed

text \<open>
  C4: Fork choice: while no checkpoint is stored, the tip of a reachable state heads a heaviest parent
  chain, and among the heaviest ones it has the smallest hash.
\<close>

theorem fork_choice:
  assumes "replay_reachable X st" and "no_zero_share_hash X" and "st_sharechain_checkpoints st = bt_empty"
    and "parent_chain (st_shares st) hs"
  shows "\<exists>ts. parent_chain (st_shares st) ts \<and> st_best_share_tip st = Some (hd ts) \<and>
    (chain_weight (st_shares st) hs < chain_weight (st_shares st) ts \<or>
     chain_weight (st_shares st) hs = chain_weight (st_shares st) ts \<and> hd ts \<le> hd hs)"
proof -
  note i = reachable_inv [OF assms(1,2)]
  let ?S = "st_shares st"
  have h: "resolved ?S (hd hs)" "branch ?S (hd hs) = hs" using parent_chain_branch [OF i(3,4) assms(4)] by simp_all
  have nb: "\<not> beats ?S (hd hs) (st_best_share_tip st)"
    using i(6) h(1) assms(3) by (simp add: best_ok_def bt_last_None_iff)
  then obtain t where t: "st_best_share_tip st = Some t" by (auto simp: beats_def split: option.splits)
  then have r: "resolved ?S t" using i(5) by (simp add: tip_ok_def)
  have "chain_weight ?S hs = score_of ?S (hd hs)" "chain_weight ?S (branch ?S t) = score_of ?S t" "hd (branch ?S t) = t"
    using branch_facts [OF i(3) h(1)] branch_facts [OF i(3) r] h(2) by simp_all
  then show ?thesis using branch_parent_chain [OF i(3) r] nb t
    by (intro exI [of _ "branch ?S t"]) (auto simp: beats_def not_less)
qed

text \<open>
  C5: No share waits longer than its ancestry: in a reachable state a stored share is resolved as soon as
  its whole parent chain is stored, in whatever order the shares came, and only then; its cumulative
  score is the weight of that chain and its height the length.
\<close>

theorem share_resolves:
  assumes "replay_reachable X st" and "no_zero_share_hash X" and "bt_get (st_shares st) h = Some node"
  shows "case nd_cumulative_score node of
      None \<Rightarrow> \<not> (\<exists>hs. parent_chain (st_shares st) hs \<and> hd hs = h)
    | Some score \<Rightarrow> \<exists>hs. parent_chain (st_shares st) hs \<and> hd hs = h
        \<and> unat score = chain_weight (st_shares st) hs \<and> unat (nd_height node) = length hs"
proof (cases "nd_cumulative_score node")
  note i = reachable_inv [OF assms(1,2)]
  case None
  then have "\<not> resolved (st_shares st) h" using assms(3) by (simp add: resolved_def)
  then show ?thesis using None parent_chain_branch [OF i(3,4)] by auto
next
  note i = reachable_inv [OF assms(1,2)]
  case (Some score)
  then have r: "resolved (st_shares st) h" using assms(3) by (simp add: resolved_def)
  then show ?thesis
    using Some assms(3) branch_parent_chain [OF i(3) r] branch_facts [OF i(3) r]
    by (auto simp: score_of_def depth_def intro!: exI [of _ "branch (st_shares st) h"])
qed

section \<open>Convergence\<close>

lemma weight_shape: "map_option shape (bt_get S h) = map_option shape (bt_get S' h) \<Longrightarrow> weight S h = weight S' h"
  by (auto simp: weight_def shape_def split: option.splits)

lemma parent_chain_shape:
  assumes "\<And>h. map_option shape (bt_get S h) = map_option shape (bt_get S' h)" and "parent_chain S hs"
  shows "parent_chain S' hs"
  using assms(2)
proof (induction hs)
  case (Cons h hs)
  then show ?case using assms(1) [of h] by (cases "bt_get S' h") (auto simp: shape_def split: if_splits)
qed simp

lemma resolved_iff_chain:
  assumes "scored S" "complete_but S []"
  shows "resolved S h \<longleftrightarrow> (\<exists>hs. parent_chain S hs \<and> hd hs = h)"
  using branch_parent_chain [OF assms(1)] branch_facts [OF assms(1)] parent_chain_branch [OF assms] by metis

lemma shares_determined:
  assumes S: "scored S" "complete_but S []" and S': "scored S'" "complete_but S' []"
    and eq: "\<And>h. map_option shape (bt_get S h) = map_option shape (bt_get S' h)"
  shows "S = S'"
proof (rule btm.map_ext)
  fix h
  have rr: "resolved S h \<longleftrightarrow> resolved S' h"
    using parent_chain_shape [of S S'] parent_chain_shape [of S' S] eq
    by (auto simp: resolved_iff_chain S S')
  show "bt_get S h = bt_get S' h"
  proof (cases "resolved S h")
    case True
    have b: "branch S' h = branch S h"
      using parent_chain_branch [OF S' parent_chain_shape [OF eq branch_parent_chain [OF S(1) True]]]
        branch_facts [OF S(1) True] by simp
    have w: "map (weight S') xs = map (weight S) xs" for xs using weight_shape [of S _ S'] eq by simp
    have "score_of S h = score_of S' h" "depth S h = depth S' h"
      using branch_facts [OF S(1) True] branch_facts [OF S'(1), of h] True rr b w by simp_all
    then show ?thesis using True rr eq [of h]
      by (auto simp: resolved_def score_of_def depth_def shape_def simp flip: word_unat_eq_iff intro!: ShareNode.equality)
  next
    case False
    then show ?thesis using rr eq [of h] S(1) S'(1)
      by (cases "bt_get S h"; cases "bt_get S' h")
        (fastforce simp: resolved_def shape_def scored_def scored_node_def split: option.splits)+
  qed
qed

lemma tip_unique:
  assumes "tip_ok st" "tip_ok st'" "best_ok st" "best_ok st'" and S: "st_shares st = st_shares st'"
    and c: "st_sharechain_checkpoints st = bt_empty" "st_sharechain_checkpoints st' = bt_empty"
  shows "st_best_share_tip st = st_best_share_tip st'"
proof -
  have b: "\<not> beats (st_shares st) h (st_best_share_tip st) \<and> \<not> beats (st_shares st) h (st_best_share_tip st')"
    if "resolved (st_shares st) h" for h
    using assms that by (simp add: best_ok_def bt_last_None_iff)
  have r: "st_best_share_tip st = Some t \<Longrightarrow> resolved (st_shares st) t" "st_best_share_tip st' = Some t \<Longrightarrow> resolved (st_shares st) t"
    for t using assms by (simp_all add: tip_ok_def)
  show ?thesis
  proof (cases "st_best_share_tip st")
    case None
    then have "st_best_share_tip st' \<noteq> Some t" for t using b [OF r(2), of t] by (auto simp: beats_def)
    then show ?thesis using None by (cases "st_best_share_tip st'") auto
  next
    case (Some t)
    with b [OF r(1) [OF Some]] obtain t' where t': "st_best_share_tip st' = Some t'"
      by (cases "st_best_share_tip st'") (auto simp: beats_def)
    then show ?thesis using b [OF r(1) [OF Some]] b [OF r(2) [OF t']] Some by (auto simp: beats_def)
  qed
qed

lemma scores_unique:
  assumes "accounts_for st hs" "accounts_for st' hs" and S: "st_shares st = st_shares st'"
  shows "st_active_share_hashes st = st_active_share_hashes st' \<and>
    st_active_share_score_total st = st_active_share_score_total st' \<and> st_hashrate_scores st = st_hashrate_scores st'"
proof -
  have "bt_get (st_hashrate_scores st) m = bt_get (st_hashrate_scores st') m" for m
  proof -
    have "unat (score_entry (st_hashrate_scores st) m) = unat (score_entry (st_hashrate_scores st') m)"
      and "bt_contains (st_hashrate_scores st) m \<longleftrightarrow> bt_contains (st_hashrate_scores st') m"
      using assms unfolding accounts_for_def totals_for_def S by metis+
    then show ?thesis
      by (auto simp: score_entry_def split: option.splits simp flip: word_unat_eq_iff)
  qed
  then have "st_hashrate_scores st = st_hashrate_scores st'" by (rule btm.map_ext)
  moreover have "unat (st_active_share_score_total st) = unat (st_active_share_score_total st')"
    using assms by (simp add: accounts_for_def totals_for_def)
  ultimately show ?thesis using assms by (simp add: accounts_for_def flip: word_unat_eq_iff)
qed

lemma same_shares_shape:
  assumes "share_keys X st" "share_keys X st'"
    and "nd_share ` set (bt_values (st_shares st)) \<subseteq> nd_share ` set (bt_values (st_shares st'))"
    and "bt_get (st_shares st) h = Some n"
  shows "map_option shape (bt_get (st_shares st') h) = Some (shape n)"
proof -
  have "nd_share n \<in> nd_share ` set (bt_values (st_shares st'))"
    using assms(4) by (intro subsetD [OF assms(3)] imageI) (auto simp: set_bt_values)
  then obtain k n' where n': "bt_get (st_shares st') k = Some n'" "nd_share n' = nd_share n"
    by (auto simp: set_bt_values)
  have "share_hash X (nd_share n') = k" "share_hash X (nd_share n) = h" "shape n' = shape n"
    using assms(1,2,4) n' unfolding share_keys_def shape_def by metis+
  with n' show ?thesis by auto
qed

text \<open>
  C1: Convergence: two reachable states that store the same set of shares and no checkpoint agree on
  the whole share tree, the tip, the active branch, the active total and every miner's hashrate
  score, in whatever order the shares and the other messages arrived.
\<close>

theorem replay_converges:
  assumes "replay_reachable X st" and "replay_reachable X st'" and "no_zero_share_hash X"
    and "st_sharechain_checkpoints st = bt_empty" and "st_sharechain_checkpoints st' = bt_empty"
    and "nd_share ` set (bt_values (st_shares st)) = nd_share ` set (bt_values (st_shares st'))"
  shows "st_shares st = st_shares st' \<and> st_best_share_tip st = st_best_share_tip st' \<and>
    st_active_share_hashes st = st_active_share_hashes st' \<and>
    st_active_share_score_total st = st_active_share_score_total st' \<and> st_hashrate_scores st = st_hashrate_scores st'"
proof -
  note i = reachable_inv [OF assms(1,3)] and i' = reachable_inv [OF assms(2,3)]
  have k: "share_keys X st" "share_keys X st'" using i(1) i'(1) by (simp_all add: tree_inv_def)
  have "map_option shape (bt_get (st_shares st) h) = map_option shape (bt_get (st_shares st') h)" for h
    using same_shares_shape [OF k equalityD1 [OF assms(6)]] same_shares_shape [OF k(2,1) equalityD2 [OF assms(6)]]
    by (metis map_option_is_None not_Some_eq option.simps(9))
  then have S: "st_shares st = st_shares st'" using shares_determined i(3,4) i'(3,4) by blast
  then have t: "st_best_share_tip st = st_best_share_tip st'" using tip_unique i(5,6) i'(5,6) assms(4,5) by blast
  obtain hs where "accounts_for st hs" "accounts_for st' hs"
    using i(5) i'(5) S t by (auto simp: tip_ok_def split: option.splits)
  with scores_unique S t show ?thesis by blast
qed

text \<open>
  C16: Replaying a share message always returns: in a reachable state the resolution loop never runs
  out of the fuel the model gives it (the number of stored shares) and none of the \<open>expect\<close> calls of
  the share tree fails, for any share.
\<close>

theorem apply_share_returns:
  assumes "replay_reachable X st" and "no_zero_share_hash X"
  shows "fst (apply_share X share st) \<noteq> Panic"
  using apply_share_correct [OF reachable_inv(1) [OF assms] assms(2)] by (metis prod.collapse)

text \<open>
  C21: No work is counted twice and the sharechain has one root: in a reachable state different stored
  shares have different work hashes, and at most one stored share has no parent.
\<close>

theorem shares_unique:
  assumes "replay_reachable X st" and "no_zero_share_hash X"
  shows "inj_on (\<lambda>h. to_ascii_lowercase (sh_work_hash (nd_share (the (bt_get (st_shares st) h))))) (set (bt_keys (st_shares st))) \<and>
    card (to_ascii_lowercase ` {h \<in> set (bt_keys (st_shares st)).
      nd_parent_share_hash (the (bt_get (st_shares st) h)) = ZERO_SHARE_PARENT_HASH}) \<le> 1"
proof
  have t: "work_index st" "single_root st" using reachable_inv(1) [OF assms] by (simp_all add: tree_inv_def)
  show "inj_on (\<lambda>h. to_ascii_lowercase (sh_work_hash (nd_share (the (bt_get (st_shares st) h))))) (set (bt_keys (st_shares st)))"
  proof (rule inj_onI)
    fix h h' assume "h \<in> set (bt_keys (st_shares st))" "h' \<in> set (bt_keys (st_shares st))"
      and eq: "to_ascii_lowercase (sh_work_hash (nd_share (the (bt_get (st_shares st) h)))) =
        to_ascii_lowercase (sh_work_hash (nd_share (the (bt_get (st_shares st) h'))))"
    then obtain n n' where "bt_get (st_shares st) h = Some n" "bt_get (st_shares st) h' = Some n'" by auto
    then show "h = h'" using t(1) eq unfolding work_index_def by (metis option.inject option.sel)
  qed
  let ?R = "{h \<in> set (bt_keys (st_shares st)). nd_parent_share_hash (the (bt_get (st_shares st) h)) = ZERO_SHARE_PARENT_HASH}"
  have "to_ascii_lowercase h = to_ascii_lowercase h'" if "h \<in> ?R" "h' \<in> ?R" for h h'
  proof -
    obtain n n' where "bt_get (st_shares st) h = Some n" "nd_parent_share_hash n = ZERO_SHARE_PARENT_HASH"
      "bt_get (st_shares st) h' = Some n'" "nd_parent_share_hash n' = ZERO_SHARE_PARENT_HASH"
      using \<open>h \<in> ?R\<close> \<open>h' \<in> ?R\<close> by auto
    then show ?thesis using t(2) unfolding single_root_def eq_ignore_ascii_case_def by blast
  qed
  then have "\<forall>a \<in> to_ascii_lowercase ` ?R. \<forall>b \<in> to_ascii_lowercase ` ?R. a = b" by blast
  moreover have "finite (to_ascii_lowercase ` ?R)" by simp
  ultimately have "card (to_ascii_lowercase ` ?R) \<le> Suc 0" by (simp only: card_le_Suc0_iff_eq)
  then show "card (to_ascii_lowercase ` ?R) \<le> 1" by simp
qed

section \<open>What a run keeps\<close>

lemma reachable_run: "(replay_step X)\<^sup>*\<^sup>* st st' \<Longrightarrow> replay_reachable X st \<Longrightarrow> replay_reachable X st'"
  by (induction rule: rtranclp_induct) (auto intro: replay_reachable.step)

lemma payload_applied:
  assumes "apply_payload X m st = (Ok (), st')"
  shows "st_applied_message_hashes st' = st_applied_message_hashes st"
proof (cases "is_tree_message m")
  case True
  then show ?thesis using assms
    by (cases m) (auto simp: res_simps outside_tree_def dest!: apply_share_outside checkpoint_outside)
next
  case False
  then show ?thesis using assms
    by (cases m) (auto simp: apply_registration_def apply_bitcoin_work_template_def apply_snapshot_vote_def
      apply_payout_schedule_proposal_def apply_withdrawal_request_def apply_withdrawal_batch_def res_simps
      Let_def split: option.splits if_splits)
qed

interpretation checkpoint_kept: replay_kept X "\<lambda>st. bt_get (st_sharechain_checkpoints st) r = Some c" for X r c
proof unfold_locales
  fix st m st'
  assume c: "bt_get (st_sharechain_checkpoints st) r = Some c" and a: "apply_payload X m st = (Ok (), st')"
  show "bt_get (st_sharechain_checkpoints st') r = Some c"
  proof (cases "is_tree_message m")
    case False
    then show ?thesis using c tree_part_fields(7) [OF payload_tree_part [OF a]] by simp
  next
    case True
    then show ?thesis using a c
      by (cases m) (auto simp: res_simps dest!: apply_share_outside checkpoint_Ok rebuild_outside)
  qed
qed (auto simp: insert_accepted_prefix_def Let_def record_message_def split: option.splits if_splits)

interpretation applied_kept: replay_kept X "\<lambda>st. bt_contains (st_applied_message_hashes st) h" for X h
  by unfold_locales
    (auto simp: insert_accepted_prefix_def Let_def record_message_def payload_applied split: option.splits if_splits)

text \<open>
  C17: A message takes effect once: after a message was applied, every message with the same normal
  form is ignored and leaves the state as it is, also after any number of further steps.
\<close>

theorem message_applied_once:
  assumes "apply_message X m st = (Ok r, st1)" and "(replay_step X)\<^sup>*\<^sup>* st1 st2"
    and "normalized_message m' = normalized_message m"
  shows "apply_message X m' st2 = (Ok DuplicateIgnored, st2)"
proof -
  have "bt_contains (st_applied_message_hashes st1) (message_hash X m)"
    using assms(1) by (auto simp: apply_message_Ok_iff record_message_def split: if_splits)
  then have "bt_contains (st_applied_message_hashes st2) (message_hash X m)"
    by (rule applied_kept.inv_run [OF assms(2)])
  moreover have "message_hash X m' = message_hash X m" using assms(3) by (simp add: message_hash_def)
  ultimately show ?thesis by (simp add: apply_message_def)
qed

lemma checkpoint_below_tip:
  assumes S: "scored (st_shares st)" and ch: "chain_inv st" and last: "bt_last (st_sharechain_checkpoints st) = Some (n, cn)"
  shows "k < unat n \<Longrightarrow> \<exists>c. bt_get (st_sharechain_checkpoints st) (n - of_nat k) = Some c \<and>
    cp_share_tip_hash c \<in> set (branch (st_shares st) (cp_share_tip_hash cn))"
proof (induction k)
  case 0
  have "bt_get (st_sharechain_checkpoints st) n = Some cn" using bt_last_Some [OF last] by simp
  then show ?case using ch branch_self [OF S] by (auto simp: chain_inv_def chain_link_def)
next
  case (Suc k)
  then obtain c where c: "bt_get (st_sharechain_checkpoints st) (n - of_nat k) = Some c"
    "cp_share_tip_hash c \<in> set (branch (st_shares st) (cp_share_tip_hash cn))" by auto
  have "unat (n - of_nat k) = unat n - k"
    using Suc.prems le_unat_uoi [of k n] by (simp add: unat_sub word_le_nat_alt)
  then have "n - of_nat k \<noteq> 1" using Suc.prems by auto
  then obtain p where "bt_get (st_sharechain_checkpoints st) (n - of_nat k - 1) = Some p" and f: "follows (st_shares st) p c"
    using ch c(1) unfolding chain_inv_def chain_link_def by metis
  moreover have "n - of_nat k - 1 = n - of_nat (Suc k)" by simp
  moreover have "resolved (st_shares st) (cp_share_tip_hash cn)"
    using ch bt_last_Some [OF last] by (auto simp: chain_inv_def chain_link_def)
  ultimately show ?case
    using branch_subset [OF S _ c(2)] f by (auto simp: follows_def)
qed

lemma checkpoint_on_branch:
  assumes S: "scored (st_shares st)" and ch: "chain_inv st" and c: "bt_get (st_sharechain_checkpoints st) r = Some c"
  obtains t where "st_best_share_tip st = Some t" "resolved (st_shares st) t"
    "cp_share_tip_hash c \<in> set (branch (st_shares st) t)"
proof -
  have "bt_last (st_sharechain_checkpoints st) \<noteq> None" using c by (auto simp: bt_last_None_iff)
  then obtain n cn where last: "bt_last (st_sharechain_checkpoints st) = Some (n, cn)" by auto
  have "r \<le> n" and "r \<noteq> 0" using bt_last_Some(2) [OF last, of r] c ch by (auto simp: chain_inv_def chain_link_def)
  then have r: "unat r \<le> unat n" "0 < unat r" by (simp_all add: word_le_nat_alt unat_gt_0)
  then have "n - of_nat (unat n - unat r) = r" by (simp add: of_nat_diff)
  moreover have "unat n - unat r < unat n" using r by linarith
  ultimately have "cp_share_tip_hash c \<in> set (branch (st_shares st) (cp_share_tip_hash cn))"
    using checkpoint_below_tip [OF S ch last, of "unat n - unat r"] c by auto
  moreover have "resolved (st_shares st) (cp_share_tip_hash cn)" "st_best_share_tip st = Some (cp_share_tip_hash cn)"
    using ch bt_last_Some(1) [OF last] last by (auto simp: chain_inv_def chain_link_def)
  ultimately show thesis using that by blast
qed

text \<open>Resolved shares keep their score and height.\<close>

interpretation shares_kept: replay_kept X
  "\<lambda>st. no_zero_share_hash X \<longrightarrow> run_inv X st \<and> keeps S (st_shares st)" for X S
proof unfold_locales
  fix st m st'
  assume i: "no_zero_share_hash X \<longrightarrow> run_inv X st \<and> keeps S (st_shares st)" and a: "apply_payload X m st = (Ok (), st')"
  have "run_inv X st' \<and> keeps S (st_shares st')" if nz: "no_zero_share_hash X"
  proof
    show "run_inv X st'" using run.inv_payload [OF _ a] i nz by blast
    show "keeps S (st_shares st')"
    proof (cases "is_tree_message m")
      case False
      then show ?thesis using i nz tree_part_fields(1) [OF payload_tree_part [OF a]] by simp
    next
      case True
      then show ?thesis
      proof (cases m)
        case (MsgShare s)
        then have "apply_share X s st = (Ok (), st')" using a by (auto simp: res_simps)
        from apply_share_grows [OF _ nz this] show ?thesis
          using i nz by (auto simp: run_inv_def intro: keeps_trans)
      next
        case (MsgSharechainCheckpoint c)
        then show ?thesis using i nz a checkpoint_chain_inv [of st X c st']
          by (auto simp: run_inv_def tree_inv_def)
      qed simp_all
    qed
  qed
  then show "no_zero_share_hash X \<longrightarrow> run_inv X st' \<and> keeps S (st_shares st')" by blast
next
  fix st th p r st'
  assume "no_zero_share_hash X \<longrightarrow> run_inv X st \<and> keeps S (st_shares st)" and a: "insert_accepted_prefix th p st = (Ok r, st')"
  moreover have "st_shares st' = st_shares st"
    using a by (auto simp: insert_accepted_prefix_def Let_def split: option.splits if_splits)
  ultimately show "no_zero_share_hash X \<longrightarrow> run_inv X st' \<and> keeps S (st_shares st')"
    using run.inv_prefix [OF _ a, of X] by simp
next
  fix st h
  assume "no_zero_share_hash X \<longrightarrow> run_inv X st \<and> keeps S (st_shares st)"
  then show "no_zero_share_hash X \<longrightarrow> run_inv X (record_message h st) \<and> keeps S (st_shares (record_message h st))"
    using run.inv_record [of X st h] by (simp add: record_message_def)
next
  fix st l
  assume "no_zero_share_hash X \<longrightarrow> run_inv X st \<and> keeps S (st_shares st)"
  then show "no_zero_share_hash X \<longrightarrow> run_inv X (st\<lparr>st_claim_ledger := l\<rparr>) \<and> keeps S (st_shares (st\<lparr>st_claim_ledger := l\<rparr>))"
    using run.inv_ledger [of X st l] by simp
qed

text \<open>
  C2: Finality: a checkpoint stored in a reachable state stays stored, and the parent chain of its
  share tip stays stored unchanged and inside the active branch, in every later state. Later
  checkpoints and shares, however heavy, never move the active branch off it.
\<close>

theorem checkpoint_finality:
  assumes "replay_reachable X st" and "no_zero_share_hash X"
    and "bt_get (st_sharechain_checkpoints st) r = Some c" and "(replay_step X)\<^sup>*\<^sup>* st st'"
  shows "bt_get (st_sharechain_checkpoints st') r = Some c \<and>
    (\<exists>hs. hd hs = cp_share_tip_hash c \<and> parent_chain (st_shares st) hs \<and> parent_chain (st_shares st') hs \<and>
      set hs \<subseteq> set (bt_keys (st_active_share_hashes st')))"
proof -
  let ?t = "cp_share_tip_hash c"
  note i = reachable_inv [OF assms(1,2)] and i' = reachable_inv [OF reachable_run [OF assms(4,1)] assms(2)]
  have c': "bt_get (st_sharechain_checkpoints st') r = Some c" by (rule checkpoint_kept.inv_run [OF assms(4,3)])
  have "run_inv X st" and refl: "keeps (st_shares st) (st_shares st)" using i by (simp_all add: run_inv_def keeps_def)
  then have k: "keeps (st_shares st) (st_shares st')"
    using shares_kept.inv_run [OF assms(4), of "st_shares st"] assms(2) by blast
  have r: "resolved (st_shares st) ?t" "resolved (st_shares st') ?t"
    using i(2) i'(2) assms(3) c' by (auto simp: chain_inv_def chain_link_def)
  obtain t where t: "st_best_share_tip st' = Some t" "resolved (st_shares st') t" "?t \<in> set (branch (st_shares st') t)"
    using checkpoint_on_branch [OF i'(3,2) c'] .
  have "st_active_share_hashes st' = bs_collect (branch (st_shares st') t)"
    using i'(5) t(1) by (simp add: tip_ok_def accounts_for_def)
  then have "set (branch (st_shares st') ?t) \<subseteq> set (bt_keys (st_active_share_hashes st'))"
    using branch_subset [OF i'(3) t(2,3)] by (auto simp: bs_get_collect)
  moreover have "branch (st_shares st') ?t = branch (st_shares st) ?t" by (rule keeps_branch [OF i(3) r(1) i'(3) k])
  ultimately show ?thesis
    using c' branch_parent_chain [OF i(3) r(1)] branch_parent_chain [OF i'(3) r(2)] branch_facts [OF i(3) r(1)]
    by (intro conjI exI [of _ "branch (st_shares st) ?t"]) auto
qed

section \<open>Claims\<close>

lemma reserve_output_Ok:
  assumes "reserve_output X st h l w = Ok l'"
  shows "claims l' + unat (wo_gross_amount_sats w) = claims l \<and> pending l' = pending l + unat (wo_gross_amount_sats w) \<and>
    bt_get (cl_pending_withdrawals l) (wo_request_id w) = None \<and>
    (\<exists>p. cl_pending_withdrawals l' = bt_insert (wo_request_id w) p (cl_pending_withdrawals l) \<and> pending_matches_output p w)"
proof -
  from assms obtain r where m2: "output_matches_request r w" and c: "(case reserve_withdrawal X r (wo_fee_sats w) h l of
      (Ok p, l') \<Rightarrow> if \<not> pending_matches_output p w then Err (WithdrawalBatchRequestMismatch (wo_request_id w)) else Ok l'
    | (Err e, _) \<Rightarrow> Err (LedgerFailure e) | (Panic, _) \<Rightarrow> Panic) = Ok l'"
    by (auto simp: reserve_output_def res_simps)
  then obtain p where r: "reserve_withdrawal X r (wo_fee_sats w) h l = (Ok p, l')" and m: "pending_matches_output p w"
    by (cases "reserve_withdrawal X r (wo_fee_sats w) h l"; cases "fst (reserve_withdrawal X r (wo_fee_sats w) h l)")
      (auto split: if_splits)
  note m = m m2
  from r have "wr_request_id r = wo_request_id w" and g: "wr_amount_sats r = wo_gross_amount_sats w"
    using m by (auto simp: reserve_Ok_iff pending_matches_output_def output_matches_request_def)
  with r m reserve_Ok [OF r] show ?thesis
    by (auto simp: reserve_Ok_iff check_reservation_Ok_iff)
qed

lemma reserve_outputs_Ok:
  assumes "try_fold (reserve_output X st h) l ws = Ok l'"
  shows "claims l' + nsum (map wo_gross_amount_sats ws) = claims l \<and> pending l' = pending l + nsum (map wo_gross_amount_sats ws) \<and>
    (\<forall>k p. bt_get (cl_pending_withdrawals l) k = Some p \<longrightarrow> bt_get (cl_pending_withdrawals l') k = Some p) \<and>
    (\<forall>w \<in> set ws. \<exists>p. bt_get (cl_pending_withdrawals l') (wo_request_id w) = Some p \<and> pending_matches_output p w)"
  using assms
proof (induction ws arbitrary: l)
  case Nil
  then show ?case by simp
next
  case (Cons w ws)
  then obtain l1 where l1: "reserve_output X st h l w = Ok l1" "try_fold (reserve_output X st h) l1 ws = Ok l'"
    by (auto simp: res_simps)
  note IH = Cons.IH [OF l1(2)] and one = reserve_output_Ok [OF l1(1)]
  then obtain p where p: "cl_pending_withdrawals l1 = bt_insert (wo_request_id w) p (cl_pending_withdrawals l)"
    "pending_matches_output p w" "bt_get (cl_pending_withdrawals l) (wo_request_id w) = None" by blast
  have "bt_get (cl_pending_withdrawals l') k = Some q" if "bt_get (cl_pending_withdrawals l) k = Some q" for k q
  proof -
    have "k \<noteq> wo_request_id w" using that p(3) by auto
    then show ?thesis using IH that p(1) by simp
  qed
  moreover have "bt_get (cl_pending_withdrawals l') (wo_request_id w) = Some p" using IH p(1) by simp
  moreover have "claims l' + nsum (map wo_gross_amount_sats (w # ws)) = claims l"
    "pending l' = pending l + nsum (map wo_gross_amount_sats (w # ws))" using IH one by simp_all
  ultimately show ?case using IH p(2) by auto
qed

lemma batch_Ok:
  assumes "apply_withdrawal_batch X b st = (Ok (), st')"
  shows "bt_get (st_withdrawal_batches st) (batch_hash X (normalized_batch b)) \<noteq> None \<and> st' = st \<or>
    bt_get (st_withdrawal_batches st) (batch_hash X (normalized_batch b)) = None \<and>
    try_fold (reserve_output X st 0) (st_claim_ledger st) (wb_outputs (normalized_batch b)) = Ok (st_claim_ledger st') \<and>
    expected_withdrawal_batch X (normalized_batch b) 0 st = Ok (normalized_batch b)"
  using assms
  by (auto simp: apply_withdrawal_batch_def Let_def res_simps claim_ledger_after_withdrawal_batch_def
      expected_withdrawal_batch_def normalized_batch_idem split: option.splits if_splits)

lemma payload_ledger:
  assumes "apply_payload X m st = (Ok (), st')" and "\<And>b. m \<noteq> MsgWithdrawalBatch b"
  shows "st_claim_ledger st' = st_claim_ledger st"
proof (cases "is_tree_message m")
  case True
  then show ?thesis using assms(1)
    by (cases m) (auto simp: res_simps outside_tree_def dest!: apply_share_outside checkpoint_outside)
next
  case False
  then show ?thesis using assms
    by (cases m) (auto simp: apply_registration_def apply_bitcoin_work_template_def apply_snapshot_vote_def
      apply_payout_schedule_proposal_def apply_withdrawal_request_def res_simps Let_def split: option.splits if_splits)
qed

lemma vault_allocations_pending:
  "apply_vault_allocations as l = (Ok (), l') \<Longrightarrow> pending l' = pending l"
  by (induction as arbitrary: l) (auto simp: res_simps pending_def apply_vault_allocation_Ok)

text \<open>
  C20: No message creates or destroys claims: whatever message is applied, balances plus pending
  withdrawals of the claim ledger stay the same. Only a withdrawal batch moves sats, from
  balances to pending.
\<close>

theorem message_conserves_claims:
  assumes "apply_message X m st = (Ok r, st')"
  shows "claims (st_claim_ledger st') + pending (st_claim_ledger st') = claims (st_claim_ledger st) + pending (st_claim_ledger st)"
proof -
  consider "st' = st" | st1 where "apply_payload X m st = (Ok (), st1)" "st_claim_ledger st' = st_claim_ledger st1"
    using assms by (auto simp: apply_message_Ok_iff record_message_def split: if_splits)
  then show ?thesis
  proof cases
    case (2 st1)
    show ?thesis
    proof (cases "\<exists>b. m = MsgWithdrawalBatch b")
      case True
      then show ?thesis using 2 batch_Ok reserve_outputs_Ok by fastforce
    next
      case False
      then show ?thesis using 2 payload_ledger by metis
    qed
  qed simp
qed

text \<open>
  C19: An accepted withdrawal batch reserves exactly what it pays: the balances shrink and the pending
  withdrawals grow by the sum of the gross amounts of its outputs, every output is pending with
  its own gross amount, fee and net amount, and every withdrawal pending before still is.
\<close>

theorem withdrawal_batch_reserves:
  assumes "apply_message X (MsgWithdrawalBatch b) st = (Ok Applied, st')"
    and "bt_get (st_withdrawal_batches st) (batch_hash X (normalized_batch b)) = None"
  shows "claims (st_claim_ledger st') + nsum (map wo_gross_amount_sats (wb_outputs (normalized_batch b))) = claims (st_claim_ledger st) \<and>
    pending (st_claim_ledger st') = pending (st_claim_ledger st) + nsum (map wo_gross_amount_sats (wb_outputs (normalized_batch b))) \<and>
    (\<forall>k p. bt_get (cl_pending_withdrawals (st_claim_ledger st)) k = Some p \<longrightarrow>
      bt_get (cl_pending_withdrawals (st_claim_ledger st')) k = Some p) \<and>
    (\<forall>w \<in> set (wb_outputs (normalized_batch b)). \<exists>p.
      bt_get (cl_pending_withdrawals (st_claim_ledger st')) (wo_request_id w) = Some p \<and> pending_matches_output p w)"
proof -
  obtain st1 where "apply_withdrawal_batch X b st = (Ok (), st1)" "st_claim_ledger st' = st_claim_ledger st1"
    using assms(1) by (auto simp: apply_message_Ok_iff record_message_def split: if_splits)
  then have "try_fold (reserve_output X st 0) (st_claim_ledger st) (wb_outputs (normalized_batch b)) = Ok (st_claim_ledger st')"
    using batch_Ok assms(2) by metis
  from reserve_outputs_Ok [OF this] show ?thesis .
qed

text \<open>
  C6: A confirmed reward is distributed completely: when a confirmed payout schedule is applied, the
  direct outputs of the block plus the growth of the claims of the ledger are exactly the reward,
  pending withdrawals are untouched, and every paid miner is registered with the script or claim
  owner the schedule names.
\<close>

theorem confirmed_payout_distributes:
  assumes "apply_confirmed_payout_schedule X s accounts reward_sats direct_limit min_direct st = (Ok (), st')"
  shows "nsum (map dp_amount_sats (ps_direct_outputs s)) + claims (st_claim_ledger st') =
      claims (st_claim_ledger st) + unat reward_sats \<and>
    pending (st_claim_ledger st') = pending (st_claim_ledger st) \<and>
    (\<forall>d \<in> set (ps_direct_outputs s). \<exists>r. bt_get (st_registrations st) (to_ascii_lowercase (dp_miner_id d)) = Some r \<and>
      to_ascii_lowercase (dp_btc_payout_script_hex d) = reg_btc_payout_script_hex r) \<and>
    (\<forall>a \<in> set (ps_vault_allocations s). \<exists>r. bt_get (st_registrations st) (to_ascii_lowercase (va_miner_id a)) = Some r \<and>
      to_ascii_lowercase (va_claim_owner_id a) = reg_claim_owner_pubkey_hex r)"
proof -
  from assms have a: "apply_vault_allocations (ps_vault_allocations s) (st_claim_ledger st) = (Ok (), st_claim_ledger st')"
    and v: "validate_payout_schedule_bindings X s st = Ok ()"
    and b: "build_payout_schedule X accounts reward_sats direct_limit min_direct = Ok s"
    by (auto simp: apply_confirmed_payout_schedule_def on_ledger_def apply_payout_schedule_def res_simps
        validate_deterministic_payout_schedule_def expected_payout_schedule_def split: prod.splits if_splits)
  have pl: "pending (st_claim_ledger st') = pending (st_claim_ledger st)"
    using vault_allocations_pending [OF a] .
  show ?thesis
    using build_conserves [OF b] apply_vault_allocations_Ok [OF a] v
    by (auto simp: pl validate_payout_schedule_bindings_def check_direct_output_def check_vault_allocation_def get_or_def
        Let_def res_simps split: option.splits)
qed

section \<open>Registrations\<close>

definition same_owner :: "MinerRegistration \<Rightarrow> MinerRegistration \<Rightarrow> bool" where
  "same_owner r r' \<longleftrightarrow> eq_ignore_ascii_case (reg_idena_address r) (reg_idena_address r') \<and>
     eq_ignore_ascii_case (reg_btc_payout_script_hex r) (reg_btc_payout_script_hex r') \<and>
     eq_ignore_ascii_case (reg_claim_owner_pubkey_hex r) (reg_claim_owner_pubkey_hex r') \<and>
     eq_ignore_ascii_case (reg_mining_pubkey_hex r) (reg_mining_pubkey_hex r')"

definition anchor_advances :: "MinerRegistryAnchorV1 option \<Rightarrow> MinerRegistryAnchorV1 option \<Rightarrow> bool" where
  "anchor_advances a a' \<longleftrightarrow> (case (a, a') of
     (None, _) \<Rightarrow> True
   | (Some x, None) \<Rightarrow> False
   | (Some x, Some y) \<Rightarrow> eq_ignore_ascii_case (mr_contract_address y) (mr_contract_address x) \<and>
       eq_ignore_ascii_case (mr_experiment_id y) (mr_experiment_id x) \<and>
       mr_registration_sequence x \<le> mr_registration_sequence y)"

lemma upgrade_keeps:
  assumes "is_valid_registry_registration_upgrade r r'"
  shows "same_owner r r' \<and> anchor_advances (reg_registry_anchor r) (reg_registry_anchor r')"
  using assms
  by (auto simp: is_valid_registry_registration_upgrade_def same_owner_def anchor_advances_def
      split: if_splits option.splits)

lemma keeps_registration_trans:
  assumes "same_owner r r1 \<and> anchor_advances (reg_registry_anchor r) (reg_registry_anchor r1)"
    and "same_owner r1 r2 \<and> anchor_advances (reg_registry_anchor r1) (reg_registry_anchor r2)"
  shows "same_owner r r2 \<and> anchor_advances (reg_registry_anchor r) (reg_registry_anchor r2)"
  using assms by (auto simp: same_owner_def anchor_advances_def eq_ignore_ascii_case_def split: option.splits)

lemma payload_registrations:
  assumes "apply_payload X m st = (Ok (), st')" and "\<And>r. m \<noteq> MsgMinerRegistration r"
  shows "st_registrations st' = st_registrations st"
proof (cases "is_tree_message m")
  case True
  then show ?thesis using assms(1)
    by (cases m) (auto simp: res_simps outside_tree_def dest!: apply_share_outside checkpoint_outside)
next
  case False
  then show ?thesis using assms
    by (cases m) (auto simp: apply_bitcoin_work_template_def apply_snapshot_vote_def apply_payout_schedule_proposal_def
      apply_withdrawal_request_def apply_withdrawal_batch_def res_simps Let_def split: option.splits if_splits)
qed

lemma registration_Ok:
  assumes "apply_registration X r st = (Ok (), st')"
  shows "st' = st \<or> (\<exists>k. st_registrations st' = bt_insert k (stored_registration r) (st_registrations st) \<and>
    (\<forall>old. bt_get (st_registrations st) k = Some old \<longrightarrow> is_valid_registry_registration_upgrade old (stored_registration r)))"
  using assms
  by (auto simp: apply_registration_def res_simps Let_def split: option.splits if_splits)

interpretation registration_kept: replay_kept X
  "\<lambda>st. \<exists>r'. bt_get (st_registrations st) m = Some r' \<and> same_owner r r' \<and>
     anchor_advances (reg_registry_anchor r) (reg_registry_anchor r')" for X m r
proof unfold_locales
  fix st msg st'
  assume c: "\<exists>r'. bt_get (st_registrations st) m = Some r' \<and> same_owner r r' \<and>
      anchor_advances (reg_registry_anchor r) (reg_registry_anchor r')"
    and a: "apply_payload X msg st = (Ok (), st')"
  show "\<exists>r'. bt_get (st_registrations st') m = Some r' \<and> same_owner r r' \<and>
      anchor_advances (reg_registry_anchor r) (reg_registry_anchor r')"
  proof (cases "\<exists>q. msg = MsgMinerRegistration q")
    case False
    then show ?thesis using c payload_registrations [OF a] by auto
  next
    case True
    then obtain q where "apply_registration X q st = (Ok (), st')" using a by auto
    from registration_Ok [OF this] show ?thesis
    proof (elim disjE exE conjE)
      fix k assume k: "st_registrations st' = bt_insert k (stored_registration q) (st_registrations st)"
        and u: "\<forall>old. bt_get (st_registrations st) k = Some old \<longrightarrow> is_valid_registry_registration_upgrade old (stored_registration q)"
      show ?thesis
      proof (cases "m = k")
        case True
        then show ?thesis using c k u upgrade_keeps keeps_registration_trans by (metis bt_get_simps(2))
      next
        case False
        then show ?thesis using c k by simp
      qed
    qed (use c in simp)
  qed
qed (auto simp: insert_accepted_prefix_def Let_def record_message_def split: option.splits if_splits)

text \<open>
  C18: A registration is never taken over: once a miner is registered, every later state has a
  registration of that miner with the same Idena address, payout script, claim owner and mining
  key; a registry anchor stays in its contract and experiment and its sequence number never
  decreases.
\<close>

theorem registration_stable:
  assumes "bt_get (st_registrations st) m = Some r" and "(replay_step X)\<^sup>*\<^sup>* st st'"
  shows "\<exists>r'. bt_get (st_registrations st') m = Some r' \<and> same_owner r r' \<and>
    anchor_advances (reg_registry_anchor r) (reg_registry_anchor r')"
proof (rule registration_kept.inv_run [OF assms(2)])
  show "\<exists>r'. bt_get (st_registrations st) m = Some r' \<and> same_owner r r' \<and>
      anchor_advances (reg_registry_anchor r) (reg_registry_anchor r')"
    using assms(1) by (simp add: same_owner_def anchor_advances_def split: option.splits)
qed

section \<open>Evaluation\<close>

lemma run4_chain: "parent_chain (st_shares run4) [digits CHR ''4'' 64]"
  "st_best_share_tip run4 = Some (digits CHR ''4'' 64)" "st_sharechain_checkpoints run4 = bt_empty"
  by (simp_all add: run4_def run3_def run2_def run1_def record_message_def default_state_def)

lemma run4_ledger: "replay_step digit_hash run4 (replace_claim_ledger credited_ledger run4)"
  "replay_step digit_hash run5 (replace_claim_ledger credited_ledger run5)"
  by (rule new_ledger)+

theorem active_branch_accounting_witness:
  "\<exists>hs. parent_chain (st_shares run5) hs \<and> hd hs = digits CHR ''4'' 64 \<and> st_active_share_hashes run5 = bs_collect hs \<and>
    unat (st_active_share_score_total run5) = chain_weight (st_shares run5) hs"
proof -
  have "st_best_share_tip run5 = Some (digits CHR ''4'' 64)"
    using run4_chain by (simp add: run5_def record_message_def)
  from active_branch_accounting [OF sample_run(3) digit_hash_no_zero this] show ?thesis by blast
qed

theorem fork_choice_witness:
  "\<exists>ts. parent_chain (st_shares run4) ts \<and> st_best_share_tip run4 = Some (hd ts) \<and>
    (chain_weight (st_shares run4) [digits CHR ''4'' 64] < chain_weight (st_shares run4) ts \<or>
     chain_weight (st_shares run4) [digits CHR ''4'' 64] = chain_weight (st_shares run4) ts \<and> hd ts \<le> digits CHR ''4'' 64)"
  using fork_choice [OF sample_run(2) digit_hash_no_zero run4_chain(3,1)] by simp

theorem share_resolves_witness:
  "\<exists>node. bt_get (st_shares run4) (digits CHR ''4'' 64) = Some node \<and> nd_cumulative_score node \<noteq> None"
proof -
  obtain node where n: "bt_get (st_shares run4) (digits CHR ''4'' 64) = Some node" using run4_chain(1) by auto
  have c: "\<exists>hs. parent_chain (st_shares run4) hs \<and> hd hs = digits CHR ''4'' 64"
    by (rule exI, rule conjI, rule run4_chain(1)) simp
  have "nd_cumulative_score node \<noteq> None"
  proof
    assume none: "nd_cumulative_score node = None"
    show False using share_resolves [OF sample_run(2) digit_hash_no_zero n] c unfolding none option.case by contradiction
  qed
  then show ?thesis using n by blast
qed

theorem replay_converges_witness:
  "st_best_share_tip (replace_claim_ledger credited_ledger run4) = st_best_share_tip run4 \<and>
    st_hashrate_scores (replace_claim_ledger credited_ledger run4) = st_hashrate_scores run4"
  using replay_converges [OF replay_reachable.step [OF sample_run(2) run4_ledger(1)] sample_run(2) digit_hash_no_zero]
    run4_chain(3) by (simp add: replace_claim_ledger_def)

theorem apply_share_returns_witness: "fst (apply_share digit_hash sample_share run5) \<noteq> Panic"
  by (rule apply_share_returns [OF sample_run(3) digit_hash_no_zero])

theorem shares_unique_witness:
  "card (to_ascii_lowercase ` {h \<in> set (bt_keys (st_shares run5)).
      nd_parent_share_hash (the (bt_get (st_shares run5) h)) = ZERO_SHARE_PARENT_HASH}) \<le> 1"
  using shares_unique [OF sample_run(3) digit_hash_no_zero] by simp

theorem message_applied_once_witness:
  "apply_message digit_hash (MsgMinerRegistration (sample_registration\<lparr>reg_miner_id := ''M1''\<rparr>)) run2 = (Ok DuplicateIgnored, run2)"
proof (rule message_applied_once [OF step1])
  show "(replay_step digit_hash)\<^sup>*\<^sup>* run1 run2" using accept_template [OF step2] by blast
  have "to_ascii_lowercase ''M1'' = ''m1''" by code_simp
  then show "normalized_message (MsgMinerRegistration (sample_registration\<lparr>reg_miner_id := ''M1''\<rparr>)) =
      normalized_message (MsgMinerRegistration sample_registration)"
    by (simp add: normalized_registration_def sample_registration_def)
qed

theorem checkpoint_finality_witness:
  "bt_get (st_sharechain_checkpoints (replace_claim_ledger credited_ledger run5)) 1 = Some first_checkpoint \<and>
    (\<exists>hs. hd hs = digits CHR ''4'' 64 \<and> parent_chain (st_shares (replace_claim_ledger credited_ledger run5)) hs \<and>
      set hs \<subseteq> set (bt_keys (st_active_share_hashes (replace_claim_ledger credited_ledger run5))))"
proof -
  have "bt_get (st_sharechain_checkpoints run5) 1 = Some first_checkpoint"
    "cp_share_tip_hash first_checkpoint = digits CHR ''4'' 64"
    by (simp_all add: run5_def record_message_def first_checkpoint_def)
  from checkpoint_finality [OF sample_run(3) digit_hash_no_zero this(1) r_into_rtranclp [of "replay_step digit_hash", OF run4_ledger(2)]] this(2)
  show ?thesis by auto
qed

theorem registration_stable_witness:
  "\<exists>r'. bt_get (st_registrations run2) ''m1'' = Some r' \<and> same_owner sample_registration r' \<and>
    anchor_advances (reg_registry_anchor sample_registration) (reg_registry_anchor r')"
proof (rule registration_stable)
  show "bt_get (st_registrations run1) ''m1'' = Some sample_registration" by (simp add: run1_def record_message_def)
  show "(replay_step digit_hash)\<^sup>*\<^sup>* run1 run2" using accept_template [OF step2] by blast
qed

theorem message_conserves_claims_witness:
  "claims (st_claim_ledger run4) + pending (st_claim_ledger run4) = claims (st_claim_ledger run3) + pending (st_claim_ledger run3)"
  by (rule message_conserves_claims [OF step4])

definition paying_state :: SharechainReplayState where
  "paying_state = default_state\<lparr>st_claim_ledger := credited_ledger,
     st_withdrawal_requests := bt_insert ''r1'' (normalized_request (sample_request ''r1'' P2tr)) bt_empty\<rparr>"

definition single_batch :: WithdrawalBatch where
  "single_batch = \<lparr>wb_inputs = 1, wb_fee_rate_sat_vb = 3, wb_estimated_vsize = 111, wb_total_fee_sats = 333,
     wb_outputs = [\<lparr>wo_request_id = ''r1'', wo_destination_script_hex = replicate 68 CHR ''a'', wo_output_kind = P2tr,
       wo_gross_amount_sats = 20000, wo_fee_sats = 333, wo_net_amount_sats = 19667\<rparr>]\<rparr>"

theorem withdrawal_batch_reserves_witness:
  "claims (st_claim_ledger (snd (apply_message identity_hash (MsgWithdrawalBatch single_batch) paying_state))) + 20000 =
    claims (st_claim_ledger paying_state)"
proof -
  have "fst (apply_message identity_hash (MsgWithdrawalBatch single_batch) paying_state) = Ok Applied" by code_simp
  then have a: "apply_message identity_hash (MsgWithdrawalBatch single_batch) paying_state =
      (Ok Applied, snd (apply_message identity_hash (MsgWithdrawalBatch single_batch) paying_state))"
    by (simp add: prod_eq_iff)
  have "nsum (map wo_gross_amount_sats (wb_outputs (normalized_batch single_batch))) = 20000"
    by (simp add: single_batch_def normalized_batch_def normalized_output_def Let_def)
  moreover have "bt_get (st_withdrawal_batches paying_state) h = None" for h by (simp add: paying_state_def default_state_def)
  ultimately show ?thesis using withdrawal_batch_reserves [OF a] by simp
qed

definition registered_as :: "ParticipantAccount \<Rightarrow> MinerRegistration" where
  "registered_as a = sample_registration\<lparr>reg_miner_id := to_ascii_lowercase (acc_miner_id a),
     reg_btc_payout_script_hex := acc_btc_payout_script_hex a, reg_claim_owner_pubkey_hex := to_ascii_lowercase (acc_claim_owner_id a)\<rparr>"

definition registered_state :: SharechainReplayState where
  "registered_state = default_state\<lparr>st_registrations :=
     fold (\<lambda>a. bt_insert (to_ascii_lowercase (acc_miner_id a)) (registered_as a)) three_accounts bt_empty\<rparr>"

theorem confirmed_payout_distributes_witness:
  "nsum (map dp_amount_sats (ps_direct_outputs three_schedule)) +
    claims (st_claim_ledger (snd (apply_confirmed_payout_schedule identity_hash three_schedule three_accounts 9 1 1 registered_state))) =
    claims (st_claim_ledger registered_state) + 9"
proof -
  have "fst (apply_confirmed_payout_schedule identity_hash three_schedule three_accounts 9 1 1 registered_state) = Ok ()"
    by code_simp
  then have "apply_confirmed_payout_schedule identity_hash three_schedule three_accounts 9 1 1 registered_state =
      (Ok (), snd (apply_confirmed_payout_schedule identity_hash three_schedule three_accounts 9 1 1 registered_state))"
    by (simp add: prod_eq_iff)
  from confirmed_payout_distributes [OF this] show ?thesis by simp
qed

section \<open>Deviations\<close>

text \<open>
  A template that conflicts with a stored one of the same hash is rejected, but it has replaced the
  stored one by then: the insertion comes before the comparison.
\<close>

lemma conflicting_template_replaces:
  assumes "check_template X t st = Ok ()"
    and "bt_get (st_bitcoin_work_templates st) (to_ascii_lowercase (bt_template_hash t)) = Some old" "old \<noteq> normalized_template t"
  shows "fst (apply_bitcoin_work_template X t st) = Err (ConflictingBitcoinWorkTemplate (to_ascii_lowercase (bt_template_hash t)))"
    "bt_get (st_bitcoin_work_templates (snd (apply_bitcoin_work_template X t st))) (to_ascii_lowercase (bt_template_hash t))
      = Some (normalized_template t)"
  using assms by (simp_all add: apply_bitcoin_work_template_def bindA_def readA_def Let_def)

text \<open>
  The replay validates withdrawal requests at height zero: a request that it stores is one that
  validation at any height past the expiry the request carries rejects, so expiry is never enforced.
\<close>

lemma expired_request_stored:
  assumes "apply_withdrawal_request X request st = (Ok (), st')" and "wr_expiry_height (normalized_request request) < height"
  shows "bt_get (st_withdrawal_requests st') (wr_request_id (normalized_request request)) = Some (normalized_request request)"
    "validate_request X request height = Err (Expired (wr_request_id (normalized_request request))
      (wr_expiry_height (normalized_request request)) height)"
proof -
  show "bt_get (st_withdrawal_requests st') (wr_request_id (normalized_request request)) = Some (normalized_request request)"
    using assms(1) by (auto simp: apply_withdrawal_request_def res_simps Let_def split: option.splits if_splits)
  have "validate_request X request 0 = Ok ()"
    using assms(1) by (auto simp: apply_withdrawal_request_def check_withdrawal_request_def res_simps Let_def split: if_splits)
  then show "validate_request X request height = Err (Expired (wr_request_id (normalized_request request))
      (wr_expiry_height (normalized_request request)) height)"
    using assms(2) by (auto simp: validate_request_def Let_def res_simps split: if_splits)
qed

end
