(* ===== verification/MerkleProof.thy ===== *)
theory MerkleProof
  imports Extern
begin

text \<open>
  Merkle trees with an odd last node paired with itself, and their inclusion proofs. \<open>governance-core\<close>
  contains the algorithm three times (identity metrics in \<open>metrics.rs\<close>, CID and attestation commitments
  in \<open>lifecycle.rs\<close>) with different node hashes; it is defined here once, over the node hash.
\<close>

section \<open>Trees and proofs\<close>

text \<open>One level of the tree: \<open>chunks(2)\<close>, a missing right element replaced by the left one.\<close>

fun pair_level :: "('h \<Rightarrow> 'h \<Rightarrow> 'h) \<Rightarrow> 'h list \<Rightarrow> 'h list" where
  "pair_level node [] = []"
| "pair_level node [a] = [node a a]"
| "pair_level node (a # b # hs) = node a b # pair_level node hs"

lemma length_pair_level [simp]: "length (pair_level node hs) = (length hs + 1) div 2"
  by (induction node hs rule: pair_level.induct) simp_all

function tree_root :: "('h \<Rightarrow> 'h \<Rightarrow> 'h) \<Rightarrow> 'h list \<Rightarrow> 'h" where
  "tree_root node level = (if length level > 1 then tree_root node (pair_level node level) else level ! 0)"
  by pat_completeness auto
termination
  by (relation "measure (\<lambda>(node, level). length level)") auto

declare tree_root.simps [simp del]

function tree_siblings :: "('h \<Rightarrow> 'h \<Rightarrow> 'h) \<Rightarrow> 'h list \<Rightarrow> nat \<Rightarrow> 'h list" where
  "tree_siblings node level index =
     (if length level > 1 then
        (if index mod 2 = 0 then (if index + 1 < length level then level ! (index + 1) else level ! index)
         else level ! (index - 1)) # tree_siblings node (pair_level node level) (index div 2)
      else [])"
  by pat_completeness auto
termination
  by (relation "measure (\<lambda>(node, level, index). length level)") auto

declare tree_siblings.simps [simp del]

function proof_levels :: "u64 \<Rightarrow> nat" where
  "proof_levels n = (if n > 1 then Suc (proof_levels (div_ceil n 2)) else 0)"
  by pat_completeness auto
termination
proof (relation "measure unat", simp)
  fix n :: u64 assume "1 < n"
  then have "1 < unat n" by (simp add: word_less_nat_alt)
  then show "(div_ceil n 2, n) \<in> measure unat" by (simp add: unat_div_ceil_2)
qed

declare proof_levels.simps [simp del]

text \<open>The loop that recomputes the root from a leaf hash; every decoding or shape error ends it.\<close>

fun climb :: "('h \<Rightarrow> 'h \<Rightarrow> 'h) \<Rightarrow> (string \<Rightarrow> 'h option) \<Rightarrow> 'h \<Rightarrow> u64 \<Rightarrow> u64 \<Rightarrow> string list \<Rightarrow> 'h option" where
  "climb node decode current index n [] = Some current"
| "climb node decode current index n (s # siblings) = (case decode s of
     None \<Rightarrow> None
   | Some sibling \<Rightarrow>
       if index mod 2 = 0 then
         if index + 1 \<ge> n \<and> sibling \<noteq> current then None
         else climb node decode (node current sibling) (index div 2) (div_ceil n 2) siblings
       else climb node decode (node sibling current) (index div 2) (div_ceil n 2) siblings)"

section \<open>Proofs of built trees verify\<close>

lemma pair_level_nth:
  "k < length (pair_level node hs) \<Longrightarrow>
    pair_level node hs ! k = node (hs ! (2 * k)) (if 2 * k + 1 < length hs then hs ! (2 * k + 1) else hs ! (2 * k))"
proof (induction node hs arbitrary: k rule: pair_level.induct)
  case (3 node a b hs)
  then show ?case by (cases k) auto
qed simp_all

lemma pair_level_pred:
  assumes "\<And>a b. P (node a b)" and "h \<in> set (pair_level node hs)"
  shows "P h"
  using assms by (induction node hs rule: pair_level.induct) auto

lemma half_word:
  fixes i n :: u64
  shows "unat (i div 2) = unat i div 2" and "i mod 2 = 0 \<longleftrightarrow> unat i mod 2 = 0"
proof -
  have two: "unat (2 :: u64) = 2" by simp
  show "unat (i div 2) = unat i div 2" by (simp only: unat_div two)
  show "i mod 2 = 0 \<longleftrightarrow> unat i mod 2 = 0" by (metis unat_mod two unat_zero_iff)
qed

lemma next_word:
  fixes i n :: u64
  assumes "unat i < unat n"
  shows "n \<le> i + 1 \<longleftrightarrow> unat n \<le> unat i + 1"
proof -
  have "unat (i + 1) = unat i + 1"
    using assms unat_bound64 [of n] unat_add_exact [of i 1] by simp
  then show ?thesis by (simp add: word_le_nat_alt)
qed

lemma siblings_levels:
  "length hs = unat n \<Longrightarrow> length (tree_siblings node hs i) = proof_levels n"
proof (induction node hs i arbitrary: n rule: tree_siblings.induct)
  case (1 node level index)
  show ?case
  proof (cases "1 < length level")
    case True
    have "length (pair_level node level) = unat (div_ceil n 2)" using "1.prems" by (simp add: unat_div_ceil_2)
    moreover have "1 < n" using True "1.prems" by (simp add: word_less_nat_alt)
    ultimately show ?thesis
      using "1.IH" [OF True] True by (simp add: tree_siblings.simps [of node level] proof_levels.simps [of n])
  next
    case False
    then have "\<not> 1 < n" using "1.prems" by (simp add: word_less_nat_alt)
    then show ?thesis using False by (simp add: tree_siblings.simps proof_levels.simps)
  qed
qed

lemma climb_complete:
  assumes "\<And>h. D h \<Longrightarrow> decode (encode h) = Some h" and "\<And>a b. D (node a b)"
    and "\<forall>h \<in> set hs. D h" and "length hs = unat n" and "unat i < length hs"
  shows "climb node decode (hs ! unat i) i n (map encode (tree_siblings node hs (unat i))) = Some (tree_root node hs)"
  using assms(2-)
proof (induction node hs arbitrary: i n rule: tree_root.induct)
  case (1 node level)
  show ?case
  proof (cases "1 < length level")
    case False
    then have "unat i = 0" using "1.prems"(4) by linarith
    then show ?thesis using False by (simp add: tree_siblings.simps tree_root.simps)
  next
    case True
    let ?k = "unat (i div 2)" and ?m = "pair_level node level"
    have len: "length ?m = unat (div_ceil n 2)" using "1.prems" by (simp add: unat_div_ceil_2)
    have k: "?k < length ?m" "?k = unat i div 2" using "1.prems"(4) half_word(1) [of i] by auto
    have IH: "climb node decode (?m ! ?k) (i div 2) (div_ceil n 2) (map encode (tree_siblings node ?m ?k)) = Some (tree_root node ?m)"
      using "1.IH" [OF True "1.prems"(1) _ len k(1)] pair_level_pred [of D node] "1.prems"(1) by blast
    have D: "j < length level \<Longrightarrow> decode (encode (level ! j)) = Some (level ! j)" for j using "1.prems"(2) assms(1) by simp
    have nth: "?m ! ?k = node (level ! (2 * ?k)) (if 2 * ?k + 1 < length level then level ! (2 * ?k + 1) else level ! (2 * ?k))"
      by (rule pair_level_nth [OF k(1)])
    have r: "tree_root node level = tree_root node ?m" using True by (simp add: tree_root.simps [of node level])
    show ?thesis
    proof (cases "unat i mod 2 = 0")
      case even: True
      then have "2 * ?k = unat i" using k(2) by presburger
      then show ?thesis
        using IH nth r even True D [of "unat i"] D [of "unat i + 1"] "1.prems" next_word [of i n] half_word [of i] k(2)
        by (auto simp: tree_siblings.simps [of node level])
    next
      case odd: False
      then have "2 * ?k = unat i - 1" "2 * ?k + 1 = unat i" using k(2) by presburger+
      then show ?thesis
        using IH nth r odd True D [of "unat i - 1"] "1.prems" half_word [of i] k(2)
        by (auto simp: tree_siblings.simps [of node level])
    qed
  qed
qed

section \<open>Proofs bind the leaf\<close>

text \<open>The node inputs a proof and a tree hash on the way to the root.\<close>

fun climb_pairs :: "('h \<Rightarrow> 'h \<Rightarrow> 'h) \<Rightarrow> (string \<Rightarrow> 'h option) \<Rightarrow> 'h \<Rightarrow> u64 \<Rightarrow> string list \<Rightarrow> ('h \<times> 'h) list" where
  "climb_pairs node decode current index [] = []"
| "climb_pairs node decode current index (s # siblings) = (case decode s of
     None \<Rightarrow> []
   | Some sibling \<Rightarrow> (let p = (if index mod 2 = 0 then (current, sibling) else (sibling, current)) in
       p # climb_pairs node decode (node (fst p) (snd p)) (index div 2) siblings))"

fun level_pairs :: "'h list \<Rightarrow> ('h \<times> 'h) list" where
  "level_pairs [] = []"
| "level_pairs [a] = [(a, a)]"
| "level_pairs (a # b # hs) = (a, b) # level_pairs hs"

function tree_pairs :: "('h \<Rightarrow> 'h \<Rightarrow> 'h) \<Rightarrow> 'h list \<Rightarrow> ('h \<times> 'h) list" where
  "tree_pairs node level = (if length level > 1 then level_pairs level @ tree_pairs node (pair_level node level) else [])"
  by pat_completeness auto
termination
  by (relation "measure (\<lambda>(node, level). length level)") auto

declare tree_pairs.simps [simp del]

lemma level_pairs_nth:
  "2 * k < length hs \<Longrightarrow> (hs ! (2 * k), if 2 * k + 1 < length hs then hs ! (2 * k + 1) else hs ! (2 * k)) \<in> set (level_pairs hs)"
proof (induction hs arbitrary: k rule: level_pairs.induct)
  case (3 a b hs)
  show ?case
  proof (cases k)
    case (Suc j)
    then show ?thesis using "3.IH" [of j] "3.prems" by (cases "2 * j + 1 < length hs") auto
  qed simp
qed simp_all

lemma climb_sound:
  assumes "climb node decode current i n siblings = Some (tree_root node hs)"
    and "length hs = unat n" and "unat i < length hs" and "length siblings = proof_levels n"
    and "\<And>p q. p \<in> set (climb_pairs node decode current i siblings) \<Longrightarrow> q \<in> set (tree_pairs node hs) \<Longrightarrow>
      node (fst p) (snd p) = node (fst q) (snd q) \<Longrightarrow> p = q"
  shows "current = hs ! unat i"
  using assms
proof (induction node hs arbitrary: current i n siblings rule: tree_root.induct)
  case (1 node level)
  show ?case
  proof (cases "1 < length level")
    case False
    then have "\<not> 1 < n" using "1.prems"(2) by (simp add: word_less_nat_alt)
    have "unat i = 0" using False "1.prems"(3) by linarith
    have "siblings = []" using "1.prems"(4) \<open>\<not> 1 < n\<close> by (simp add: proof_levels.simps)
    then show ?thesis using "1.prems"(1) False \<open>unat i = 0\<close> by (simp add: tree_root.simps)
  next
    case True
    let ?k = "unat (i div 2)" and ?m = "pair_level node level"
    have "1 < n" using True "1.prems"(2) by (simp add: word_less_nat_alt)
    then obtain s ss where ss: "siblings = s # ss" "length ss = proof_levels (div_ceil n 2)"
      using "1.prems"(4) by (cases siblings) (simp_all add: proof_levels.simps [of n])
    obtain sib where sib: "decode s = Some sib" using "1.prems"(1) ss by (auto split: option.splits)
    define p where "p = (if i mod 2 = 0 then (current, sib) else (sib, current))"
    have step: "climb node decode (node (fst p) (snd p)) (i div 2) (div_ceil n 2) ss = Some (tree_root node level)"
      and pairs: "climb_pairs node decode current i siblings = p # climb_pairs node decode (node (fst p) (snd p)) (i div 2) ss"
      using "1.prems"(1) ss sib by (auto simp: p_def Let_def split: if_splits)
    have len: "length ?m = unat (div_ceil n 2)" using "1.prems"(2) by (simp add: unat_div_ceil_2)
    have k: "?k < length ?m" "?k = unat i div 2" using "1.prems"(3) half_word(1) [of i] by auto
    have tp: "tree_pairs node level = level_pairs level @ tree_pairs node ?m" using True by (simp add: tree_pairs.simps)
    have r: "tree_root node level = tree_root node ?m" using True by (simp add: tree_root.simps [of node level])
    have "node (fst p) (snd p) = ?m ! ?k"
      using "1.IH" [OF True _ len k(1) ss(2)] step r "1.prems"(5) pairs tp by fastforce
    moreover define q where "q = (level ! (2 * ?k), if 2 * ?k + 1 < length level then level ! (2 * ?k + 1) else level ! (2 * ?k))"
    ultimately have "node (fst p) (snd p) = node (fst q) (snd q)" using pair_level_nth [OF k(1)] by (simp add: q_def)
    moreover have "q \<in> set (level_pairs level)" unfolding q_def by (rule level_pairs_nth) (use k "1.prems"(3) in auto)
    ultimately have "p = q" using "1.prems"(5) pairs tp by auto
    moreover have "unat i mod 2 = 0 \<and> 2 * ?k = unat i \<or> unat i mod 2 \<noteq> 0 \<and> 2 * ?k + 1 = unat i" using k(2) by presburger
    ultimately show ?thesis using half_word(2) [of i] "1.prems"(3) by (auto simp: p_def q_def split: if_splits)
  qed
qed

lemma level_pairs_pred: "\<forall>h \<in> set hs. P h \<Longrightarrow> q \<in> set (level_pairs hs) \<Longrightarrow> P (fst q)"
  by (induction hs rule: level_pairs.induct) auto

lemma tree_pairs_pred:
  assumes "\<And>a b. P (node a b)" and "\<forall>h \<in> set hs. P h" and "q \<in> set (tree_pairs node hs)"
  shows "P (fst q)"
  using assms
proof (induction node hs rule: tree_pairs.induct)
  case (1 node level)
  have "P (fst q)" if "q \<in> set (tree_pairs node (pair_level node level))" "1 < length level"
    using "1.IH" "1.prems"(1) that pair_level_pred [of P node] by blast
  then show ?case
    using "1.prems"(2,3) level_pairs_pred [of level P q] by (subst (asm) tree_pairs.simps) (auto split: if_splits)
qed

lemma climb_pairs_pred:
  assumes "\<And>a b. P (node a b)" and "\<And>s h. decode s = Some h \<Longrightarrow> P h"
    and "P current" and "q \<in> set (climb_pairs node decode current i siblings)"
  shows "P (fst q)"
  using assms(3,4)
proof (induction siblings arbitrary: current i)
  case (Cons s siblings)
  obtain sib where sib: "decode s = Some sib" using Cons.prems(2) by (cases "decode s") auto
  define p where "p = (if i mod 2 = 0 then (current, sib) else (sib, current))"
  have "q = p \<or> q \<in> set (climb_pairs node decode (node (fst p) (snd p)) (i div 2) siblings)"
    using Cons.prems(2) by (simp only: climb_pairs.simps sib option.case Let_def p_def) simp
  moreover have "P (fst p)" using assms(2) [OF sib] Cons.prems(1) by (simp add: p_def)
  ultimately show ?case using Cons.IH [OF assms(1)] by blast
qed simp

text \<open>The tree over three hashes and the proof for the last of them.\<close>

lemma three_leaf_tree:
  assumes "decode (encode c) = Some c" and "decode (encode (node a b)) = Some (node a b)"
  shows "tree_root node [a, b, c] = node (node a b) (node c c)"
    "tree_pairs node [a, b, c] = [(a, b), (c, c), (node a b, node c c)]"
    "tree_siblings node [a, b, c] 2 = [c, node a b]"
    "climb_pairs node decode c 2 [encode c, encode (node a b)] = [(c, c), (node a b, node c c)]"
    "climb node decode c 2 3 [encode c, encode (node a b)] = Some (node (node a b) (node c c))"
  using assms by (simp_all add: tree_root.simps tree_pairs.simps tree_siblings.simps div_ceil_def)

end
