(* ===== verification/GovMath.thy ===== *)
theory GovMath
  imports Ascii
begin

text \<open>
  \<open>governance-core\<close>: vote weights (\<open>math.rs\<close>), identity status and flip trust (\<open>identity.rs\<close>), the
  governance parameters (\<open>types.rs\<close>) and the acceptance gates (\<open>gates.rs\<close>).
\<close>

section \<open>Vote weight\<close>

definition IDNA_ATOMS_PER_UNIT :: u128 where
  "IDNA_ATOMS_PER_UNIT = 1000000000000000000"

definition STAKE_QUANTUM_ATOMS :: u128 where
  "STAKE_QUANTUM_ATOMS = 1000000000000"

definition BASIS_POINTS_SQUARED :: u128 where
  "BASIS_POINTS_SQUARED = 100000000"

datatype MathError = InvalidBasisPoints | MathOverflow

text \<open>\<open>u128::leading_zeros\<close>.\<close>

definition leading_zeros :: "u128 \<Rightarrow> nat" where
  "leading_zeros w = length (takeWhile (\<lambda>i. \<not> bit w i) (rev [0..<128]))"

text \<open>The bisection of \<open>integer_sqrt\<close>.\<close>

lemma bisect_middle:
  fixes low high :: "'w::len word"
  assumes "low < high" and "2 < LENGTH('w)"
  shows "unat (low + div_ceil (high - low) 2) = unat low + (unat high - unat low + 1) div 2"
    and "low < low + div_ceil (high - low) 2" and "low + div_ceil (high - low) 2 \<le> high"
    and "unat (low + div_ceil (high - low) 2 - 1) = unat low + (unat high - unat low + 1) div 2 - 1"
proof -
  define d where "d = unat high - unat low"
  have d: "unat (high - low) = d" "0 < d" "unat low + d = unat high"
    using assms(1) unat_sub_exact [OF less_imp_le [OF assms(1)]] by (simp_all add: d_def word_less_nat_alt)
  have b: "d < 2 ^ LENGTH('w)" "unat high < 2 ^ LENGTH('w)" using unat_bound [of high] d by linarith+
  have c: "unat (div_ceil (high - low) 2) = (d + 1) div 2" using unat_div_ceil_2 [OF assms(2)] d(1) by simp
  have le: "(d + 1) div 2 \<le> d" "0 < (d + 1) div 2" using d(2) by presburger+
  have "unat low + (d + 1) div 2 < 2 ^ LENGTH('w)" using le(1) d(3) b(2) by linarith
  then show m: "unat (low + div_ceil (high - low) 2) = unat low + (unat high - unat low + 1) div 2"
    using unat_add_exact [of low "div_ceil (high - low) 2"] c le d b by (simp add: d_def [symmetric])
  then show l: "low < low + div_ceil (high - low) 2" and "low + div_ceil (high - low) 2 \<le> high"
    using le d by (simp_all add: word_less_nat_alt word_le_nat_alt d_def [symmetric])
  have "(1 :: 'w word) \<le> low + div_ceil (high - low) 2"
    using m le by (simp add: word_le_nat_alt d_def [symmetric])
  then show "unat (low + div_ceil (high - low) 2 - 1) = unat low + (unat high - unat low + 1) div 2 - 1"
    using unat_sub_exact m by force
qed

function sqrt_loop :: "u128 \<Rightarrow> u128 \<Rightarrow> u128 \<Rightarrow> u128" where
  "sqrt_loop v low high =
     (if low < high then
        let middle = low + div_ceil (high - low) 2
        in if middle \<le> v div middle then sqrt_loop v middle high else sqrt_loop v low (middle - 1)
      else low)"
  by pat_completeness auto
termination
proof (relation "measure (\<lambda>(v, low, high). unat high - unat low)", simp)
  fix v low high middle :: u128
  assume *: "low < high" "middle = low + div_ceil (high - low) 2"
  note m = bisect_middle [OF *(1), simplified]
  show "((v, middle, high), v, low, high) \<in> measure (\<lambda>(v, low, high). unat high - unat low)"
    using m(2,3) * by (simp add: word_less_nat_alt word_le_nat_alt)
  show "((v, low, middle - 1), v, low, high) \<in> measure (\<lambda>(v, low, high). unat high - unat low)"
    using m * by (simp add: word_less_nat_alt word_le_nat_alt) linarith
qed

declare sqrt_loop.simps [simp del]

definition integer_sqrt :: "u128 \<Rightarrow> u128" where
  "integer_sqrt v =
     (if v < 2 then v
      else let bits = 128 - leading_zeros v in sqrt_loop v 1 (push_bit (bits div 2 + bits mod 2) 1))"

lemma leading_zeros_bound: "unat v < 2 ^ (128 - leading_zeros v)"
proof -
  let ?t = "takeWhile (\<lambda>i. \<not> bit v i) (rev [0..<128])"
  have clear: "\<not> bit v i" if "128 - leading_zeros v \<le> i" "i < 128" for i
  proof -
    have j: "127 - i < length ?t" using that by (simp add: leading_zeros_def)
    then have "?t ! (127 - i) = rev [0..<128] ! (127 - i)" by (rule takeWhile_nth)
    also have "\<dots> = i" using that(2) by (simp add: rev_nth)
    finally have "i \<in> set ?t" using j by (metis nth_mem)
    then show ?thesis by (auto dest: set_takeWhileD)
  qed
  have "take_bit (128 - leading_zeros v) v = v"
  proof (rule bit_word_eqI)
    fix i assume "i < LENGTH(128)"
    then show "bit (take_bit (128 - leading_zeros v) v) i = bit v i"
      using clear [of i] by (cases "i < 128 - leading_zeros v") (simp_all add: bit_take_bit_iff)
  qed
  then have "take_bit (128 - leading_zeros v) (unat v) = unat v" by (metis unsigned_take_bit_eq)
  then show ?thesis by (metis take_bit_nat_less_exp)
qed

lemma sqrt_loop_correct:
  assumes "low \<noteq> 0" and "low \<le> high" and "(unat low)\<^sup>2 \<le> unat v" and "unat v < (unat high + 1)\<^sup>2"
  shows "(unat (sqrt_loop v low high))\<^sup>2 \<le> unat v \<and> unat v < (unat (sqrt_loop v low high) + 1)\<^sup>2"
  using assms
proof (induction v low high rule: sqrt_loop.induct)
  case (1 v low high)
  show ?case
  proof (cases "low < high")
    case False
    then show ?thesis using "1.prems" by (simp add: sqrt_loop.simps)
  next
    case True
    define m where "m = low + div_ceil (high - low) 2"
    note mid = bisect_middle [OF True, simplified, folded m_def]
    have "m \<noteq> 0" using mid(2) by auto
    have sq: "m \<le> v div m \<longleftrightarrow> (unat m)\<^sup>2 \<le> unat v"
      using \<open>m \<noteq> 0\<close> by (simp add: word_le_nat_alt unat_div less_eq_div_iff_mult_less_eq power2_eq_square)
    have step: "sqrt_loop v low high = (if m \<le> v div m then sqrt_loop v m high else sqrt_loop v low (m - 1))"
      using True by (simp add: sqrt_loop.simps [of v low high] m_def Let_def)
    show ?thesis
    proof (cases "m \<le> v div m")
      case yes: True
      show ?thesis using "1.IH"(1) [OF True m_def yes \<open>m \<noteq> 0\<close> mid(3)] yes sq "1.prems"(4) step by simp
    next
      case no: False
      have m1: "unat (m - 1) + 1 = unat m" using mid(1,4) mid(2) by (simp add: word_less_nat_alt)
      have "low \<le> m - 1" using mid(2) m1 by (simp add: word_less_nat_alt word_le_nat_alt)
      then show ?thesis using "1.IH"(2) [OF True m_def no "1.prems"(1)] no sq m1 "1.prems"(3) step by simp
    qed
  qed
qed

lemma integer_sqrt_floor: "(unat (integer_sqrt v))\<^sup>2 \<le> unat v \<and> unat v < (unat (integer_sqrt v) + 1)\<^sup>2"
proof (cases "v < 2")
  case True
  then have "unat v < 2" by (simp add: word_less_nat_alt)
  then have "unat v = 0 \<or> unat v = 1" by linarith
  then show ?thesis using True by (auto simp: integer_sqrt_def power2_eq_square)
next
  case False
  define b where "b = 128 - leading_zeros v"
  define k where "k = b div 2 + b mod 2"
  have v: "2 \<le> unat v" using False by (simp add: word_less_nat_alt)
  have lz: "unat v < 2 ^ b" "b \<le> 128" using leading_zeros_bound [of v] by (simp_all add: b_def)
  have k: "k \<le> 64" "b \<le> 2 * k" using lz(2) unfolding k_def by presburger+
  have h: "unat (push_bit k 1 :: u128) = 2 ^ k"
  proof -
    have "(2 :: nat) ^ k < 2 ^ 128" using k(1) by (intro power_strict_increasing) simp_all
    then show ?thesis using unat_of_nat_exact [of "2 ^ k", where 'w = 128] by (simp add: push_bit_eq_mult)
  qed
  have "unat v < (2 ^ k + 1)\<^sup>2"
  proof -
    have "unat v < 2 ^ (2 * k)" using less_le_trans [OF lz(1) power_increasing [OF k(2), of "2 :: nat"]] by simp
    also have "\<dots> = (2 ^ k)\<^sup>2" by (simp add: power_mult power2_eq_square mult.commute flip: power_add)
    also have "\<dots> \<le> (2 ^ k + 1)\<^sup>2" by (simp add: power_mono)
    finally show ?thesis .
  qed
  moreover have "(1 :: u128) \<le> push_bit k 1" using h by (simp add: word_le_nat_alt)
  ultimately have "(unat (sqrt_loop v 1 (push_bit k 1)))\<^sup>2 \<le> unat v \<and> unat v < (unat (sqrt_loop v 1 (push_bit k 1)) + 1)\<^sup>2"
    using v h by (intro sqrt_loop_correct) (simp_all)
  then show ?thesis using False by (simp add: integer_sqrt_def b_def [symmetric] k_def [symmetric])
qed

definition stake_score :: "u128 \<Rightarrow> u128" where
  "stake_score active_stake_atoms = integer_sqrt (active_stake_atoms div STAKE_QUANTUM_ATOMS)"

definition effective_vote_weight :: "u128 \<Rightarrow> u16 \<Rightarrow> u16 \<Rightarrow> (MathError, u128) res" where
  "effective_vote_weight active_stake_atoms identity_status_bps flip_trust_bps =
     (if identity_status_bps > 10000 \<or> flip_trust_bps > 10000 then Err InvalidBasisPoints
      else bindR (ok_or MathOverflow
        (case checked_mul (stake_score active_stake_atoms) (ucast identity_status_bps) of
           None \<Rightarrow> None
         | Some value \<Rightarrow> checked_mul value (ucast flip_trust_bps))) (\<lambda>weighted.
      Ok (weighted div BASIS_POINTS_SQUARED)))"

section \<open>Identity status\<close>

definition PRIOR_REPORTED :: u128 where
  "PRIOR_REPORTED = 1"

definition PRIOR_TOTAL :: u128 where
  "PRIOR_TOTAL = 20"

definition FLIP_TRUST_MIN_BPS :: u16 where
  "FLIP_TRUST_MIN_BPS = 4000"

definition FLIP_TRUST_MAX_BPS :: u16 where
  "FLIP_TRUST_MAX_BPS = 10000"

definition FLIP_PENALTY_SCALE :: u128 where
  "FLIP_PENALTY_SCALE = 15000"

lemmas flip_constants = PRIOR_REPORTED_def PRIOR_TOTAL_def FLIP_TRUST_MIN_BPS_def FLIP_TRUST_MAX_BPS_def
  FLIP_PENALTY_SCALE_def

datatype IdentityState =
  Human | Verified | Newbie | Candidate | Invite | Suspended | Zombie | Killed | Undefined

fun status_bps :: "IdentityState \<Rightarrow> u16 option" where
  "status_bps Human = Some 10000"
| "status_bps Verified = Some 8500"
| "status_bps Newbie = Some 7000"
| "status_bps _ = None"

fun is_verified_or_human :: "IdentityState \<Rightarrow> bool" where
  "is_verified_or_human Human = True"
| "is_verified_or_human Verified = True"
| "is_verified_or_human _ = False"

datatype MetricsError = ReportedExceedsFinalized

definition clamp :: "'a::linorder \<Rightarrow> 'a \<Rightarrow> 'a \<Rightarrow> 'a" where
  "clamp x lo hi = (if x < lo then lo else if x > hi then hi else x)"

definition flip_trust_bps :: "u64 \<Rightarrow> u64 \<Rightarrow> (MetricsError, u16) res" where
  "flip_trust_bps finalized reported =
     (if reported > finalized then Err ReportedExceedsFinalized
      else let numerator = (ucast reported + PRIOR_REPORTED) * 10000;
               denominator = ucast finalized + PRIOR_TOTAL;
               reported_rate_bps = numerator div denominator;
               penalty = FLIP_PENALTY_SCALE * reported_rate_bps div 10000;
               raw = saturating_sub 10000 penalty
           in Ok (ucast (clamp raw (ucast FLIP_TRUST_MIN_BPS) (ucast FLIP_TRUST_MAX_BPS))))"

section \<open>Governance parameters\<close>

datatype RiskClass = Normal | Critical | Consensus | Migration

definition is_critical :: "RiskClass \<Rightarrow> bool" where
  "is_critical r \<longleftrightarrow> r \<noteq> Normal"

datatype VoteChoice = Yes | No | Abstain

record GateParameterSet =
  gp_turnout_quorum_bps :: u16
  gp_yes_threshold_bps :: u16
  gp_minimum_yes_identities :: u32
  gp_minimum_verified_or_human_yes :: u32
  gp_minimum_agent_attestations :: u32
  gp_minimum_agent_runtime_groups :: u32
  gp_minimum_agent_families :: u32
  gp_minimum_agent_owners :: u32
  gp_critical_finding_owner_threshold :: u32
  gp_minimum_builders :: u32
  gp_minimum_builder_platforms :: u32
  gp_minimum_data_availability_providers :: u32

section \<open>Acceptance gates\<close>

record AcceptanceEvidence =
  ev_yes_weight :: u128
  ev_no_weight :: u128
  ev_abstain_weight :: u128
  ev_total_registered_weight :: u128
  ev_distinct_yes_identities :: u32
  ev_verified_or_human_yes_identities :: u32
  ev_valid_agent_attestations :: u32
  ev_distinct_agent_runtime_groups :: u32
  ev_distinct_agent_families :: u32
  ev_distinct_agent_owner_identities :: u32
  ev_unresolved_critical_findings :: u32
  ev_valid_builders :: u32
  ev_distinct_builder_platforms :: u32
  ev_matching_core_artifact_digests :: bool
  ev_independent_data_availability_providers :: u32

record GateResult =
  ga_passed :: bool
  ga_reason :: string

record GateResults =
  gr_pos :: GateResult
  gr_pohw :: GateResult
  gr_poaw :: GateResult
  gr_verification_work :: GateResult
  gr_data_availability :: GateResult
  gr_accepted :: bool

text \<open>The loop of \<open>ratio_bps\<close>: one unit of the numerator is added ten thousand times, without overflow.\<close>

fun ratio_loop :: "nat \<Rightarrow> u128 \<Rightarrow> u128 \<Rightarrow> u128 \<Rightarrow> u16 \<Rightarrow> u16" where
  "ratio_loop 0 denominator addend remainder fractional = fractional"
| "ratio_loop (Suc n) denominator addend remainder fractional =
     (if addend \<noteq> 0 \<and> remainder \<ge> denominator - addend
      then ratio_loop n denominator addend (remainder - (denominator - addend)) (fractional + 1)
      else ratio_loop n denominator addend (remainder + addend) fractional)"

definition ratio_bps :: "u128 \<Rightarrow> u128 \<Rightarrow> u16" where
  "ratio_bps numerator0 denominator =
     (if denominator = 0 then 0
      else let numerator = min numerator0 denominator;
               whole = numerator div denominator;
               addend = numerator mod denominator;
               fractional = ratio_loop 10000 denominator addend 0 0
           in min (ucast whole * 10000 + fractional) 10000)"

definition gate :: "bool \<Rightarrow> string \<Rightarrow> GateResult" where
  "gate passed reason = \<lparr>ga_passed = passed, ga_reason = reason\<rparr>"

definition overflow_results :: GateResults where
  "overflow_results = (let failed = gate False ''arithmetic overflow in acceptance evidence'' in
     \<lparr>gr_pos = failed, gr_pohw = failed, gr_poaw = failed, gr_verification_work = failed,
      gr_data_availability = failed, gr_accepted = False\<rparr>)"

definition evaluate_gates ::
  "RiskClass \<Rightarrow> GateParameterSet \<Rightarrow> GateParameterSet \<Rightarrow> AcceptanceEvidence \<Rightarrow> GateResults" where
  "evaluate_gates risk normal critical e = (let p = (if is_critical risk then critical else normal) in
     case (case checked_add (ev_yes_weight e) (ev_no_weight e) of
             None \<Rightarrow> None
           | Some value \<Rightarrow> checked_add value (ev_abstain_weight e)) of
       None \<Rightarrow> overflow_results
     | Some turnout \<Rightarrow> (let turnout_bps = ratio_bps turnout (ev_total_registered_weight e) in
         case checked_add (ev_yes_weight e) (ev_no_weight e) of
           None \<Rightarrow> overflow_results
         | Some decisive \<Rightarrow> (let
             approval_bps = ratio_bps (ev_yes_weight e) decisive;
             pos_passed = (turnout_bps \<ge> gp_turnout_quorum_bps p \<and> approval_bps \<ge> gp_yes_threshold_bps p);
             pohw_passed = (ev_distinct_yes_identities e \<ge> gp_minimum_yes_identities p
               \<and> ev_verified_or_human_yes_identities e \<ge> gp_minimum_verified_or_human_yes p);
             poaw_passed = (ev_valid_agent_attestations e \<ge> gp_minimum_agent_attestations p
               \<and> ev_distinct_agent_runtime_groups e \<ge> gp_minimum_agent_runtime_groups p
               \<and> ev_distinct_agent_families e \<ge> gp_minimum_agent_families p
               \<and> ev_distinct_agent_owner_identities e \<ge> gp_minimum_agent_owners p
               \<and> ev_unresolved_critical_findings e < gp_critical_finding_owner_threshold p);
             build_passed = (ev_valid_builders e \<ge> gp_minimum_builders p
               \<and> ev_distinct_builder_platforms e \<ge> gp_minimum_builder_platforms p
               \<and> ev_matching_core_artifact_digests e);
             availability_passed = (ev_independent_data_availability_providers e
               \<ge> gp_minimum_data_availability_providers p)
           in \<lparr>
             gr_pos = gate pos_passed
               (''turnout='' @ show_word turnout_bps @ ''bps approval='' @ show_word approval_bps @ ''bps''),
             gr_pohw = gate pohw_passed
               (''yes-identities='' @ show_word (ev_distinct_yes_identities e) @
                '' verified-or-human='' @ show_word (ev_verified_or_human_yes_identities e)),
             gr_poaw = gate poaw_passed
               (''attestations='' @ show_word (ev_valid_agent_attestations e) @
                '' runtimes='' @ show_word (ev_distinct_agent_runtime_groups e) @
                '' families='' @ show_word (ev_distinct_agent_families e) @
                '' owners='' @ show_word (ev_distinct_agent_owner_identities e) @
                '' unresolved-critical='' @ show_word (ev_unresolved_critical_findings e)),
             gr_verification_work = gate build_passed
               (''builders='' @ show_word (ev_valid_builders e) @
                '' platforms='' @ show_word (ev_distinct_builder_platforms e) @
                '' matching='' @ show_bool (ev_matching_core_artifact_digests e)),
             gr_data_availability = gate availability_passed
               (''providers='' @ show_word (ev_independent_data_availability_providers e)),
             gr_accepted = (pos_passed \<and> pohw_passed \<and> poaw_passed \<and> build_passed \<and> availability_passed)\<rparr>)))"

section \<open>Weights\<close>

lemma unat_widen16: "unat (ucast (w :: u16) :: u128) = unat w"
  using unat_bound [of w] by (simp add: unsigned_ucast_eq take_bit_eq_mod)

text \<open>
  C25: The effective vote weight is the floor of the square root of the stake in quanta, scaled by the
  two basis-point factors and rounded down. The bisection finds the exact root for every 128-bit
  stake, out-of-range factors are rejected, and the overflow error of the code is unreachable.
\<close>

theorem effective_vote_weight_exact:
  "\<exists>root. root\<^sup>2 \<le> unat stake div 10 ^ 12 \<and> unat stake div 10 ^ 12 < (root + 1)\<^sup>2 \<and>
    effective_vote_weight stake status trust =
      (if 10000 < unat status \<or> 10000 < unat trust then Err InvalidBasisPoints
       else Ok (of_nat (root * unat status * unat trust div 10 ^ 8))) \<and>
    root < 2 ^ 45"
proof -
  define q where "q = stake div STAKE_QUANTUM_ATOMS"
  define r where "r = unat (stake_score stake)"
  have q: "unat q = unat stake div 10 ^ 12" by (simp add: q_def STAKE_QUANTUM_ATOMS_def unat_div)
  have r: "r\<^sup>2 \<le> unat q" "unat q < (r + 1)\<^sup>2"
    using integer_sqrt_floor [of q] by (simp_all add: r_def stake_score_def q_def)
  have "unat q < 2 ^ 90"
    using unat_bound128 [of stake] q by simp
  then have "r\<^sup>2 < (2 ^ 45)\<^sup>2" using r(1) by simp
  then have small: "r < 2 ^ 45" by (rule power2_less_imp_less) simp
  have w: "effective_vote_weight stake status trust = Ok (of_nat (r * unat status * unat trust div 10 ^ 8))"
    if b: "unat status \<le> 10000" "unat trust \<le> 10000"
  proof -
    have m1: "r * unat status \<le> 2 ^ 45 * 10000" using small b by (intro mult_mono) simp_all
    have m2: "r * unat status * unat trust \<le> 2 ^ 45 * 10000 * 10000" using mult_le_mono [OF m1 b(2)] by simp
    have c1: "checked_mul (stake_score stake) (ucast status) = Some (stake_score stake * ucast status)"
      and u1: "unat (stake_score stake * ucast status) = r * unat status"
      using m1 unat_mul_exact [of "stake_score stake" "ucast status"] by (simp_all add: checked_mul_def r_def unat_widen16)
    have c2: "checked_mul (stake_score stake * ucast status) (ucast trust) = Some (stake_score stake * ucast status * ucast trust)"
      and u2: "unat (stake_score stake * ucast status * ucast trust) = r * unat status * unat trust"
      using m2 u1 unat_mul_exact [of "stake_score stake * ucast status" "ucast trust"]
      by (simp_all add: checked_mul_def unat_widen16)
    have "stake_score stake * ucast status * ucast trust div BASIS_POINTS_SQUARED =
        of_nat (r * unat status * unat trust div 10 ^ 8)"
      by (rule unat_eq_word) (use m2 u2 in \<open>simp add: BASIS_POINTS_SQUARED_def unat_div unat_of_nat_exact\<close>)
    then show ?thesis using b c1 c2 by (simp add: effective_vote_weight_def word_less_nat_alt)
  qed
  then show ?thesis using r q small
    by (intro exI [of _ r]) (auto simp: effective_vote_weight_def word_less_nat_alt)
qed

lemma ratio_loop_correct:
  assumes "unat a < unat d" and "unat r < unat d" and "unat f + n < 2 ^ 16"
  shows "unat (ratio_loop n d a r f) = unat f + (unat r + n * unat a) div unat d"
  using assms
proof (induction n arbitrary: r f)
  case 0
  then show ?case by simp
next
  case (Suc n)
  have da: "unat (d - a) = unat d - unat a" using Suc.prems(1) by (intro unat_sub_exact) (simp add: word_le_nat_alt)
  show ?case
  proof (cases "a \<noteq> 0 \<and> d - a \<le> r")
    case True
    then have "unat (d - a) \<le> unat r" by (simp add: word_le_nat_alt)
    then have ge: "unat d \<le> unat r + unat a" using da by linarith
    have r': "unat (r - (d - a)) = unat r + unat a - unat d"
      using True da ge Suc.prems(1) unat_sub_exact [of "d - a" r] by simp
    have f': "unat (f + 1) = unat f + 1" using Suc.prems(3) unat_add_exact [of f 1] by simp
    have "unat (ratio_loop n d a (r - (d - a)) (f + 1)) = unat f + 1 + (unat r + unat a - unat d + n * unat a) div unat d"
      using Suc.IH [of "r - (d - a)" "f + 1"] Suc.prems r' f' by simp
    also have "\<dots> = unat f + (unat d + (unat r + unat a - unat d + n * unat a)) div unat d"
      using Suc.prems(1) by (subst div_add_self1) auto
    also have "unat d + (unat r + unat a - unat d + n * unat a) = unat r + Suc n * unat a" using ge by simp
    finally show ?thesis using True by simp
  next
    case False
    then have lt: "unat r + unat a < unat d"
      using da Suc.prems(1,2) by (auto simp: word_le_nat_alt)
    then have r': "unat (r + a) = unat r + unat a"
      using unat_bound128 [of d] by (intro unat_add_exact) simp
    show ?thesis using False Suc.IH [of "r + a" f] Suc.prems lt r' by (auto simp: add.assoc)
  qed
qed

lemma ratio_bps_floor:
  "unat (ratio_bps n d) = (if d = 0 then 0 else min (unat n) (unat d) * 10000 div unat d)"
proof (cases "d = 0")
  case False
  define m where "m = min n d"
  have m: "unat m = min (unat n) (unat d)" by (auto simp: m_def min_def word_le_nat_alt)
  have d: "0 < unat d" using False by simp
  show ?thesis
  proof (cases "m = d")
    case True
    have "ratio_loop k d 0 0 0 = 0" for k by (induction k) simp_all
    moreover have "d div d = 1" by (rule unat_eq_word) (use d in \<open>simp add: unat_div\<close>)
    ultimately show ?thesis using False True m d by (simp add: ratio_bps_def m_def [symmetric] Let_def)
  next
    case nd: False
    then have "unat m \<noteq> unat d" using unat_eq_word by blast
    then have lt: "unat m < unat d" using m by simp
    have w: "m div d = 0" "m mod d = m"
      by (rule unat_eq_word, use lt in \<open>simp add: unat_div\<close>) (rule unat_eq_word, use lt in \<open>simp add: unat_mod\<close>)
    have l: "unat (ratio_loop 10000 d m 0 0) = 10000 * unat m div unat d"
      using ratio_loop_correct [OF lt, of 0 0 10000] d by simp
    have le: "10000 * unat m div unat d \<le> 10000" 
      using div_le_mono [of "10000 * unat m" "10000 * unat d" "unat d"] lt d by simp
    then have "ratio_loop 10000 d m 0 0 \<le> 10000" using l by (simp add: word_le_nat_alt)
    then show ?thesis using False l w m by (simp add: ratio_bps_def m_def [symmetric] Let_def mult.commute min_absorb1)
  qed
qed (simp add: ratio_bps_def)

definition meets :: "nat \<Rightarrow> nat \<Rightarrow> nat \<Rightarrow> bool" where
  "meets q n d \<longleftrightarrow> q = 0 \<or> 0 < d \<and> q * d \<le> 10000 * min n d"

lemma ratio_bps_ge: "q \<le> ratio_bps n d \<longleftrightarrow> meets (unat q) (unat n) (unat d)"
proof (cases "d = 0")
  case True
  then show ?thesis by (simp add: word_le_nat_alt ratio_bps_floor meets_def)
next
  case False
  then have "0 < unat d" by simp
  then show ?thesis using False
    by (auto simp: word_le_nat_alt ratio_bps_floor meets_def less_eq_div_iff_mult_less_eq mult.commute)
qed

text \<open>
  C24: The acceptance gates decide exactly: a change is accepted if and only if the vote weights add up
  within 128 bits, the turnout and the approval reach their thresholds as exact fractions (not
  only after rounding to basis points), and every other gate of the applicable parameter set is
  met; risk classes other than normal use the critical set. The ten-thousand-step division loop
  computes the floor of the quotient for all 128-bit weights without overflow.
\<close>

theorem gates_accept_iff:
  "gr_accepted (evaluate_gates risk normal critical e) \<longleftrightarrow>
    (let p = (if risk = Normal then normal else critical);
         yes = unat (ev_yes_weight e); no = unat (ev_no_weight e); abstain = unat (ev_abstain_weight e) in
     yes + no + abstain < 2 ^ 128 \<and>
     meets (unat (gp_turnout_quorum_bps p)) (yes + no + abstain) (unat (ev_total_registered_weight e)) \<and>
     meets (unat (gp_yes_threshold_bps p)) yes (yes + no) \<and>
     gp_minimum_yes_identities p \<le> ev_distinct_yes_identities e \<and>
     gp_minimum_verified_or_human_yes p \<le> ev_verified_or_human_yes_identities e \<and>
     gp_minimum_agent_attestations p \<le> ev_valid_agent_attestations e \<and>
     gp_minimum_agent_runtime_groups p \<le> ev_distinct_agent_runtime_groups e \<and>
     gp_minimum_agent_families p \<le> ev_distinct_agent_families e \<and>
     gp_minimum_agent_owners p \<le> ev_distinct_agent_owner_identities e \<and>
     ev_unresolved_critical_findings e < gp_critical_finding_owner_threshold p \<and>
     gp_minimum_builders p \<le> ev_valid_builders e \<and>
     gp_minimum_builder_platforms p \<le> ev_distinct_builder_platforms e \<and>
     ev_matching_core_artifact_digests e \<and>
     gp_minimum_data_availability_providers p \<le> ev_independent_data_availability_providers e)"
proof -
  let ?y = "ev_yes_weight e" and ?n = "ev_no_weight e" and ?a = "ev_abstain_weight e"
  have sum2: "checked_add ?y ?n = (if unat ?y + unat ?n < 2 ^ 128 then Some (?y + ?n) else None)" by (simp add: checked_add_def)
  show ?thesis
  proof (cases "unat ?y + unat ?n + unat ?a < 2 ^ 128")
    case False
    have "(case checked_add ?y ?n of None \<Rightarrow> None | Some v \<Rightarrow> checked_add v ?a) = None"
      using False unat_add_exact [of ?y ?n] by (auto simp: checked_add_def)
    then show ?thesis using False by (simp add: evaluate_gates_def overflow_results_def Let_def)
  next
    case True
    then have u: "unat (?y + ?n) = unat ?y + unat ?n" "unat (?y + ?n + ?a) = unat ?y + unat ?n + unat ?a"
      using unat_add_exact [of ?y ?n] unat_add_exact [of "?y + ?n" ?a] by simp_all
    then have "checked_add ?y ?n = Some (?y + ?n)" "checked_add (?y + ?n) ?a = Some (?y + ?n + ?a)"
      using True by (simp_all add: checked_add_def)
    then show ?thesis using True
      by (auto simp: evaluate_gates_def Let_def is_critical_def ratio_bps_ge u)
  qed
qed

end
