(* ===== verification/GovMetrics.thy ===== *)
theory GovMetrics
  imports MerkleProof GovMath Order
begin

text \<open>
  \<open>governance-core/src/metrics.rs\<close>: the identity metrics snapshot, its Merkle root and the inclusion
  proofs an identity registers with. The packaging of snapshots as CAR files is not modelled.
\<close>

section \<open>Data\<close>

definition MAX_IDENTITY_METRICS_LEAVES :: nat where
  "MAX_IDENTITY_METRICS_LEAVES = 262144"

definition MAX_SOURCE_BLOCK_HASHES :: nat where
  "MAX_SOURCE_BLOCK_HASHES = 65537"

record GovernanceIdentityMetricsLeafV1 =
  il_address :: string
  il_identity_state :: IdentityState
  il_total_finalized_authored_flips :: u64
  il_total_consensus_reported_authored_flips :: u64
  il_flip_trust_bps :: u16
  il_source_epoch :: u16
  il_source_block_height :: u64
  il_source_block_hash :: string

record GovernanceIdentityMetricsProofV1 =
  ip_leaf :: GovernanceIdentityMetricsLeafV1
  ip_index :: u64
  ip_leaf_count :: u64
  ip_siblings :: "string list"

record BuiltIdentityMetricsSnapshot =
  bm_root :: string
  bm_leaves :: "GovernanceIdentityMetricsLeafV1 list"
  bm_proofs :: "(string, GovernanceIdentityMetricsProofV1) btree"

record IdentityMetricsSnapshotV1 =
  im_schema_version :: u16
  im_source_epoch :: u16
  im_source_block_height :: u64
  im_source_block_hash :: string
  im_replay_start_height :: u64
  im_replay_commitment :: string
  im_source_block_hashes :: "string list"
  im_leaves :: "GovernanceIdentityMetricsLeafV1 list"
  im_merkle_root :: string

datatype MetricsProofError =
    InvalidAddress
  | InvalidBlockHash
  | IneligibleIdentity
  | InvalidTrust
  | InconsistentSnapshot
  | InvalidProof
  | InvalidSnapshotPackage

section \<open>Leaves\<close>

definition is_lower_hexdigit :: "char \<Rightarrow> bool" where
  "is_lower_hexdigit c \<longleftrightarrow> is_ascii_digit c \<or> code CHR ''a'' \<le> code c \<and> code c \<le> code CHR ''f''"

definition decode_hash :: "extern \<Rightarrow> string \<Rightarrow> bytes option" where
  "decode_hash X v =
     (if length v \<noteq> 64 \<or> \<not> list_all is_lower_hexdigit v then None
      else case hex_decode X v of Inl _ \<Rightarrow> None | Inr bs \<Rightarrow> if length bs = 32 then Some bs else None)"

definition normalize_address :: "extern \<Rightarrow> string \<Rightarrow> (MetricsProofError, string) res" where
  "normalize_address X v =
     bindR (ok_or InvalidAddress (strip_prefix ''0x'' v)) (\<lambda>raw.
     bindR (lift_ext (\<lambda>_. InvalidAddress) (hex_decode X raw)) (\<lambda>bs.
     if length bs \<noteq> 20 then Err InvalidAddress else Ok (''0x'' @ hex_encode X bs)))"

definition decode_address :: "extern \<Rightarrow> string \<Rightarrow> (MetricsProofError, bytes) res" where
  "decode_address X v =
     bindR (normalize_address X v) (\<lambda>normalized.
     bindR (lift_ext (\<lambda>_. InvalidAddress) (hex_decode X (drop 2 normalized))) (\<lambda>bs.
     if length bs = 20 then Ok bs else Err InvalidAddress))"

definition validate_identity_leaf :: "extern \<Rightarrow> GovernanceIdentityMetricsLeafV1 \<Rightarrow> (MetricsProofError, unit) res" where
  "validate_identity_leaf X leaf =
     bindR (decode_address X (il_address leaf)) (\<lambda>_.
     bindR (ok_or InvalidBlockHash (decode_hash X (il_source_block_hash leaf))) (\<lambda>_.
     if status_bps (il_identity_state leaf) = None then Err IneligibleIdentity
     else bindR (map_err (\<lambda>_. InvalidTrust) (flip_trust_bps (il_total_finalized_authored_flips leaf)
       (il_total_consensus_reported_authored_flips leaf))) (\<lambda>expected.
     if expected \<noteq> il_flip_trust_bps leaf then Err InvalidTrust else Ok ())))"

text \<open>\<open>to_be_bytes\<close>.\<close>

definition to_be_bytes :: "'w::len word \<Rightarrow> bytes" where
  "to_be_bytes w = map (\<lambda>i. ucast (drop_bit (8 * i) w)) (rev [0..<LENGTH('w) div 8])"

definition metrics_leaf_data :: "extern \<Rightarrow> GovernanceIdentityMetricsLeafV1 \<Rightarrow> (MetricsProofError, bytes) res" where
  "metrics_leaf_data X leaf =
     bindR (validate_identity_leaf X leaf) (\<lambda>_.
     bindR (decode_address X (il_address leaf)) (\<lambda>address.
     bindR (ok_or InvalidBlockHash (decode_hash X (il_source_block_hash leaf))) (\<lambda>block_hash.
     bindR (case il_identity_state leaf of
         Human \<Rightarrow> Ok 3
       | Verified \<Rightarrow> Ok 2
       | Newbie \<Rightarrow> Ok 1
       | _ \<Rightarrow> Err IneligibleIdentity) (\<lambda>state.
     Ok (as_bytes ''IDENA_GOV_METRICS_V1'' @ [0] @ address @ [state] @
       to_be_bytes (il_total_finalized_authored_flips leaf) @
       to_be_bytes (il_total_consensus_reported_authored_flips leaf) @
       to_be_bytes (il_flip_trust_bps leaf) @ to_be_bytes (il_source_epoch leaf) @
       to_be_bytes (il_source_block_height leaf) @ block_hash)))))"

definition hash_identity_metrics_leaf :: "extern \<Rightarrow> GovernanceIdentityMetricsLeafV1 \<Rightarrow> (MetricsProofError, bytes) res" where
  "hash_identity_metrics_leaf X leaf = bindR (metrics_leaf_data X leaf) (\<lambda>data. Ok (sha256 X data))"

section \<open>Tree\<close>

definition merkle_node_data :: "bytes \<Rightarrow> bytes \<Rightarrow> bytes" where
  "merkle_node_data left right = as_bytes ''IDENA_GOV_MERKLE_V1'' @ [0] @ left @ right"

definition hash_merkle_node :: "extern \<Rightarrow> bytes \<Rightarrow> bytes \<Rightarrow> bytes" where
  "hash_merkle_node X left right = sha256 X (merkle_node_data left right)"

definition metrics_merkle_root :: "extern \<Rightarrow> bytes list \<Rightarrow> bytes" where
  "metrics_merkle_root X hashes =
     (if hashes = [] then sha256 X (as_bytes ''IDENA_GOV_METRICS_EMPTY_V1'')
      else tree_root (hash_merkle_node X) hashes)"

definition merkle_root_data :: "bytes \<Rightarrow> u64 \<Rightarrow> bytes" where
  "merkle_root_data root leaf_count = as_bytes ''IDENA_GOV_METRICS_ROOT_V1'' @ [0] @ to_be_bytes leaf_count @ root"

definition committed_merkle_root :: "extern \<Rightarrow> bytes \<Rightarrow> u64 \<Rightarrow> bytes" where
  "committed_merkle_root X root leaf_count = sha256 X (merkle_root_data root leaf_count)"

section \<open>Snapshots and proofs\<close>

definition normalized_metrics_leaf ::
  "extern \<Rightarrow> GovernanceIdentityMetricsLeafV1 \<Rightarrow> (MetricsProofError, GovernanceIdentityMetricsLeafV1) res" where
  "normalized_metrics_leaf X leaf =
     bindR (normalize_address X (il_address leaf)) (\<lambda>address. let leaf' = leaf\<lparr>il_address := address\<rparr> in
     bindR (validate_identity_leaf X leaf') (\<lambda>_. Ok leaf'))"

definition leaf_boundary :: "GovernanceIdentityMetricsLeafV1 \<Rightarrow> u16 \<times> u64 \<times> string" where
  "leaf_boundary leaf = (il_source_epoch leaf, il_source_block_height leaf, il_source_block_hash leaf)"

text \<open>The loop over the sorted leaves: no address twice, one source boundary.\<close>

fun check_snapshot_leaves ::
  "string btset \<Rightarrow> (u16 \<times> u64 \<times> string) option \<Rightarrow> GovernanceIdentityMetricsLeafV1 list \<Rightarrow> (MetricsProofError, unit) res" where
  "check_snapshot_leaves addresses boundary [] = Ok ()"
| "check_snapshot_leaves addresses boundary (leaf # leaves) =
     (if bt_contains addresses (il_address leaf) then Err InconsistentSnapshot
      else case boundary of
        Some expected \<Rightarrow>
          if expected \<noteq> leaf_boundary leaf then Err InconsistentSnapshot
          else check_snapshot_leaves (bs_insert (il_address leaf) addresses) (Some (leaf_boundary leaf)) leaves
      | None \<Rightarrow> check_snapshot_leaves (bs_insert (il_address leaf) addresses) (Some (leaf_boundary leaf)) leaves)"

definition identity_proof ::
  "extern \<Rightarrow> GovernanceIdentityMetricsLeafV1 list \<Rightarrow> bytes list \<Rightarrow> nat \<Rightarrow> GovernanceIdentityMetricsProofV1" where
  "identity_proof X leaves hashes index = \<lparr>ip_leaf = leaves ! index, ip_index = of_nat index,
     ip_leaf_count = of_nat (length leaves),
     ip_siblings = map (hex_encode X) (tree_siblings (hash_merkle_node X) hashes index)\<rparr>"

definition build_identity_metrics_snapshot ::
  "extern \<Rightarrow> GovernanceIdentityMetricsLeafV1 list \<Rightarrow> (MetricsProofError, BuiltIdentityMetricsSnapshot) res" where
  "build_identity_metrics_snapshot X leaves0 =
     (if length leaves0 > MAX_IDENTITY_METRICS_LEAVES then Err InconsistentSnapshot
      else bindR (try_map (normalized_metrics_leaf X) leaves0) (\<lambda>leaves1.
      let leaves = Sorting_Algorithms.sort (asc il_address) leaves1 in
      bindR (check_snapshot_leaves bt_empty None leaves) (\<lambda>_.
      bindR (try_map (hash_identity_metrics_leaf X) leaves) (\<lambda>hashes.
      Ok \<lparr>bm_root = hex_encode X (committed_merkle_root X (metrics_merkle_root X hashes) (of_nat (length hashes))),
          bm_leaves = leaves,
          bm_proofs = fold (\<lambda>index. bt_insert (il_address (leaves ! index)) (identity_proof X leaves hashes index))
            [0..<length leaves] bt_empty\<rparr>))))"

definition verify_identity_metrics_proof ::
  "extern \<Rightarrow> GovernanceIdentityMetricsProofV1 \<Rightarrow> string \<Rightarrow> (MetricsProofError, unit) res" where
  "verify_identity_metrics_proof X proof expected_root0 =
     bindR (validate_identity_leaf X (ip_leaf proof)) (\<lambda>_.
     bindR (normalize_address X (il_address (ip_leaf proof))) (\<lambda>normalized.
     if il_address (ip_leaf proof) \<noteq> normalized \<or> ip_leaf_count proof = 0 \<or> ip_index proof \<ge> ip_leaf_count proof
     then Err InvalidProof
     else bindR (ok_or InvalidProof (decode_hash X expected_root0)) (\<lambda>expected_root.
     if length (ip_siblings proof) \<noteq> proof_levels (ip_leaf_count proof) then Err InvalidProof
     else bindR (hash_identity_metrics_leaf X (ip_leaf proof)) (\<lambda>leaf_hash.
     bindR (ok_or InvalidProof (climb (hash_merkle_node X) (decode_hash X) leaf_hash (ip_index proof)
       (ip_leaf_count proof) (ip_siblings proof))) (\<lambda>current.
     if committed_merkle_root X current (ip_leaf_count proof) \<noteq> expected_root then Err InvalidProof else Ok ())))))"

definition check_source_hash ::
  "extern \<Rightarrow> string btset \<Rightarrow> string \<Rightarrow> (MetricsProofError, string btset) res" where
  "check_source_hash X seen h =
     bindR (ok_or InvalidSnapshotPackage (decode_hash X h)) (\<lambda>_.
     if bt_contains seen h then Err InvalidSnapshotPackage else Ok (bs_insert h seen))"

definition validate_identity_metrics_snapshot ::
  "extern \<Rightarrow> IdentityMetricsSnapshotV1 \<Rightarrow> (MetricsProofError, unit) res" where
  "validate_identity_metrics_snapshot X v =
     (if im_schema_version v \<noteq> 1 \<or> im_replay_start_height v > im_source_block_height v
        \<or> length (im_leaves v) > MAX_IDENTITY_METRICS_LEAVES
        \<or> length (im_source_block_hashes v) > MAX_SOURCE_BLOCK_HASHES
      then Err InvalidSnapshotPackage
      else bindR (ok_or InvalidSnapshotPackage (decode_hash X (im_source_block_hash v))) (\<lambda>_.
      bindR (ok_or InvalidSnapshotPackage (decode_hash X (im_replay_commitment v))) (\<lambda>_.
      bindR (ok_or InvalidSnapshotPackage (decode_hash X (im_merkle_root v))) (\<lambda>_.
      if im_source_block_hashes v = [] \<or> last (im_source_block_hashes v) \<noteq> im_source_block_hash v
      then Err InvalidSnapshotPackage
      else bindR (try_fold (check_source_hash X) bt_empty (im_source_block_hashes v)) (\<lambda>_.
      if \<not> list_all (\<lambda>leaf. leaf_boundary leaf =
          (im_source_epoch v, im_source_block_height v, im_source_block_hash v)) (im_leaves v)
      then Err InconsistentSnapshot
      else bindR (build_identity_metrics_snapshot X (im_leaves v)) (\<lambda>rebuilt.
      if bm_leaves rebuilt \<noteq> im_leaves v \<or> bm_root rebuilt \<noteq> im_merkle_root v
      then Err InconsistentSnapshot else Ok ()))))))"

section \<open>The hex codec\<close>

text \<open>
  Documented behaviour of the \<open>hex\<close> crate: encoding yields two lower-case digits per byte, decoding
  inverts it, and a lower-case string that decodes is the encoding of its bytes.
\<close>

definition hex_codec :: "extern \<Rightarrow> bool" where
  "hex_codec X \<longleftrightarrow>
     (\<forall>b. hex_decode X (hex_encode X b) = Inr b \<and> length (hex_encode X b) = 2 * length b
        \<and> list_all is_lower_hexdigit (hex_encode X b)) \<and>
     (\<forall>s b. list_all is_lower_hexdigit s \<and> hex_decode X s = Inr b \<longrightarrow> hex_encode X b = s)"

lemma decode_encode_hash:
  assumes "hex_codec X" and "length h = 32"
  shows "decode_hash X (hex_encode X h) = Some h"
  using assms by (simp add: decode_hash_def hex_codec_def)

lemma encode_decode_hash:
  assumes "hex_codec X" and "decode_hash X s = Some h"
  shows "s = hex_encode X h" "length h = 32"
  using assms by (auto simp: decode_hash_def hex_codec_def split: if_splits sum.splits)

text \<open>Normalising an address is idempotent, and a normalised one is the encoding of its bytes.\<close>

lemma normalize_address_encoded:
  assumes "hex_codec X" and "normalize_address X v = Ok a"
  obtains b where "a = ''0x'' @ hex_encode X b" "length b = 20" "normalize_address X a = Ok a"
    "decode_address X a = Ok b"
proof -
  obtain b where b: "a = ''0x'' @ hex_encode X b" "length b = 20"
    using assms(2) by (auto simp: normalize_address_def res_simps)
  have "hex_decode X (hex_encode X b) = Inr b" using assms(1) by (simp add: hex_codec_def)
  then have "normalize_address X a = Ok a"
    using b by (simp add: normalize_address_def del: append.simps)
  moreover then have "decode_address X a = Ok b"
    using b \<open>hex_decode X (hex_encode X b) = Inr b\<close> by (simp add: decode_address_def)
  ultimately show ?thesis using b that by blast
qed

section \<open>Big-endian bytes\<close>

lemma length_to_be_bytes [simp]: "length (to_be_bytes (w :: 'w::len word)) = LENGTH('w) div 8"
  by (simp add: to_be_bytes_def)

lemma to_be_bytes_inject:
  fixes v w :: "'w::len word"
  assumes "8 dvd LENGTH('w)"
  shows "to_be_bytes v = to_be_bytes w \<longleftrightarrow> v = w"
proof
  assume eq: "to_be_bytes v = to_be_bytes w"
  have same: "(ucast (drop_bit (8 * i) v) :: u8) = ucast (drop_bit (8 * i) w)" if "i < LENGTH('w) div 8" for i
    using eq that by (simp add: to_be_bytes_def)
  show "v = w"
  proof (rule bit_word_eqI)
    fix n assume n: "n < LENGTH('w)"
    then have "n div 8 < LENGTH('w) div 8" using assms by (auto elim!: dvdE)
    from arg_cong [OF same [OF this], of "\<lambda>b. bit b (n mod 8)"]
    show "bit v n \<longleftrightarrow> bit w n" using n by (simp add: bit_simps)
  qed
qed simp

lemma to_be_bytes_inject_widths [simp]:
  "to_be_bytes (a :: u16) = to_be_bytes b \<longleftrightarrow> a = b"
  "to_be_bytes (c :: u64) = to_be_bytes d \<longleftrightarrow> c = d"
  by (simp_all add: to_be_bytes_inject)

section \<open>What is hashed determines what is committed\<close>

lemma merkle_node_data_inject:
  "length a = length c \<Longrightarrow> merkle_node_data a b = merkle_node_data c d \<longleftrightarrow> a = c \<and> b = d"
  by (simp add: merkle_node_data_def)

lemma merkle_root_data_inject [simp]:
  "merkle_root_data r n = merkle_root_data s m \<longleftrightarrow> n = m \<and> r = s"
  by (simp add: merkle_root_data_def)

lemma metrics_leaf_data_Ok:
  assumes "metrics_leaf_data X leaf = Ok data"
  obtains address state block_hash where
    "decode_address X (il_address leaf) = Ok address" "length address = 20"
    "decode_hash X (il_source_block_hash leaf) = Some block_hash"
    "(state, il_identity_state leaf) \<in> {(3, Human), (2, Verified), (1, Newbie)}"
    "data = as_bytes ''IDENA_GOV_METRICS_V1'' @ [0] @ address @ [state] @
       to_be_bytes (il_total_finalized_authored_flips leaf) @
       to_be_bytes (il_total_consensus_reported_authored_flips leaf) @
       to_be_bytes (il_flip_trust_bps leaf) @ to_be_bytes (il_source_epoch leaf) @
       to_be_bytes (il_source_block_height leaf) @ block_hash"
proof -
  obtain address where a: "decode_address X (il_address leaf) = Ok address"
    using assms by (auto simp: metrics_leaf_data_def res_simps)
  then have "length address = 20" by (auto simp: decode_address_def res_simps split: if_splits)
  then show ?thesis
    using assms a that by (cases "il_identity_state leaf") (auto simp: metrics_leaf_data_def res_simps)
qed

lemma metrics_leaf_data_inject:
  assumes "hex_codec X"
    and l: "metrics_leaf_data X l = Ok data" "normalize_address X (il_address l) = Ok (il_address l)"
    and m: "metrics_leaf_data X m = Ok data" "normalize_address X (il_address m) = Ok (il_address m)"
  shows "l = m"
proof -
  obtain a s h where L: "decode_address X (il_address l) = Ok a" "length a = 20"
    "decode_hash X (il_source_block_hash l) = Some h"
    "(s, il_identity_state l) \<in> {(3, Human), (2, Verified), (1, Newbie)}"
    "data = as_bytes ''IDENA_GOV_METRICS_V1'' @ [0] @ a @ [s] @
       to_be_bytes (il_total_finalized_authored_flips l) @
       to_be_bytes (il_total_consensus_reported_authored_flips l) @
       to_be_bytes (il_flip_trust_bps l) @ to_be_bytes (il_source_epoch l) @
       to_be_bytes (il_source_block_height l) @ h"
    using metrics_leaf_data_Ok [OF l(1)] by metis
  obtain a' s' h' where M: "decode_address X (il_address m) = Ok a'" "length a' = 20"
    "decode_hash X (il_source_block_hash m) = Some h'"
    "(s', il_identity_state m) \<in> {(3, Human), (2, Verified), (1, Newbie)}"
    "data = as_bytes ''IDENA_GOV_METRICS_V1'' @ [0] @ a' @ [s'] @
       to_be_bytes (il_total_finalized_authored_flips m) @
       to_be_bytes (il_total_consensus_reported_authored_flips m) @
       to_be_bytes (il_flip_trust_bps m) @ to_be_bytes (il_source_epoch m) @
       to_be_bytes (il_source_block_height m) @ h'"
    using metrics_leaf_data_Ok [OF m(1)] by metis
  have eqs: "a = a'" "s = s'" "h = h'"
    "il_total_finalized_authored_flips l = il_total_finalized_authored_flips m"
    "il_total_consensus_reported_authored_flips l = il_total_consensus_reported_authored_flips m"
    "il_flip_trust_bps l = il_flip_trust_bps m" "il_source_epoch l = il_source_epoch m"
    "il_source_block_height l = il_source_block_height m"
    using L(2,5) M(2,5) by simp_all
  have "il_source_block_hash l = il_source_block_hash m"
    using encode_decode_hash(1) [OF assms(1)] L(3) M(3) eqs(3) by metis
  moreover have "il_address l = il_address m"
    using normalize_address_encoded [OF assms(1) l(2)] normalize_address_encoded [OF assms(1) m(2)]
      L(1) M(1) eqs(1) by (metis res.inject(1))
  moreover have "il_identity_state l = il_identity_state m" using L(4) M(4) eqs(2) by auto
  ultimately show ?thesis using eqs by simp
qed

section \<open>Built snapshots\<close>

lemma check_snapshot_leaves_distinct:
  "check_snapshot_leaves addresses boundary leaves = Ok () \<Longrightarrow>
     distinct (map il_address leaves) \<and> (\<forall>l \<in> set leaves. bt_get addresses (il_address l) = None)"
  by (induction addresses boundary leaves rule: check_snapshot_leaves.induct)
    (auto split: option.splits if_splits)

lemma fold_bt_insert_get:
  assumes "inj_on f {..<n}" and "j < n"
  shows "bt_get (fold (\<lambda>i. bt_insert (f i) (g i)) [0..<n] m) (f j) = Some (g j)"
  using assms
proof (induction n)
  case (Suc n)
  show ?case
  proof (cases "j = n")
    case False
    then have "f j \<noteq> f n" "j < n" using Suc.prems by (auto dest: inj_onD)
    then show ?thesis using Suc by (simp add: inj_on_def)
  qed simp
qed simp

text \<open>What a built snapshot consists of.\<close>

definition snapshot_of :: "extern \<Rightarrow> GovernanceIdentityMetricsLeafV1 list \<Rightarrow> bytes list \<Rightarrow> BuiltIdentityMetricsSnapshot" where
  "snapshot_of X leaves hashes =
     \<lparr>bm_root = hex_encode X (committed_merkle_root X (metrics_merkle_root X hashes) (of_nat (length hashes))),
      bm_leaves = leaves,
      bm_proofs = fold (\<lambda>index. bt_insert (il_address (leaves ! index)) (identity_proof X leaves hashes index))
        [0..<length leaves] bt_empty\<rparr>"

lemma build_Ok:
  assumes "hex_codec X" and "build_identity_metrics_snapshot X leaves0 = Ok snapshot"
  obtains leaves hashes where "snapshot = snapshot_of X leaves hashes"
    "list_all2 (\<lambda>l h. hash_identity_metrics_leaf X l = Ok h) leaves hashes"
    "distinct (map il_address leaves)" "length leaves < 2 ^ 64"
    "\<And>l. l \<in> set leaves \<Longrightarrow> normalize_address X (il_address l) = Ok (il_address l)"
proof -
  obtain leaves1 hashes where
    1: "length leaves0 \<le> MAX_IDENTITY_METRICS_LEAVES" "list_all2 (\<lambda>l l'. normalized_metrics_leaf X l = Ok l') leaves0 leaves1"
    and 2: "check_snapshot_leaves bt_empty None (Sorting_Algorithms.sort (asc il_address) leaves1) = Ok ()"
    and 3: "list_all2 (\<lambda>l h. hash_identity_metrics_leaf X l = Ok h) (Sorting_Algorithms.sort (asc il_address) leaves1) hashes"
    and 4: "snapshot = snapshot_of X (Sorting_Algorithms.sort (asc il_address) leaves1) hashes"
    using assms(2) by (auto simp: build_identity_metrics_snapshot_def Let_def res_simps snapshot_of_def not_less)
  have "length leaves1 = length leaves0" using 1(2) by (auto dest: list_all2_lengthD)
  moreover have len: "length (Sorting_Algorithms.sort (asc il_address) leaves1) = length leaves1"
    using mset_sort [of "asc il_address" leaves1] by (metis size_mset)
  ultimately have "length (Sorting_Algorithms.sort (asc il_address) leaves1) < 2 ^ 64"
    using 1(1) by (simp add: MAX_IDENTITY_METRICS_LEAVES_def)
  moreover have "normalize_address X (il_address l) = Ok (il_address l)"
    if l: "l \<in> set (Sorting_Algorithms.sort (asc il_address) leaves1)" for l
  proof -
    have "l \<in> set leaves1" using l by (metis mset_sort set_mset_mset)
    then obtain l0 where "normalized_metrics_leaf X l0 = Ok l" using list_all2_member [OF 1(2)] by blast
    then have "normalize_address X (il_address l0) = Ok (il_address l)"
      by (auto simp: normalized_metrics_leaf_def res_simps Let_def)
    then show ?thesis by (rule normalize_address_encoded [OF assms(1)]) simp
  qed
  ultimately show ?thesis using that [OF 4 3] check_snapshot_leaves_distinct [OF 2] by blast
qed

lemma leaf_hash_Ok:
  assumes "hash_identity_metrics_leaf X l = Ok h"
  obtains data where "metrics_leaf_data X l = Ok data" "h = sha256 X data" "validate_identity_leaf X l = Ok ()"
  using assms by (auto simp: hash_identity_metrics_leaf_def metrics_leaf_data_def res_simps)

lemma metrics_verify_Ok_iff:
  "verify_identity_metrics_proof X proof expected = Ok () \<longleftrightarrow>
     validate_identity_leaf X (ip_leaf proof) = Ok ()
     \<and> normalize_address X (il_address (ip_leaf proof)) = Ok (il_address (ip_leaf proof))
     \<and> ip_index proof < ip_leaf_count proof
     \<and> length (ip_siblings proof) = proof_levels (ip_leaf_count proof)
     \<and> (\<exists>h current. hash_identity_metrics_leaf X (ip_leaf proof) = Ok h
         \<and> climb (hash_merkle_node X) (decode_hash X) h (ip_index proof) (ip_leaf_count proof) (ip_siblings proof) = Some current
         \<and> decode_hash X expected = Some (committed_merkle_root X current (ip_leaf_count proof)))"
  by (auto simp: verify_identity_metrics_proof_def res_simps not_le)

lemma identity_proof_verifies:
  assumes "hex_codec X" and "digest_32 X" and all: "list_all2 (\<lambda>l h. hash_identity_metrics_leaf X l = Ok h) ls hs"
    and "length ls < 2 ^ 64" and norm: "\<And>l. l \<in> set ls \<Longrightarrow> normalize_address X (il_address l) = Ok (il_address l)"
    and i: "i < length ls"
  shows "verify_identity_metrics_proof X (identity_proof X ls hs i) (bm_root (snapshot_of X ls hs)) = Ok ()"
proof -
  let ?p = "identity_proof X ls hs i" and ?n = "of_nat (length ls) :: u64" and ?i = "of_nat i :: u64"
  have n: "unat ?n = length ls" "unat ?i = i" using assms(4) i by (simp_all add: unat_of_nat_exact)
  have eq: "length hs = length ls" using all by (auto dest: list_all2_lengthD)
  have h: "hash_identity_metrics_leaf X (ls ! i) = Ok (hs ! i)" using list_all2_nthD [OF all i] .
  have D: "length x = 32" if "x \<in> set hs" for x
    using list_all2_member [OF all that] assms(2) by (auto elim: leaf_hash_Ok simp: digest_32_def)
  have "climb (hash_merkle_node X) (decode_hash X) (hs ! unat ?i) ?i ?n (ip_siblings ?p) = Some (tree_root (hash_merkle_node X) hs)"
    using climb_complete [of "\<lambda>h. length h = 32" "decode_hash X" "hex_encode X" "hash_merkle_node X" hs ?n ?i]
      decode_encode_hash [OF assms(1)] D assms(2) n eq i by (simp add: digest_32_def hash_merkle_node_def identity_proof_def)
  moreover have "decode_hash X (bm_root (snapshot_of X ls hs)) = Some (committed_merkle_root X (tree_root (hash_merkle_node X) hs) ?n)"
    using decode_encode_hash [OF assms(1)] assms(2) eq i
    by (auto simp: snapshot_of_def metrics_merkle_root_def committed_merkle_root_def digest_32_def)
  moreover have "length (ip_siblings ?p) = proof_levels ?n"
    using siblings_levels [of hs ?n] n eq by (simp add: identity_proof_def)
  ultimately show ?thesis
    using h n i norm by (auto simp: metrics_verify_Ok_iff identity_proof_def word_less_nat_alt elim: leaf_hash_Ok)
qed

text \<open>
  C23: every identity in a built snapshot has a proof in it, that proof carries the identity's leaf, and
  the proof verifies against the snapshot's root, whatever the number of leaves.
\<close>

theorem metrics_proofs_verify:
  assumes "hex_codec X" and "digest_32 X"
    and "build_identity_metrics_snapshot X leaves = Ok snapshot" and "leaf \<in> set (bm_leaves snapshot)"
  shows "\<exists>proof. bt_get (bm_proofs snapshot) (il_address leaf) = Some proof \<and> ip_leaf proof = leaf
    \<and> verify_identity_metrics_proof X proof (bm_root snapshot) = Ok ()"
proof -
  obtain ls hs where s: "snapshot = snapshot_of X ls hs" and all: "list_all2 (\<lambda>l h. hash_identity_metrics_leaf X l = Ok h) ls hs"
    and "distinct (map il_address ls)" and len: "length ls < 2 ^ 64"
    and norm: "\<And>l. l \<in> set ls \<Longrightarrow> normalize_address X (il_address l) = Ok (il_address l)"
    using build_Ok [OF assms(1,3)] by metis
  obtain i where i: "i < length ls" "leaf = ls ! i" using assms(4) s by (auto simp: snapshot_of_def in_set_conv_nth)
  let ?p = "identity_proof X ls hs i"
  have "verify_identity_metrics_proof X ?p (bm_root snapshot) = Ok ()"
    using identity_proof_verifies [OF assms(1,2) all len norm i(1)] s by simp
  moreover have "inj_on (\<lambda>i. il_address (ls ! i)) {..<length ls}"
    using \<open>distinct (map il_address ls)\<close> by (auto simp: distinct_conv_nth inj_on_def)
  then have "bt_get (bm_proofs snapshot) (il_address leaf) = Some ?p"
    using fold_bt_insert_get i by (simp add: s snapshot_of_def)
  ultimately show ?thesis using i by (auto simp: identity_proof_def)
qed

section \<open>Proofs bind the committed leaves\<close>

text \<open>The strings a verifier hashes for a proof and a builder hashes for a snapshot.\<close>

definition leaf_preimages :: "extern \<Rightarrow> GovernanceIdentityMetricsLeafV1 \<Rightarrow> bytes list" where
  "leaf_preimages X leaf = (case metrics_leaf_data X leaf of Ok data \<Rightarrow> [data] | _ \<Rightarrow> [])"

definition proof_preimages :: "extern \<Rightarrow> GovernanceIdentityMetricsProofV1 \<Rightarrow> bytes list" where
  "proof_preimages X proof = (case hash_identity_metrics_leaf X (ip_leaf proof) of
     Ok h \<Rightarrow> leaf_preimages X (ip_leaf proof)
       @ map (\<lambda>(a, b). merkle_node_data a b)
           (climb_pairs (hash_merkle_node X) (decode_hash X) h (ip_index proof) (ip_siblings proof))
       @ (case climb (hash_merkle_node X) (decode_hash X) h (ip_index proof) (ip_leaf_count proof) (ip_siblings proof) of
            Some current \<Rightarrow> [merkle_root_data current (ip_leaf_count proof)] | None \<Rightarrow> [])
   | _ \<Rightarrow> [])"

definition snapshot_preimages :: "extern \<Rightarrow> GovernanceIdentityMetricsLeafV1 list \<Rightarrow> bytes list" where
  "snapshot_preimages X leaves = (case try_map (hash_identity_metrics_leaf X) leaves of
     Ok hs \<Rightarrow> concat (map (leaf_preimages X) leaves)
       @ map (\<lambda>(a, b). merkle_node_data a b) (tree_pairs (hash_merkle_node X) hs)
       @ [merkle_root_data (metrics_merkle_root X hs) (of_nat (length hs))]
   | _ \<Rightarrow> [])"

text \<open>What the two sides hash, in terms of the tree and of the walk.\<close>

lemma in_snapshot_preimages:
  assumes "list_all2 (\<lambda>l h. hash_identity_metrics_leaf X l = Ok h) ls hs"
  shows "l \<in> set ls \<Longrightarrow> metrics_leaf_data X l = Ok d \<Longrightarrow> d \<in> set (snapshot_preimages X ls)"
    "q \<in> set (tree_pairs (hash_merkle_node X) hs) \<Longrightarrow> merkle_node_data (fst q) (snd q) \<in> set (snapshot_preimages X ls)"
    "merkle_root_data (metrics_merkle_root X hs) (of_nat (length hs)) \<in> set (snapshot_preimages X ls)"
proof -
  have "try_map (hash_identity_metrics_leaf X) ls = Ok hs" using assms by (simp add: res_simps)
  note S = snapshot_preimages_def [of X ls] this
  show "l \<in> set ls \<Longrightarrow> metrics_leaf_data X l = Ok d \<Longrightarrow> d \<in> set (snapshot_preimages X ls)"
    by (force simp: S leaf_preimages_def)
  show "q \<in> set (tree_pairs (hash_merkle_node X) hs) \<Longrightarrow> merkle_node_data (fst q) (snd q) \<in> set (snapshot_preimages X ls)"
    by (force simp: S)
  show "merkle_root_data (metrics_merkle_root X hs) (of_nat (length hs)) \<in> set (snapshot_preimages X ls)"
    by (simp add: S)
qed

lemma in_proof_preimages:
  assumes "hash_identity_metrics_leaf X (ip_leaf proof) = Ok h"
  shows "metrics_leaf_data X (ip_leaf proof) = Ok d \<Longrightarrow> d \<in> set (proof_preimages X proof)"
    "p \<in> set (climb_pairs (hash_merkle_node X) (decode_hash X) h (ip_index proof) (ip_siblings proof)) \<Longrightarrow>
       merkle_node_data (fst p) (snd p) \<in> set (proof_preimages X proof)"
    "climb (hash_merkle_node X) (decode_hash X) h (ip_index proof) (ip_leaf_count proof) (ip_siblings proof) = Some current \<Longrightarrow>
       merkle_root_data current (ip_leaf_count proof) \<in> set (proof_preimages X proof)"
  by (force simp: proof_preimages_def assms leaf_preimages_def)+

lemma node_inputs_agree:
  assumes "hex_codec X" and "digest_32 X"
    and "list_all2 (\<lambda>l h. hash_identity_metrics_leaf X l = Ok h) ls hs"
    and h: "hash_identity_metrics_leaf X (ip_leaf proof) = Ok h"
    and inj: "inj_on (sha256 X) (set (proof_preimages X proof) \<union> set (snapshot_preimages X ls))"
    and p: "p \<in> set (climb_pairs (hash_merkle_node X) (decode_hash X) h (ip_index proof) (ip_siblings proof))"
    and q: "q \<in> set (tree_pairs (hash_merkle_node X) hs)"
    and eq: "hash_merkle_node X (fst p) (snd p) = hash_merkle_node X (fst q) (snd q)"
  shows "p = q"
proof -
  have node: "length (hash_merkle_node X a b) = 32" for a b
    using assms(2) by (simp add: digest_32_def hash_merkle_node_def)
  have leaf: "length h' = 32" if "hash_identity_metrics_leaf X l = Ok h'" for l h'
    using that assms(2) by (auto elim: leaf_hash_Ok simp: digest_32_def)
  have "\<forall>x \<in> set hs. length x = 32" using list_all2_member [OF assms(3)] leaf by blast
  then have "length (fst q) = 32"
    using tree_pairs_pred [of "\<lambda>h. length h = 32" "hash_merkle_node X" hs q] q node by blast
  moreover have "length (fst p) = 32"
    using climb_pairs_pred [OF node encode_decode_hash(2) [OF assms(1)] leaf [OF h] p] .
  moreover have "merkle_node_data (fst p) (snd p) = merkle_node_data (fst q) (snd q)"
    by (rule inj_onD [OF inj eq [unfolded hash_merkle_node_def]])
      (use in_proof_preimages(2) [OF h p] in_snapshot_preimages(2) [OF assms(3) q] in simp_all)
  ultimately show ?thesis by (simp add: merkle_node_data_inject prod_eq_iff)
qed

text \<open>
  C22: a proof that verifies against the root of a built snapshot carries the leaf the snapshot has at the
  proof's index and the snapshot's number of leaves, unless two different strings among those the
  verifier and the builder hash have the same SHA-256 digest. So nobody can register metrics the
  snapshot does not contain, nor pass off one tree shape for another.
\<close>

theorem metrics_proof_binds_leaf:
  assumes "hex_codec X" and "digest_32 X"
    and "build_identity_metrics_snapshot X leaves = Ok snapshot"
    and "verify_identity_metrics_proof X proof (bm_root snapshot) = Ok ()"
    and inj: "inj_on (sha256 X) (set (proof_preimages X proof) \<union> set (snapshot_preimages X (bm_leaves snapshot)))"
  shows "unat (ip_leaf_count proof) = length (bm_leaves snapshot)
    \<and> unat (ip_index proof) < length (bm_leaves snapshot)
    \<and> ip_leaf proof = bm_leaves snapshot ! unat (ip_index proof)"
proof -
  obtain ls hs where s: "snapshot = snapshot_of X ls hs" and all: "list_all2 (\<lambda>l h. hash_identity_metrics_leaf X l = Ok h) ls hs"
    and len: "length ls < 2 ^ 64"
    and norm: "\<And>l. l \<in> set ls \<Longrightarrow> normalize_address X (il_address l) = Ok (il_address l)"
    using build_Ok [OF assms(1,3)] by metis
  have eq: "length hs = length ls" using all by (auto dest: list_all2_lengthD)
  have ls: "bm_leaves snapshot = ls" by (simp add: s snapshot_of_def)
  let ?i = "ip_index proof" and ?n = "ip_leaf_count proof" and ?node = "hash_merkle_node X"
  obtain h cur where v: "?i < ?n" "length (ip_siblings proof) = proof_levels ?n"
    "normalize_address X (il_address (ip_leaf proof)) = Ok (il_address (ip_leaf proof))"
    "hash_identity_metrics_leaf X (ip_leaf proof) = Ok h"
    "climb ?node (decode_hash X) h ?i ?n (ip_siblings proof) = Some cur"
    "decode_hash X (bm_root snapshot) = Some (committed_merkle_root X cur ?n)"
    using assms(4) by (auto simp: metrics_verify_Ok_iff)
  have "sha256 X (merkle_root_data cur ?n) = sha256 X (merkle_root_data (metrics_merkle_root X hs) (of_nat (length hs)))"
    using v(6) decode_encode_hash [OF assms(1)] assms(2)
    by (simp add: s snapshot_of_def committed_merkle_root_def digest_32_def)
  then have "merkle_root_data cur ?n = merkle_root_data (metrics_merkle_root X hs) (of_nat (length hs))"
    by (rule inj_onD [OF inj]) (use in_proof_preimages(3) [OF v(4,5)] in_snapshot_preimages(3) [OF all] ls in simp_all)
  then have root: "?n = of_nat (length hs)" "cur = metrics_merkle_root X hs" by simp_all
  then have n: "unat ?n = length hs" using len eq by (simp add: unat_of_nat_exact)
  then have i: "unat ?i < length hs" using v(1) by (simp add: word_less_nat_alt)
  then have "cur = tree_root ?node hs" using root by (auto simp: metrics_merkle_root_def)
  then have "h = hs ! unat ?i"
    using climb_sound [OF _ n [symmetric] i v(2)] v(5) node_inputs_agree [OF assms(1,2) all v(4) inj [unfolded ls]] by blast
  then have "hash_identity_metrics_leaf X (ls ! unat ?i) = Ok h" using list_all2_nthD2 [OF all i] by simp
  then obtain d where d: "metrics_leaf_data X (ls ! unat ?i) = Ok d" "h = sha256 X d" by (rule leaf_hash_Ok)
  obtain e where e: "metrics_leaf_data X (ip_leaf proof) = Ok e" "h = sha256 X e" using v(4) by (rule leaf_hash_Ok)
  have member: "ls ! unat ?i \<in> set ls" using i eq by simp
  have "d = e"
    by (rule inj_onD [OF inj])
      (use d e in_proof_preimages(1) [OF v(4) e(1)] in_snapshot_preimages(1) [OF all member d(1)] ls in simp_all)
  then have "ip_leaf proof = ls ! unat ?i"
    using metrics_leaf_data_inject [OF assms(1) e(1) v(3)] d(1) norm [OF member] by blast
  then show ?thesis using n i eq ls by simp
qed

section \<open>A concrete codec and snapshot\<close>

definition hex_digit :: "nat \<Rightarrow> char" where
  "hex_digit n = (if n < 10 then char_of (48 + n) else char_of (87 + n))"

definition hex_nibble :: "char \<Rightarrow> nat option" where
  "hex_nibble c =
     (if is_ascii_digit c then Some (code c - 48)
      else if 97 \<le> code c \<and> code c \<le> 102 then Some (code c - 87)
      else if 65 \<le> code c \<and> code c \<le> 70 then Some (code c - 55) else None)"

fun hex_bytes :: "string \<Rightarrow> string + bytes" where
  "hex_bytes [] = Inr []"
| "hex_bytes [c] = Inl ''odd length''"
| "hex_bytes (c # d # s) = (case (hex_nibble c, hex_nibble d, hex_bytes s) of
     (Some h, Some l, Inr bs) \<Rightarrow> Inr (of_nat (16 * h + l) # bs)
   | _ \<Rightarrow> Inl ''invalid character'')"

text \<open>A hash of 32 bytes that copies a window of its input, so that it separates the sample inputs.\<close>

definition window_hash :: extern where
  "window_hash = identity_hash\<lparr>
     sha256 := (\<lambda>m. take 32 (drop 21 (m @ replicate 64 0))),
     hex_encode := (\<lambda>bs. concat (map (\<lambda>b. [hex_digit (unat b div 16), hex_digit (unat b mod 16)]) bs)),
     hex_decode := hex_bytes\<rparr>"

lemma hex_digit_nibble:
  assumes "n < 16"
  shows "hex_nibble (hex_digit n) = Some n" "is_lower_hexdigit (hex_digit n)"
  using assms by (auto simp: hex_digit_def hex_nibble_def is_lower_hexdigit_def is_ascii_digit_def code_def)

lemma hex_nibble_digit:
  assumes "is_lower_hexdigit c" and "hex_nibble c = Some n"
  shows "n < 16" "hex_digit n = c"
proof -
  have c: "char_of (code c) = c" by (simp add: code_def)
  have "code c - 48 = n \<and> 48 \<le> code c \<and> code c \<le> 57 \<or> code c - 87 = n \<and> 97 \<le> code c \<and> code c \<le> 102"
    using assms by (auto simp: hex_nibble_def is_lower_hexdigit_def is_ascii_digit_def code_def split: if_splits)
  then show "n < 16" "hex_digit n = c" using c by (auto simp: hex_digit_def)
qed

lemma hex_bytes_encode:
  "hex_bytes (concat (map (\<lambda>b. [hex_digit (unat b div 16), hex_digit (unat b mod 16)]) bs)) = Inr (bs :: bytes)"
proof (induction bs)
  case (Cons b bs)
  have "unat b div 16 < 16" using unat_bound [of b] by simp
  moreover have "(of_nat (16 * (unat b div 16) + unat b mod 16) :: u8) = b" by (simp only: mult_div_mod_eq of_nat_unat_word)
  ultimately show ?case using Cons by (simp add: hex_digit_nibble)
qed simp

lemma hex_encode_bytes:
  "list_all is_lower_hexdigit s \<Longrightarrow> hex_bytes s = Inr bs \<Longrightarrow>
     concat (map (\<lambda>b. [hex_digit (unat b div 16), hex_digit (unat b mod 16)]) bs) = s"
proof (induction s arbitrary: bs rule: hex_bytes.induct)
  case (3 c d s)
  then obtain h l cs where n: "hex_nibble c = Some h" "hex_nibble d = Some l" "hex_bytes s = Inr cs"
    "bs = of_nat (16 * h + l) # cs"
    by (auto split: option.splits sum.splits)
  have h: "h < 16" "l < 16" "hex_digit h = c" "hex_digit l = d"
    using hex_nibble_digit n "3.prems"(1) by auto
  then have "unat (of_nat (16 * h + l) :: u8) = 16 * h + l" by (intro unat_of_nat_exact) simp
  then show ?case using 3 n h by simp
qed auto

lemma window_hash_codec: "hex_codec window_hash" "digest_32 window_hash"
proof -
  have len: "length (concat (map (\<lambda>b. [f b, g b]) bs)) = 2 * length bs" for f g :: "u8 \<Rightarrow> char" and bs
    by (induction bs) auto
  have "unat (b :: u8) div 16 < 16" for b using unat_bound [of b] by simp
  then have low: "list_all is_lower_hexdigit (concat (map (\<lambda>b. [hex_digit (unat b div 16), hex_digit (unat b mod 16)]) bs))"
    for bs :: bytes by (induction bs) (simp_all add: hex_digit_nibble)
  show "hex_codec window_hash"
    using hex_bytes_encode hex_encode_bytes len low by (simp add: hex_codec_def window_hash_def)
  show "digest_32 window_hash" by (auto simp: digest_32_def window_hash_def)
qed

definition sample_leaf :: "u8 \<Rightarrow> IdentityState \<Rightarrow> GovernanceIdentityMetricsLeafV1" where
  "sample_leaf n state = \<lparr>il_address = ''0x'' @ hex_encode window_hash (replicate 20 n), il_identity_state = state,
     il_total_finalized_authored_flips = 0, il_total_consensus_reported_authored_flips = 0,
     il_flip_trust_bps = 9250, il_source_epoch = 3, il_source_block_height = 100,
     il_source_block_hash = hex_encode window_hash (replicate 32 7)\<rparr>"

definition sample_leaves :: "GovernanceIdentityMetricsLeafV1 list" where
  "sample_leaves = [sample_leaf 16 Human, sample_leaf 80 Newbie, sample_leaf 144 Verified]"

definition sample_data :: "u8 \<Rightarrow> u8 \<Rightarrow> bytes" where
  "sample_data n state = as_bytes ''IDENA_GOV_METRICS_V1'' @ [0] @ replicate 20 n @ [state] @
     to_be_bytes (0 :: u64) @ to_be_bytes (0 :: u64) @ to_be_bytes (9250 :: u16) @ to_be_bytes (3 :: u16) @
     to_be_bytes (100 :: u64) @ replicate 32 7"

definition sample_hashes :: "bytes list" where
  "sample_hashes = map (sha256 window_hash) [sample_data 16 3, sample_data 80 1, sample_data 144 2]"

definition sample_snapshot :: BuiltIdentityMetricsSnapshot where
  "sample_snapshot = snapshot_of window_hash sample_leaves sample_hashes"

lemma sample_trust: "flip_trust_bps 0 0 = Ok 9250"
  by code_simp

lemma sample_address:
  "normalize_address window_hash (''0x'' @ hex_encode window_hash (replicate 20 n)) = Ok (''0x'' @ hex_encode window_hash (replicate 20 n))"
  "decode_address window_hash (''0x'' @ hex_encode window_hash (replicate 20 n)) = Ok (replicate 20 n)"
proof -
  have c: "hex_decode window_hash (hex_encode window_hash b) = Inr b" for b
    using window_hash_codec(1) by (simp add: hex_codec_def)
  show n: "normalize_address window_hash (''0x'' @ hex_encode window_hash (replicate 20 n)) = Ok (''0x'' @ hex_encode window_hash (replicate 20 n))"
    using c by (simp add: normalize_address_def del: append.simps)
  show "decode_address window_hash (''0x'' @ hex_encode window_hash (replicate 20 n)) = Ok (replicate 20 n)"
    unfolding decode_address_def n using c by simp
qed

lemma sample_leaf_data:
  assumes "(s, state) \<in> {(3, Human), (2, Verified), (1, Newbie)}"
  shows "metrics_leaf_data window_hash (sample_leaf n state) = Ok (sample_data n s)"
    "validate_identity_leaf window_hash (sample_leaf n state) = Ok ()"
proof -
  have h: "decode_hash window_hash (hex_encode window_hash (replicate 32 7)) = Some (replicate 32 7)"
    by (rule decode_encode_hash [OF window_hash_codec(1)]) simp
  show v: "validate_identity_leaf window_hash (sample_leaf n state) = Ok ()"
    using assms h sample_trust sample_address(2) [of n]
    by (auto simp: validate_identity_leaf_def sample_leaf_def simp del: append.simps)
  show "metrics_leaf_data window_hash (sample_leaf n state) = Ok (sample_data n s)"
    using assms h sample_address(2) [of n] v unfolding metrics_leaf_data_def
    by (auto simp: sample_leaf_def sample_data_def simp del: append.simps)
qed

lemma sample_leaves_hashed:
  "list_all2 (\<lambda>l h. hash_identity_metrics_leaf window_hash l = Ok h) sample_leaves sample_hashes"
  using sample_leaf_data(1)
  by (simp add: sample_leaves_def sample_hashes_def hash_identity_metrics_leaf_def)

lemma sample_address_first:
  "\<exists>rest. il_address (sample_leaf n state) = CHR ''0'' # CHR ''x'' # hex_digit (unat n div 16) # rest"
proof -
  have "replicate 20 n = n # replicate 19 n" by (simp add: replicate_Suc [symmetric] eval_nat_numeral)
  then show ?thesis by (simp add: sample_leaf_def window_hash_def)
qed

lemma sample_addresses_ordered:
  "il_address (sample_leaf 16 Human) < il_address (sample_leaf 80 Newbie)"
  "il_address (sample_leaf 80 Newbie) < il_address (sample_leaf 144 Verified)"
  using sample_address_first [of 16 Human] sample_address_first [of 80 Newbie] sample_address_first [of 144 Verified]
  by (auto simp: hex_digit_def less_char_def)

lemma sample_sorted: "Sorting_Algorithms.sort (asc il_address) sample_leaves = sample_leaves"
  using sample_addresses_ordered
  by (intro sort_sorted_id) (simp add: sample_leaves_def sorted_iff_wrt order.strict_trans [OF sample_addresses_ordered])

lemma sample_distinct: "distinct (map il_address sample_leaves)"
  using sample_addresses_ordered order.strict_trans [OF sample_addresses_ordered]
  by (simp add: sample_leaves_def order.strict_implies_not_eq)

lemma sample_snapshot_built:
  "build_identity_metrics_snapshot window_hash sample_leaves = Ok sample_snapshot"
proof -
  have n: "normalized_metrics_leaf window_hash (sample_leaf n state) = Ok (sample_leaf n state)"
    if "(s, state) \<in> {(3, Human), (2, Verified), (1, Newbie)}" for n and s :: u8 and state
    using sample_leaf_data(2) [OF that] sample_address(1) [of n]
    by (simp add: normalized_metrics_leaf_def sample_leaf_def Let_def del: append.simps)
  have "try_map (normalized_metrics_leaf window_hash) sample_leaves = Ok sample_leaves"
    using n by (simp add: sample_leaves_def)
  moreover have "check_snapshot_leaves bt_empty None sample_leaves = Ok ()"
    using sample_distinct by (auto simp: sample_leaves_def leaf_boundary_def sample_leaf_def simp del: append.simps)
  moreover have "try_map (hash_identity_metrics_leaf window_hash) sample_leaves = Ok sample_hashes"
    using sample_leaves_hashed by (simp add: res_simps)
  moreover have "\<not> MAX_IDENTITY_METRICS_LEAVES < length sample_leaves"
    by (simp add: MAX_IDENTITY_METRICS_LEAVES_def sample_leaves_def)
  ultimately show ?thesis
    by (simp add: build_identity_metrics_snapshot_def sample_sorted Let_def sample_snapshot_def snapshot_of_def)
qed

definition sample_proof :: GovernanceIdentityMetricsProofV1 where
  "sample_proof = identity_proof window_hash sample_leaves sample_hashes 2"

lemma sample_proof_verifies: "verify_identity_metrics_proof window_hash sample_proof (bm_root sample_snapshot) = Ok ()"
  unfolding sample_proof_def sample_snapshot_def
proof (rule identity_proof_verifies [OF window_hash_codec sample_leaves_hashed])
  fix l assume "l \<in> set sample_leaves"
  then show "normalize_address window_hash (il_address l) = Ok (il_address l)"
    using sample_address(1) by (auto simp: sample_leaves_def sample_leaf_def simp del: append.simps)
qed (simp_all add: sample_leaves_def)

definition sample_pairs :: "(bytes \<times> bytes) list" where
  "sample_pairs = tree_pairs (hash_merkle_node window_hash) sample_hashes"

definition sample_inputs :: "bytes list" where
  "sample_inputs = [sample_data 16 3, sample_data 80 1, sample_data 144 2] @ map (\<lambda>(a, b). merkle_node_data a b) sample_pairs
     @ [merkle_root_data (metrics_merkle_root window_hash sample_hashes) 3]"

lemma sample_inputs_separate: "distinct (map (sha256 window_hash) sample_inputs)"
  by code_simp

lemma sample_preimages:
  "set (snapshot_preimages window_hash sample_leaves) \<subseteq> set sample_inputs"
  "set (proof_preimages window_hash sample_proof) \<subseteq> set sample_inputs"
proof -
  have m: "try_map (hash_identity_metrics_leaf window_hash) sample_leaves = Ok sample_hashes"
    using sample_leaves_hashed by (simp add: res_simps)
  have l: "leaf_preimages window_hash (sample_leaf 16 Human) = [sample_data 16 3]"
    "leaf_preimages window_hash (sample_leaf 80 Newbie) = [sample_data 80 1]"
    "leaf_preimages window_hash (sample_leaf 144 Verified) = [sample_data 144 2]"
    using sample_leaf_data(1) by (simp_all add: leaf_preimages_def)
  show "set (snapshot_preimages window_hash sample_leaves) \<subseteq> set sample_inputs"
    unfolding snapshot_preimages_def m by (simp add: sample_leaves_def l sample_inputs_def sample_pairs_def sample_hashes_def)
  let ?f = "hash_merkle_node window_hash"
  obtain a b c where hs: "sample_hashes = [a, b, c]" by (simp add: sample_hashes_def)
  have h: "hash_identity_metrics_leaf window_hash (sample_leaf 144 Verified) = Ok c"
    using sample_leaves_hashed by (simp add: hs sample_leaves_def)
  have "length c = 32" "length (?f a b) = 32"
    using window_hash_codec(2) h by (auto simp: digest_32_def hash_merkle_node_def elim: leaf_hash_Ok)
  then have "decode_hash window_hash (hex_encode window_hash c) = Some c"
    "decode_hash window_hash (hex_encode window_hash (?f a b)) = Some (?f a b)"
    by (simp_all add: decode_encode_hash [OF window_hash_codec(1)])
  note tree = three_leaf_tree [where node = ?f, OF this]
  show "set (proof_preimages window_hash sample_proof) \<subseteq> set sample_inputs"
    by (simp add: proof_preimages_def sample_proof_def identity_proof_def sample_leaves_def hs h l tree
        sample_inputs_def sample_pairs_def metrics_merkle_root_def del: climb.simps climb_pairs.simps)
qed

lemma sample_collision_free:
  "inj_on (sha256 window_hash) (set (proof_preimages window_hash sample_proof)
     \<union> set (snapshot_preimages window_hash (bm_leaves sample_snapshot)))"
proof -
  have "bm_leaves sample_snapshot = sample_leaves" by (simp add: sample_snapshot_def snapshot_of_def)
  moreover have "inj_on (sha256 window_hash) (set sample_inputs)"
    using sample_inputs_separate by (simp add: distinct_map)
  ultimately show ?thesis using sample_preimages by (auto intro: inj_on_subset)
qed

theorem metrics_proofs_verify_witness:
  "\<exists>proof. bt_get (bm_proofs sample_snapshot) (il_address (sample_leaf 80 Newbie)) = Some proof
    \<and> ip_leaf proof = sample_leaf 80 Newbie
    \<and> verify_identity_metrics_proof window_hash proof (bm_root sample_snapshot) = Ok ()"
  by (rule metrics_proofs_verify [OF window_hash_codec sample_snapshot_built])
    (simp add: sample_snapshot_def snapshot_of_def sample_leaves_def)

theorem metrics_proof_binds_leaf_witness:
  "unat (ip_leaf_count sample_proof) = length (bm_leaves sample_snapshot)
    \<and> unat (ip_index sample_proof) < length (bm_leaves sample_snapshot)
    \<and> ip_leaf sample_proof = bm_leaves sample_snapshot ! unat (ip_index sample_proof)"
  by (rule metrics_proof_binds_leaf [OF window_hash_codec sample_snapshot_built sample_proof_verifies sample_collision_free])

end
