(* ===== verification/GovTypes.thy ===== *)
theory GovTypes
  imports GovMetrics
begin

text \<open>
  \<open>governance-core\<close>: the parameter set (\<open>types.rs\<close>), the data types of the governance engine
  (\<open>lifecycle.rs\<close>), and the amount arithmetic they share. Constructor names that occur in two enums of
  the source carry the enum's name here.
\<close>

section \<open>Parameters\<close>

record StatusBps =
  sb_human :: u16
  sb_verified :: u16
  sb_newbie :: u16

record ProposalBondPolicy =
  bp_minimum_bond_atoms :: string
  bp_rejected_return_bps :: u16
  bp_stale_processing_fee_atoms :: string
  bp_expired_slash_bps :: u16

record ObjectiveSlashPolicy =
  os_fraudulent_proposal_slash_bps :: u16
  os_fraudulent_reviewer_slash_bps :: u16
  os_fraudulent_builder_slash_bps :: u16
  os_unavailable_data_slash_bps :: u16
  os_fraudulent_actor_stake_slash_bps :: u16

record GovernanceParameterSetV1 =
  gs_schema_version :: u16
  gs_idna_atoms_per_unit :: string
  gs_stake_quantum_atoms :: string
  gs_minimum_active_stake_atoms :: string
  gs_status_bps :: StatusBps
  gs_flip_prior_reported :: u16
  gs_flip_prior_total :: u16
  gs_flip_trust_floor_bps :: u16
  gs_flip_trust_ceiling_bps :: u16
  gs_flip_penalty_scale :: u16
  gs_activation_delay_epochs :: u16
  gs_unbonding_delay_epochs :: u16
  gs_review_period_blocks :: u64
  gs_voting_period_blocks :: u64
  gs_challenge_period_blocks :: u64
  gs_timelock_blocks :: u64
  gs_execution_window_blocks :: u64
  gs_minimum_identity_metrics_attestations :: u32
  gs_minimum_reviewer_bond_atoms :: string
  gs_minimum_builder_bond_atoms :: string
  gs_minimum_data_availability_bond_atoms :: string
  gs_normal :: GateParameterSet
  gs_critical :: GateParameterSet
  gs_proposal_bond_policy :: ProposalBondPolicy
  gs_objective_slash_policy :: ObjectiveSlashPolicy

definition experimental_defaults :: GovernanceParameterSetV1 where
  "experimental_defaults = \<lparr>
     gs_schema_version = 1,
     gs_idna_atoms_per_unit = ''1000000000000000000'',
     gs_stake_quantum_atoms = ''1000000000000'',
     gs_minimum_active_stake_atoms = ''1000000000000000000'',
     gs_status_bps = \<lparr>sb_human = 10000, sb_verified = 8500, sb_newbie = 7000\<rparr>,
     gs_flip_prior_reported = 1,
     gs_flip_prior_total = 20,
     gs_flip_trust_floor_bps = 4000,
     gs_flip_trust_ceiling_bps = 10000,
     gs_flip_penalty_scale = 15000,
     gs_activation_delay_epochs = 1,
     gs_unbonding_delay_epochs = 4,
     gs_review_period_blocks = 40,
     gs_voting_period_blocks = 120,
     gs_challenge_period_blocks = 60,
     gs_timelock_blocks = 60,
     gs_execution_window_blocks = 600,
     gs_minimum_identity_metrics_attestations = 3,
     gs_minimum_reviewer_bond_atoms = ''1000000000000000000'',
     gs_minimum_builder_bond_atoms = ''1000000000000000000'',
     gs_minimum_data_availability_bond_atoms = ''1000000000000000000'',
     gs_normal = \<lparr>gp_turnout_quorum_bps = 2000, gp_yes_threshold_bps = 6667, gp_minimum_yes_identities = 7,
       gp_minimum_verified_or_human_yes = 3, gp_minimum_agent_attestations = 3,
       gp_minimum_agent_runtime_groups = 2, gp_minimum_agent_families = 2, gp_minimum_agent_owners = 2,
       gp_critical_finding_owner_threshold = 2, gp_minimum_builders = 2, gp_minimum_builder_platforms = 1,
       gp_minimum_data_availability_providers = 2\<rparr>,
     gs_critical = \<lparr>gp_turnout_quorum_bps = 3000, gp_yes_threshold_bps = 7500, gp_minimum_yes_identities = 12,
       gp_minimum_verified_or_human_yes = 5, gp_minimum_agent_attestations = 5,
       gp_minimum_agent_runtime_groups = 3, gp_minimum_agent_families = 3, gp_minimum_agent_owners = 3,
       gp_critical_finding_owner_threshold = 3, gp_minimum_builders = 3, gp_minimum_builder_platforms = 2,
       gp_minimum_data_availability_providers = 3\<rparr>,
     gs_proposal_bond_policy = \<lparr>bp_minimum_bond_atoms = ''10000000000000000000'', bp_rejected_return_bps = 9000,
       bp_stale_processing_fee_atoms = ''100000000000000000'', bp_expired_slash_bps = 2500\<rparr>,
     gs_objective_slash_policy = \<lparr>os_fraudulent_proposal_slash_bps = 5000,
       os_fraudulent_reviewer_slash_bps = 10000, os_fraudulent_builder_slash_bps = 10000,
       os_unavailable_data_slash_bps = 5000, os_fraudulent_actor_stake_slash_bps = 500\<rparr>\<rparr>"

section \<open>States, inputs and errors\<close>

record GovernanceClock =
  ck_block :: u64
  ck_epoch :: u16

datatype ProposalState =
    Draft
  | ReviewOpen
  | VotingOpen
  | AcceptedPendingChallenge
  | Rejected
  | Challenged
  | AcceptedPendingExecution
  | Executed
  | Stale
  | Expired

datatype ReviewRoundState =
    Round_Open
  | Round_AvailabilityOpen
  | Round_Frozen
  | Round_Claimed
  | Round_Expired

record ChangeProposalContentV1 =
  cp_schema_version :: u16
  cp_scope_evidence_cid :: string
  cp_governance_parameter_set_cid :: string
  cp_parent_canonical_ecosystem_cid :: string
  cp_candidate_ecosystem_cid :: string
  cp_affected_repositories :: "string list"
  cp_changed_file_count :: u32
  cp_patch_bytes :: u64
  cp_source_package_bytes :: u64
  cp_description_bytes :: u32
  cp_migration_operation_count :: u32
  cp_base_source_cids :: "(string, string) btree"
  cp_candidate_source_cids :: "(string, string) btree"
  cp_patch_cid :: string
  cp_review_round_id :: string
  cp_proposer_address :: string
  cp_proposal_bond_atoms :: u128
  cp_risk_class :: RiskClass
  cp_rationale_cid :: string
  cp_migration_notes_cid :: string
  cp_test_plan_cid :: string
  cp_rollback_manifest_cid :: string
  cp_rollback_instructions_cid :: string
  cp_release_manifest_cid :: "string option"
  cp_critical_finding_waiver_cid :: "string option"
  cp_agent_review_root :: string
  cp_build_attestation_root :: string
  cp_data_availability_root :: string
  cp_creation_block :: u64
  cp_creation_epoch :: u16
  cp_staking_epoch :: u16
  cp_identity_metrics_epoch :: u16
  cp_candidate_identity_metrics_root :: "string option"
  cp_candidate_identity_metrics_epoch :: "u16 option"
  cp_voting_start :: u64
  cp_voting_end :: u64
  cp_challenge_end :: u64

datatype AttestationVerdict = Verdict_Approve | Verdict_Reject | Verdict_Abstain

record AgentAttestationInputV1 =
  aa_attestation_cid :: string
  aa_attestation_car :: bytes
  aa_parent_ecosystem_cid :: string
  aa_candidate_ecosystem_cid :: string
  aa_patch_cid :: string
  aa_owner_address :: string
  aa_model_identifier :: string
  aa_model_revision :: "string option"
  aa_runtime_identifier :: string
  aa_independence_group :: string
  aa_verdict :: AttestationVerdict
  aa_unresolved_critical_findings :: u32
  aa_test_result_cid :: string
  aa_tests_passed_claim :: bool
  aa_bond_atoms :: u128

record BuildAttestationInputV1 =
  ba_attestation_cid :: string
  ba_attestation_car :: bytes
  ba_candidate_ecosystem_cid :: string
  ba_builder_address :: string
  ba_runtime_family :: string
  ba_architecture :: string
  ba_core_artifact_digest :: string
  ba_test_result_cid :: string
  ba_tests_passed_claim :: bool
  ba_bond_atoms :: u128

record DataAvailabilityAttestationInputV1 =
  da_attestation_cid :: string
  da_attestation_car :: bytes
  da_candidate_ecosystem_cid :: string
  da_provider_id :: string
  da_operator_address :: string
  da_pinset_cid :: string
  da_verified_cids :: "string list"
  da_probe_result_cid :: string
  da_available_claim :: bool
  da_expires_at_block :: u64
  da_bond_atoms :: u128

record GovernanceVoteReceiptV1 =
  vr_schema_version :: u16
  vr_proposal_id :: string
  vr_voter_address :: string
  vr_choice :: VoteChoice
  vr_staking_epoch :: u16
  vr_identity_metrics_epoch :: u16
  vr_active_stake_atoms :: u128
  vr_stake_score :: u128
  vr_identity_status_bps :: u16
  vr_flip_trust_bps :: u16
  vr_effective_vote_weight :: u128
  vr_cast_at_block :: u64

datatype ObjectiveChallengeTarget = AgentTestResult | BuilderTestResult | DataAvailabilityProbe

record ObjectiveChallengeInputV1 =
  oc_challenger_address :: string
  oc_target :: ObjectiveChallengeTarget
  oc_attestation_cid :: string
  oc_evidence_cid :: string
  oc_evidence_bytes :: bytes

datatype GovernanceEvent =
  CanonicalEcosystemChanged (old_cid: string) (new_cid: string) (event_proposal_id: string)
    (event_agent_review_root: string) (event_build_attestation_root: string) (event_data_availability_root: string)

record StakePositionView =
  sv_pending_activation_atoms :: u128
  sv_active_atoms :: u128
  sv_scheduled_withdrawal_atoms :: u128
  sv_unbonding_atoms :: u128

datatype GovernanceError =
    GE_InvalidParameters string
  | GE_InvalidAddress
  | GE_InvalidContentAddress string
  | GE_Overflow
  | GE_InsufficientAmount
  | GE_InvalidIdentityProof
  | GE_InvalidProposal
  | GE_StaleParent
  | GE_Duplicate
  | GE_ProposalNotFound
  | GE_ReviewRoundNotFound
  | GE_ReviewRoundFull
  | GE_InvalidReviewRoundState ReviewRoundState
  | GE_InvalidState ProposalState
  | GE_InvalidDeadline
  | GE_InvalidAttestation
  | GE_IneligibleVoter
  | GE_InsufficientActiveStake
  | GE_StakeSlashReserved
  | GE_InvalidChallenge
  | GE_NoRefund

section \<open>Engine state\<close>

record StakeLot =
  sl_atoms :: u128
  sl_activation_epoch :: u16

record ScheduledWithdrawal =
  sw_atoms :: u128
  sw_start_epoch :: u16
  sw_release_epoch :: u16

record StakePosition =
  sp_active_atoms :: u128
  sp_pending :: "StakeLot list"
  sp_scheduled :: "ScheduledWithdrawal list"
  sp_unbonding :: "ScheduledWithdrawal list"

definition default_position :: StakePosition where
  "default_position = \<lparr>sp_active_atoms = 0, sp_pending = [], sp_scheduled = [], sp_unbonding = []\<rparr>"

record VoterSnapshot =
  vs_stake_atoms :: u128
  vs_status_bps :: u16
  vs_state :: IdentityState
  vs_trust_bps :: u16
  vs_weight :: u128

text \<open>\<open>BondedAgentAttestation\<close>, \<open>BondedBuildAttestation\<close> and \<open>BondedDataAvailabilityAttestation\<close>.\<close>

record 'i Bonded =
  bo_input :: 'i
  bo_settled :: bool
  bo_invalid :: bool

type_synonym 'i bonds = "(string, 'i Bonded) btree"

datatype BondTarget = Target_Agent | Target_Builder | Target_Availability

record PendingChallenge =
  pc_input :: ObjectiveChallengeInputV1
  pc_target_type :: BondTarget

record CriticalFindingWaiverV1 =
  fw_schema_version :: u16
  fw_review_round_id :: string
  fw_parent_ecosystem_cid :: string
  fw_candidate_ecosystem_cid :: string
  fw_patch_cid :: string
  fw_risk_class :: RiskClass
  fw_agent_review_root :: string
  fw_unresolved_critical_owner_count :: u32
  fw_scope :: string
  fw_rationale_cid :: string
  fw_author_idena_address :: string
  fw_creation_block :: u64

record ProposalRecord =
  pr_id :: string
  pr_state :: ProposalState
  pr_content :: ChangeProposalContentV1
  pr_proposal_bond_settled :: bool
  pr_agents :: "AgentAttestationInputV1 bonds"
  pr_builders :: "BuildAttestationInputV1 bonds"
  pr_availability :: "DataAvailabilityAttestationInputV1 bonds"
  pr_required_availability_cids :: "string btset"
  pr_critical_finding_waiver :: "CriticalFindingWaiverV1 option"
  pr_voter_snapshot :: "(string, VoterSnapshot) btree"
  pr_votes :: "(string, GovernanceVoteReceiptV1) btree"
  pr_yes_weight :: u128
  pr_no_weight :: u128
  pr_abstain_weight :: u128
  pr_total_registered_weight :: u128
  pr_gates :: "GateResults option"
  pr_pending_challenge :: "PendingChallenge option"
  pr_challenge_end :: u64
  pr_execution_not_before :: u64
  pr_execution_expires :: u64

record ScopeChangeV1 =
  sc_path :: string
  sc_change_kind :: string
  sc_size :: u64

record RepositoryScopeEvidenceV1 =
  re_repository :: string
  re_base_source_cid :: string
  re_candidate_source_cid :: string
  re_patch_cid :: string
  re_patch_sha256 :: string
  re_base_manifest_dag_cbor_hex :: string
  re_candidate_manifest_dag_cbor_hex :: string
  re_patch_dag_cbor_hex :: string
  re_patch_content_bytes :: u64
  re_candidate_content_bytes :: u64
  re_changes :: "ScopeChangeV1 list"

record ProposalScopeEvidenceV1 =
  se_schema_version :: u16
  se_classifier_version :: string
  se_parent_ecosystem_cid :: string
  se_candidate_ecosystem_cid :: string
  se_patch_cid :: string
  se_repositories :: "RepositoryScopeEvidenceV1 list"
  se_rationale_bytes :: u32
  se_migration_notes_bytes :: u32
  se_test_plan_bytes :: u32
  se_changed_file_count :: u32
  se_patch_bytes :: u64
  se_source_package_bytes :: u64
  se_description_bytes :: u32
  se_migration_operation_count :: u32
  se_derived_risk_class :: RiskClass

record RepositoryCidV1 =
  rc_repository :: string
  rc_cid :: string

record ReviewRoundRecord =
  rr_id :: string
  rr_state :: ReviewRoundState
  rr_parent_cid :: string
  rr_candidate_cid :: string
  rr_patch_cid :: string
  rr_scope_evidence_cid :: string
  rr_scope_evidence :: ProposalScopeEvidenceV1
  rr_affected_repositories :: "string list"
  rr_base_source_cids :: "(string, string) btree"
  rr_candidate_source_cids :: "(string, string) btree"
  rr_all_candidate_source_cids :: "RepositoryCidV1 list"
  rr_candidate_artifact_keys :: "string btset"
  rr_toolchain_cid :: string
  rr_pinset_cid :: string
  rr_pinset_cids :: "string list"
  rr_required_availability_cids :: "string btset"
  rr_opener_address :: string
  rr_opened_block :: u64
  rr_end_block :: u64
  rr_claim_deadline :: u64
  rr_proposal_id :: "string option"
  rr_bond_atoms :: u128
  rr_bond_settled :: bool
  rr_agent_review_root :: "string option"
  rr_build_attestation_root :: "string option"
  rr_data_availability_root :: "string option"
  rr_critical_finding_waiver_cid :: "string option"
  rr_critical_finding_waiver :: "CriticalFindingWaiverV1 option"
  rr_agents :: "AgentAttestationInputV1 bonds"
  rr_builders :: "BuildAttestationInputV1 bonds"
  rr_availability :: "DataAvailabilityAttestationInputV1 bonds"

text \<open>
  The certification records of identity metrics belong to operations that read CAR files and are left
  out of the state; no modelled operation reads or writes them.
\<close>

record GovernanceEngine =
  ge_canonical_ecosystem_cid :: string
  ge_governance_parameter_set_cid :: string
  ge_parameters :: GovernanceParameterSetV1
  ge_metrics_root :: string
  ge_metrics_epoch :: u16
  ge_stakes :: "(string, StakePosition) btree"
  ge_registered_metrics :: "(string, GovernanceIdentityMetricsLeafV1) btree"
  ge_review_rounds :: "(string, ReviewRoundRecord) btree"
  ge_active_review_candidates :: "(string, string) btree"
  ge_proposals :: "(string, ProposalRecord) btree"
  ge_refunds :: "(string, u128) btree"
  ge_burned_atoms :: u128
  ge_events :: "GovernanceEvent list"

section \<open>Amounts\<close>

definition parse_atoms :: "string \<Rightarrow> (GovernanceError, u128) res" where
  "parse_atoms v =
     (if v = [] \<or> (length v > 1 \<and> hd v = CHR ''0'') \<or> \<not> list_all is_ascii_digit v
      then Err (GE_InvalidParameters ''atomic amount is not canonical decimal'')
      else ok_or GE_Overflow (parse_word v))"

definition checked_sum :: "u128 list \<Rightarrow> (GovernanceError, u128) res" where
  "checked_sum values = try_sum GE_Overflow values"

definition apply_bps :: "u128 \<Rightarrow> u16 \<Rightarrow> (GovernanceError, u128) res" where
  "apply_bps v bps0 = (let bps = ucast bps0 in
     bindR (ok_or GE_Overflow (checked_mul (v div 10000) bps)) (\<lambda>whole.
     let remainder = (v mod 10000) * bps div 10000 in
     ok_or GE_Overflow (checked_add whole remainder)))"

definition valid_gate_parameters :: "GateParameterSet \<Rightarrow> bool" where
  "valid_gate_parameters g \<longleftrightarrow>
     gp_turnout_quorum_bps g > 0
     \<and> gp_turnout_quorum_bps g \<le> 10000
     \<and> gp_yes_threshold_bps g > 0
     \<and> gp_yes_threshold_bps g \<le> 10000
     \<and> gp_minimum_yes_identities g > 0
     \<and> gp_minimum_verified_or_human_yes g \<le> gp_minimum_yes_identities g
     \<and> gp_minimum_agent_attestations g > 0
     \<and> gp_minimum_agent_runtime_groups g = gp_minimum_agent_owners g
     \<and> gp_minimum_agent_runtime_groups g \<le> gp_minimum_agent_attestations g
     \<and> gp_minimum_agent_families g > 0
     \<and> gp_minimum_agent_families g \<le> gp_minimum_agent_attestations g
     \<and> gp_minimum_agent_owners g > 0
     \<and> gp_critical_finding_owner_threshold g \<ge> 2
     \<and> gp_critical_finding_owner_threshold g \<le> gp_minimum_agent_owners g
     \<and> gp_minimum_builders g > 0
     \<and> gp_minimum_builder_platforms g > 0
     \<and> gp_minimum_builder_platforms g \<le> gp_minimum_builders g
     \<and> gp_minimum_data_availability_providers g \<ge> 2"

definition validate_governance_parameters :: "GovernanceParameterSetV1 \<Rightarrow> (GovernanceError, unit) res" where
  "validate_governance_parameters p =
     (if gs_schema_version p \<noteq> 1
        \<or> gs_idna_atoms_per_unit p \<noteq> ''1000000000000000000''
        \<or> gs_stake_quantum_atoms p \<noteq> ''1000000000000''
        \<or> sb_human (gs_status_bps p) \<noteq> 10000
        \<or> sb_verified (gs_status_bps p) \<noteq> 8500
        \<or> sb_newbie (gs_status_bps p) \<noteq> 7000
        \<or> \<not> (sb_human (gs_status_bps p) > sb_verified (gs_status_bps p)
            \<and> sb_verified (gs_status_bps p) > sb_newbie (gs_status_bps p))
        \<or> gs_flip_prior_reported p \<noteq> 1
        \<or> gs_flip_prior_total p \<noteq> 20
        \<or> gs_flip_trust_floor_bps p \<noteq> 4000
        \<or> gs_flip_trust_ceiling_bps p \<noteq> 10000
        \<or> gs_flip_penalty_scale p \<noteq> 15000
        \<or> gs_activation_delay_epochs p = 0
        \<or> gs_unbonding_delay_epochs p \<le> gs_activation_delay_epochs p
        \<or> gs_review_period_blocks p = 0
        \<or> gs_voting_period_blocks p = 0
        \<or> gs_challenge_period_blocks p = 0
        \<or> gs_timelock_blocks p = 0
        \<or> gs_execution_window_blocks p = 0
        \<or> gs_minimum_identity_metrics_attestations p = 0
        \<or> \<not> valid_gate_parameters (gs_normal p)
        \<or> \<not> valid_gate_parameters (gs_critical p)
        \<or> bp_rejected_return_bps (gs_proposal_bond_policy p) > 10000
        \<or> bp_expired_slash_bps (gs_proposal_bond_policy p) > 10000
        \<or> os_fraudulent_proposal_slash_bps (gs_objective_slash_policy p) > 10000
        \<or> os_fraudulent_reviewer_slash_bps (gs_objective_slash_policy p) > 10000
        \<or> os_fraudulent_builder_slash_bps (gs_objective_slash_policy p) > 10000
        \<or> os_unavailable_data_slash_bps (gs_objective_slash_policy p) > 10000
        \<or> os_fraudulent_actor_stake_slash_bps (gs_objective_slash_policy p) > 10000
      then Err (GE_InvalidParameters ''fixed formula or lifecycle invariant violated'')
      else try_each (\<lambda>v. bindR (parse_atoms v) (\<lambda>_. Ok ()))
        [gs_minimum_active_stake_atoms p, gs_minimum_reviewer_bond_atoms p, gs_minimum_builder_bond_atoms p,
         gs_minimum_data_availability_bond_atoms p, bp_minimum_bond_atoms (gs_proposal_bond_policy p),
         bp_stale_processing_fee_atoms (gs_proposal_bond_policy p)])"

end
