(* ===== verification/GovCommit.thy ===== *)
theory GovCommit
  imports GovTypes
begin

text \<open>
  \<open>governance-core/src/lifecycle.rs\<close>: content addresses, and the Merkle commitments to the agent,
  build and data-availability attestations of a review round.
\<close>

section \<open>Content addresses and labels\<close>

definition normalize_governance_address :: "extern \<Rightarrow> string \<Rightarrow> (GovernanceError, string) res" where
  "normalize_governance_address X v = map_err (\<lambda>_. GE_InvalidAddress) (normalize_address X v)"

text \<open>The codecs are \<open>RAW_CODEC = 0x55\<close> and \<open>DAG_CBOR_CODEC = 0x71\<close>, the hash code is SHA-256's \<open>0x12\<close>.\<close>

definition validate_profile_cid :: "extern \<Rightarrow> string \<Rightarrow> nat option \<Rightarrow> (GovernanceError, unit) res" where
  "validate_profile_cid X v expected_codec = (case parse_cid X v of
     None \<Rightarrow> Err (GE_InvalidContentAddress v)
   | Some cid \<Rightarrow>
       if \<not> cid_is_v1 cid
          \<or> (case expected_codec of Some codec \<Rightarrow> cid_codec cid \<noteq> codec | None \<Rightarrow> cid_codec cid \<notin> {85, 113})
          \<or> cid_hash_code cid \<noteq> 18 \<or> cid_digest_len cid \<noteq> 32 \<or> cid_to_string cid \<noteq> v
       then Err (GE_InvalidContentAddress v) else Ok ())"

definition validate_canonical_cid :: "extern \<Rightarrow> string \<Rightarrow> (GovernanceError, unit) res" where
  "validate_canonical_cid X v = validate_profile_cid X v (Some 113)"

definition validate_raw_content_cid :: "extern \<Rightarrow> string \<Rightarrow> (GovernanceError, unit) res" where
  "validate_raw_content_cid X v = validate_profile_cid X v (Some 85)"

definition validate_sha256 :: "string \<Rightarrow> (GovernanceError, unit) res" where
  "validate_sha256 v =
     (if length v \<noteq> 64 \<or> \<not> list_all is_lower_hexdigit v then Err (GE_InvalidContentAddress v) else Ok ())"

definition validate_safe_label :: "string \<Rightarrow> nat \<Rightarrow> (GovernanceError, unit) res" where
  "validate_safe_label v max_length =
     (if v = [] \<or> length v > max_length
        \<or> \<not> list_all (\<lambda>c. is_ascii_lowercase c \<or> is_ascii_digit c \<or> c \<in> set ''-._'') v
      then Err GE_InvalidAttestation else Ok ())"

definition validate_attestation_domain :: "string \<Rightarrow> (GovernanceError, unit) res" where
  "validate_attestation_domain domain =
     bindR (validate_safe_label domain 40) (\<lambda>_.
     if domain \<notin> {''agent_review_v1'', ''build_attestation_v1'', ''data_availability_v1''}
     then Err GE_InvalidAttestation else Ok ())"

definition validate_canonical_attestation_fields :: "string \<Rightarrow> (GovernanceError, unit) res" where
  "validate_canonical_attestation_fields v =
     (if v = [] \<or> length v > 2048
        \<or> \<not> list_all (\<lambda>c. 32 \<le> code c \<and> code c \<le> 126 \<and> code c \<noteq> 92) v
      then Err GE_InvalidAttestation else Ok ())"

definition commitment_address :: "extern \<Rightarrow> string \<Rightarrow> (GovernanceError, string) res" where
  "commitment_address X v = bindR (normalize_governance_address X v) (\<lambda>a. Ok (drop 2 a))"

section \<open>Committed fields\<close>

definition agent_attestation_commitment_fields ::
  "extern \<Rightarrow> string \<Rightarrow> string \<Rightarrow> string \<Rightarrow> u32 \<Rightarrow> (GovernanceError, string) res" where
  "agent_attestation_commitment_fields X attestation_cid model_family owner_address unresolved =
     bindR (validate_canonical_cid X attestation_cid) (\<lambda>_.
     bindR (validate_safe_label model_family 64) (\<lambda>_.
     bindR (commitment_address X owner_address) (\<lambda>owner.
     Ok (attestation_cid @ ''|'' @ model_family @ ''|'' @ owner @ ''|'' @ show_word unresolved))))"

definition build_attestation_commitment_fields ::
  "extern \<Rightarrow> string \<Rightarrow> string \<Rightarrow> string \<Rightarrow> string \<Rightarrow> string \<Rightarrow> (GovernanceError, string) res" where
  "build_attestation_commitment_fields X attestation_cid artifact_digest runtime_family architecture owner_address =
     bindR (validate_canonical_cid X attestation_cid) (\<lambda>_.
     bindR (validate_sha256 artifact_digest) (\<lambda>_.
     bindR (validate_safe_label runtime_family 31) (\<lambda>_.
     bindR (validate_safe_label architecture 31) (\<lambda>_.
     let platform = runtime_family @ ''-'' @ architecture in
     bindR (validate_safe_label platform 64) (\<lambda>_.
     bindR (commitment_address X owner_address) (\<lambda>owner.
     Ok (attestation_cid @ ''|'' @ artifact_digest @ ''|'' @ platform @ ''|'' @ owner)))))))"

definition data_availability_commitment_fields ::
  "extern \<Rightarrow> string \<Rightarrow> string \<Rightarrow> string \<Rightarrow> string \<Rightarrow> string \<Rightarrow> (GovernanceError, string) res" where
  "data_availability_commitment_fields X attestation_cid candidate_ecosystem_cid pinset_cid provider_id owner_address =
     bindR (validate_canonical_cid X attestation_cid) (\<lambda>_.
     bindR (validate_canonical_cid X candidate_ecosystem_cid) (\<lambda>_.
     bindR (validate_canonical_cid X pinset_cid) (\<lambda>_.
     bindR (validate_safe_label provider_id 80) (\<lambda>_.
     bindR (commitment_address X owner_address) (\<lambda>owner.
     Ok (attestation_cid @ ''|'' @ candidate_ecosystem_cid @ ''|'' @ pinset_cid @ ''|'' @ provider_id @ ''|'' @ owner))))))"

section \<open>Commitments\<close>

record CidCommitmentProofV1 =
  cc_index :: u64
  cc_leaf_count :: u64
  cc_siblings :: "string list"

record BuiltCidCommitment =
  bc_root :: string
  bc_proofs :: "(string, CidCommitmentProofV1) btree"

record AttestationCommitmentEntryV1 =
  ce_attestation_cid :: string
  ce_canonical_fields :: string

definition MAX_REVIEW_ATTESTATIONS_PER_CLASS :: nat where
  "MAX_REVIEW_ATTESTATIONS_PER_CLASS = 256"

definition hash_attestation_commitment_leaf :: "extern \<Rightarrow> string \<Rightarrow> string \<Rightarrow> bytes" where
  "hash_attestation_commitment_leaf X domain canonical_fields =
     sha256 X (as_bytes domain @ [0] @ as_bytes canonical_fields)"

definition hash_attestation_commitment_node :: "extern \<Rightarrow> bytes \<Rightarrow> bytes \<Rightarrow> bytes" where
  "hash_attestation_commitment_node X left right =
     sha256 X (as_bytes ''IDENA_GOV_ATTESTATION_MERKLE_V1'' @ [0] @ left @ right)"

definition committed_attestation_root :: "extern \<Rightarrow> string \<Rightarrow> u64 \<Rightarrow> bytes \<Rightarrow> bytes" where
  "committed_attestation_root X domain leaf_count root =
     sha256 X (as_bytes ''IDENA_GOV_ATTESTATION_ROOT_V1'' @ [0] @ as_bytes domain @ [0] @ to_be_bytes leaf_count @ root)"

fun commitment_hashes ::
  "extern \<Rightarrow> string \<Rightarrow> string btset \<Rightarrow> AttestationCommitmentEntryV1 list \<Rightarrow> (GovernanceError, bytes list) res" where
  "commitment_hashes X domain seen [] = Ok []"
| "commitment_hashes X domain seen (entry # es) =
     bindR (validate_canonical_cid X (ce_attestation_cid entry)) (\<lambda>_.
     bindR (validate_canonical_attestation_fields (ce_canonical_fields entry)) (\<lambda>_.
     if bt_contains seen (ce_attestation_cid entry) then Err GE_Duplicate
     else bindR (commitment_hashes X domain (bs_insert (ce_attestation_cid entry) seen) es) (\<lambda>hs.
       Ok (hash_attestation_commitment_leaf X domain (ce_canonical_fields entry) # hs))))"

definition build_attestation_commitment ::
  "extern \<Rightarrow> string \<Rightarrow> AttestationCommitmentEntryV1 list \<Rightarrow> (GovernanceError, BuiltCidCommitment) res" where
  "build_attestation_commitment X domain es =
     bindR (validate_attestation_domain domain) (\<lambda>_.
     if es = [] then Err GE_InvalidAttestation
     else if length es > MAX_REVIEW_ATTESTATIONS_PER_CLASS then Err GE_ReviewRoundFull
     else let canonical = Sorting_Algorithms.sort (asc ce_attestation_cid) es in
     bindR (commitment_hashes X domain bt_empty canonical) (\<lambda>hashes.
     let root = committed_attestation_root X domain (of_nat (length canonical))
           (tree_root (hash_attestation_commitment_node X) hashes) in
     Ok \<lparr>bc_root = hex_encode X root,
         bc_proofs = fold (\<lambda>index. bt_insert (ce_attestation_cid (canonical ! index))
             \<lparr>cc_index = of_nat index, cc_leaf_count = of_nat (length canonical),
              cc_siblings = map (hex_encode X) (tree_siblings (hash_attestation_commitment_node X) hashes index)\<rparr>)
           [0..<length canonical] bt_empty\<rparr>))"

definition verify_attestation_commitment ::
  "extern \<Rightarrow> string \<Rightarrow> string \<Rightarrow> string \<Rightarrow> CidCommitmentProofV1 \<Rightarrow> string \<Rightarrow> bool" where
  "verify_attestation_commitment X domain attestation_cid canonical_fields proof root =
     (if \<not> is_ok (validate_attestation_domain domain)
        \<or> \<not> is_ok (validate_canonical_cid X attestation_cid)
        \<or> \<not> is_ok (validate_canonical_attestation_fields canonical_fields)
        \<or> strip_prefix attestation_cid canonical_fields = None
        \<or> length canonical_fields \<le> length attestation_cid
        \<or> canonical_fields ! length attestation_cid \<noteq> CHR ''|''
        \<or> cc_leaf_count proof = 0
        \<or> cc_index proof \<ge> cc_leaf_count proof
        \<or> \<not> is_ok (validate_sha256 root)
        \<or> length (cc_siblings proof) \<noteq> proof_levels (cc_leaf_count proof)
      then False
      else case climb (hash_attestation_commitment_node X)
          (\<lambda>s. case hex_decode X s of Inl _ \<Rightarrow> None | Inr bs \<Rightarrow> if length bs = 32 then Some bs else None)
          (hash_attestation_commitment_leaf X domain canonical_fields) (cc_index proof) (cc_leaf_count proof) (cc_siblings proof) of
        None \<Rightarrow> False
      | Some current \<Rightarrow> hex_encode X (committed_attestation_root X domain (cc_leaf_count proof) current) = root)"

end
