(* ===== verification/GovEngine.thy ===== *)
theory GovEngine
  imports GovCommit
begin

text \<open>
  The governance engine of \<open>governance-core/src/lifecycle.rs\<close>: stakes and unbonding, voting, objective
  challenges, execution, and the settlement of bonds. A method is an action on the engine's state.
  The functions that only run inside \<open>with_atomic_state\<close> leave no trace of a failed run, so where
  their loops update in place the model writes the state once, after the loop.
\<close>

section \<open>State access\<close>

definition with_atomic_state :: "(GovernanceEngine, GovernanceError, 'a) act \<Rightarrow> (GovernanceEngine, GovernanceError, 'a) act" where
  "with_atomic_state operation e = (case operation e of
     (Ok v, e') \<Rightarrow> (Ok v, e')
   | (Err err, e') \<Rightarrow> (Err err, e)
   | (Panic, e') \<Rightarrow> (Panic, e'))"

definition proposal_mut :: "string \<Rightarrow> (GovernanceEngine, GovernanceError, ProposalRecord) act" where
  "proposal_mut proposal_id = readA (\<lambda>e. ok_or GE_ProposalNotFound (bt_get (ge_proposals e) proposal_id))"

definition put_proposal :: "string \<Rightarrow> ProposalRecord \<Rightarrow> (GovernanceEngine, GovernanceError, unit) act" where
  "put_proposal proposal_id p = modifyA (\<lambda>e. e\<lparr>ge_proposals := bt_insert proposal_id p (ge_proposals e)\<rparr>)"

definition require_state :: "ProposalRecord \<Rightarrow> ProposalState \<Rightarrow> (GovernanceError, unit) res" where
  "require_state p expected = (if pr_state p \<noteq> expected then Err (GE_InvalidState (pr_state p)) else Ok ())"

fun is_terminal :: "ProposalState \<Rightarrow> bool" where
  "is_terminal Rejected = True"
| "is_terminal Executed = True"
| "is_terminal Stale = True"
| "is_terminal Expired = True"
| "is_terminal _ = False"

definition credit_refund :: "string \<Rightarrow> u128 \<Rightarrow> (GovernanceEngine, GovernanceError, unit) act" where
  "credit_refund address amount =
     (if amount = 0 then retA ()
      else bindA (readA (\<lambda>e. ok_or GE_Overflow
          (checked_add (case bt_get (ge_refunds e) address of Some b \<Rightarrow> b | None \<Rightarrow> 0) amount))) (\<lambda>balance.
        modifyA (\<lambda>e. e\<lparr>ge_refunds := bt_insert address balance (ge_refunds e)\<rparr>)))"

text \<open>\<open>self.burned_atoms = self.burned_atoms.checked_add(amount).ok_or(Overflow)?\<close>\<close>

definition burn :: "u128 \<Rightarrow> (GovernanceEngine, GovernanceError, unit) act" where
  "burn amount = bindA (readA (\<lambda>e. ok_or GE_Overflow (checked_add (ge_burned_atoms e) amount))) (\<lambda>b.
     modifyA (\<lambda>e. e\<lparr>ge_burned_atoms := b\<rparr>))"

section \<open>Identity metrics and stakes\<close>

definition register_identity_metrics ::
  "extern \<Rightarrow> string \<Rightarrow> GovernanceIdentityMetricsProofV1 \<Rightarrow> (GovernanceEngine, GovernanceError, unit) act" where
  "register_identity_metrics X caller0 proof =
     bindA (readA (\<lambda>e.
       bindR (normalize_governance_address X caller0) (\<lambda>caller.
       bindR (normalize_governance_address X (il_address (ip_leaf proof))) (\<lambda>address.
       if address \<noteq> caller
          \<or> il_source_epoch (ip_leaf proof) \<noteq> ge_metrics_epoch e
          \<or> status_bps (il_identity_state (ip_leaf proof)) = None
          \<or> \<not> is_ok (verify_identity_metrics_proof X proof (ge_metrics_root e))
       then Err GE_InvalidIdentityProof else Ok caller)))) (\<lambda>caller.
     modifyA (\<lambda>e. e\<lparr>ge_registered_metrics := bt_insert caller (ip_leaf proof) (ge_registered_metrics e)\<rparr>))"

definition sync_lot :: "u16 \<Rightarrow> u128 \<times> StakeLot list \<Rightarrow> StakeLot \<Rightarrow> (GovernanceError, u128 \<times> StakeLot list) res" where
  "sync_lot epoch acc lot = (case acc of (active, still_pending) \<Rightarrow>
     if sl_activation_epoch lot \<le> epoch
     then bindR (ok_or GE_Overflow (checked_add active (sl_atoms lot))) (\<lambda>a. Ok (a, still_pending))
     else Ok (active, still_pending @ [lot]))"

definition sync_withdrawal ::
  "u16 \<Rightarrow> u128 \<times> ScheduledWithdrawal list \<times> ScheduledWithdrawal list \<Rightarrow> ScheduledWithdrawal \<Rightarrow>
   (GovernanceError, u128 \<times> ScheduledWithdrawal list \<times> ScheduledWithdrawal list) res" where
  "sync_withdrawal epoch acc w = (case acc of (active, unbonding, still_scheduled) \<Rightarrow>
     if sw_start_epoch w \<le> epoch
     then bindR (ok_or GE_Overflow (checked_sub active (sw_atoms w))) (\<lambda>a. Ok (a, unbonding @ [w], still_scheduled))
     else Ok (active, unbonding, still_scheduled @ [w]))"

definition sync_position :: "StakePosition \<Rightarrow> u16 \<Rightarrow> (GovernanceError, StakePosition) res" where
  "sync_position p epoch =
     bindR (try_fold (sync_lot epoch) (sp_active_atoms p, []) (sp_pending p)) (\<lambda>(active, pending_lots).
     bindR (try_fold (sync_withdrawal epoch) (active, sp_unbonding p, []) (sp_scheduled p)) (\<lambda>(active', unbonding, scheduled).
     Ok \<lparr>sp_active_atoms = active', sp_pending = pending_lots, sp_scheduled = scheduled, sp_unbonding = unbonding\<rparr>))"

text \<open>\<open>self.stakes.entry(caller).or_default()\<close>\<close>

definition stake_entry :: "GovernanceEngine \<Rightarrow> string \<Rightarrow> StakePosition" where
  "stake_entry e caller = (case bt_get (ge_stakes e) caller of Some p \<Rightarrow> p | None \<Rightarrow> default_position)"

definition put_stake :: "string \<Rightarrow> StakePosition \<Rightarrow> (GovernanceEngine, GovernanceError, unit) act" where
  "put_stake caller p = modifyA (\<lambda>e. e\<lparr>ge_stakes := bt_insert caller p (ge_stakes e)\<rparr>)"

definition register_stake ::
  "extern \<Rightarrow> string \<Rightarrow> u128 \<Rightarrow> GovernanceClock \<Rightarrow> (GovernanceEngine, GovernanceError, unit) act" where
  "register_stake X caller0 attached_atoms clock = with_atomic_state (
     bindA (readA (\<lambda>e.
       if attached_atoms = 0 then Err GE_InsufficientAmount
       else bindR (normalize_governance_address X caller0) (\<lambda>caller.
       bindR (ok_or GE_Overflow (checked_add (ck_epoch clock) (gs_activation_delay_epochs (ge_parameters e)))) (\<lambda>activation_epoch.
       bindR (sync_position (stake_entry e caller) (ck_epoch clock)) (\<lambda>position.
       Ok (caller, position\<lparr>sp_pending := sp_pending position @
         [\<lparr>sl_atoms = attached_atoms, sl_activation_epoch = activation_epoch\<rparr>]\<rparr>)))))) (\<lambda>(caller, position).
     put_stake caller position))"

definition schedule_withdrawal ::
  "extern \<Rightarrow> string \<Rightarrow> u128 \<Rightarrow> GovernanceClock \<Rightarrow> (GovernanceEngine, GovernanceError, unit) act" where
  "schedule_withdrawal X caller0 atoms clock = with_atomic_state (
     bindA (readA (\<lambda>e.
       if atoms = 0 then Err GE_InsufficientAmount
       else bindR (normalize_governance_address X caller0) (\<lambda>caller.
       bindR (sync_position (stake_entry e caller) (ck_epoch clock)) (\<lambda>position.
       bindR (checked_sum (map sw_atoms (sp_scheduled position))) (\<lambda>already_scheduled.
       if saturating_sub (sp_active_atoms position) already_scheduled < atoms then Err GE_InsufficientActiveStake
       else bindR (ok_or GE_Overflow (checked_add (ck_epoch clock) 1)) (\<lambda>start_epoch.
       bindR (ok_or GE_Overflow (checked_add start_epoch (gs_unbonding_delay_epochs (ge_parameters e)))) (\<lambda>release_epoch.
       Ok (caller, position\<lparr>sp_scheduled := sp_scheduled position @
         [\<lparr>sw_atoms = atoms, sw_start_epoch = start_epoch, sw_release_epoch = release_epoch\<rparr>]\<rparr>)))))))) (\<lambda>(caller, position).
     put_stake caller position))"

definition owns_unsettled :: "('i \<Rightarrow> string) \<Rightarrow> string \<Rightarrow> 'i bonds \<Rightarrow> bool" where
  "owns_unsettled owner address items =
     list_ex (\<lambda>item. \<not> bo_settled item \<and> owner (bo_input item) = address) (bt_values items)"

definition round_is_open :: "ReviewRoundRecord \<Rightarrow> bool" where
  "round_is_open r \<longleftrightarrow> rr_state r \<in> {Round_Open, Round_AvailabilityOpen, Round_Frozen}"

definition has_unsettled_slashable_action :: "GovernanceEngine \<Rightarrow> string \<Rightarrow> bool" where
  "has_unsettled_slashable_action e address \<longleftrightarrow>
     list_ex (\<lambda>r. round_is_open r
         \<and> (\<not> rr_bond_settled r \<and> rr_opener_address r = address
            \<or> owns_unsettled aa_owner_address address (rr_agents r)
            \<or> owns_unsettled ba_builder_address address (rr_builders r)
            \<or> owns_unsettled da_operator_address address (rr_availability r))) (bt_values (ge_review_rounds e))
     \<or> list_ex (\<lambda>p. \<not> pr_proposal_bond_settled p \<and> cp_proposer_address (pr_content p) = address
            \<or> owns_unsettled aa_owner_address address (pr_agents p)
            \<or> owns_unsettled ba_builder_address address (pr_builders p)
            \<or> owns_unsettled da_operator_address address (pr_availability p)) (bt_values (ge_proposals e))"

definition release_item ::
  "u16 \<Rightarrow> u128 \<times> ScheduledWithdrawal list \<Rightarrow> ScheduledWithdrawal \<Rightarrow> (GovernanceError, u128 \<times> ScheduledWithdrawal list) res" where
  "release_item epoch acc item = (case acc of (released, remaining) \<Rightarrow>
     if sw_release_epoch item \<le> epoch
     then bindR (ok_or GE_Overflow (checked_add released (sw_atoms item))) (\<lambda>r. Ok (r, remaining))
     else Ok (released, remaining @ [item]))"

definition finalize_unbonding ::
  "extern \<Rightarrow> string \<Rightarrow> GovernanceClock \<Rightarrow> (GovernanceEngine, GovernanceError, u128) act" where
  "finalize_unbonding X caller0 clock = with_atomic_state (
     bindA (readA (\<lambda>e.
       bindR (normalize_governance_address X caller0) (\<lambda>caller.
       if has_unsettled_slashable_action e caller then Err GE_StakeSlashReserved
       else bindR (sync_position (stake_entry e caller) (ck_epoch clock)) (\<lambda>position.
       bindR (try_fold (release_item (ck_epoch clock)) (0, []) (sp_unbonding position)) (\<lambda>(released, remaining).
       if released = 0 then Err GE_NoRefund
       else Ok (caller, released, position\<lparr>sp_unbonding := remaining\<rparr>)))))) (\<lambda>(caller, released, position).
     bindA (put_stake caller position) (\<lambda>_.
     bindA (credit_refund caller released) (\<lambda>_. retA released))))"

definition stake_position ::
  "extern \<Rightarrow> string \<Rightarrow> u16 \<Rightarrow> (GovernanceEngine, GovernanceError, StakePositionView) act" where
  "stake_position X caller0 epoch = with_atomic_state (
     bindA (readA (\<lambda>e.
       bindR (normalize_governance_address X caller0) (\<lambda>caller.
       bindR (sync_position (stake_entry e caller) epoch) (\<lambda>position.
       bindR (checked_sum (map sl_atoms (sp_pending position))) (\<lambda>p.
       bindR (checked_sum (map sw_atoms (sp_scheduled position))) (\<lambda>s.
       bindR (checked_sum (map sw_atoms (sp_unbonding position))) (\<lambda>u.
       Ok (caller, position, \<lparr>sv_pending_activation_atoms = p, sv_active_atoms = sp_active_atoms position,
         sv_scheduled_withdrawal_atoms = s, sv_unbonding_atoms = u\<rparr>)))))))) (\<lambda>(caller, position, view).
     bindA (put_stake caller position) (\<lambda>_. retA view)))"

section \<open>Settlement\<close>

definition review_candidate_key :: "extern \<Rightarrow> string \<Rightarrow> string \<Rightarrow> string \<Rightarrow> string" where
  "review_candidate_key X parent_cid candidate_cid patch_cid = hex_encode X (sha256 X
     (as_bytes ''IDENA_GOV_REVIEW_CANDIDATE_V1'' @ [0] @ as_bytes parent_cid @ as_bytes ''|'' @
      as_bytes candidate_cid @ as_bytes ''|'' @ as_bytes patch_cid))"

definition release_review_candidate_for_proposal ::
  "extern \<Rightarrow> string \<Rightarrow> (GovernanceEngine, GovernanceError, unit) act" where
  "release_review_candidate_for_proposal X proposal_id =
     bindA (proposal_mut proposal_id) (\<lambda>p. let content = pr_content p in
     modifyA (\<lambda>e. e\<lparr>ge_active_review_candidates := bt_remove
       (review_candidate_key X (cp_parent_canonical_ecosystem_cid content) (cp_candidate_ecosystem_cid content)
         (cp_patch_cid content)) (ge_active_review_candidates e)\<rparr>))"

text \<open>
  One of the three loops of \<open>refund_unsettled_attestations\<close>: the map with every attestation settled, and
  the owner, refund and burned amount of each one that was not.
\<close>

definition settle_bonds ::
  "('i \<Rightarrow> string) \<Rightarrow> ('i \<Rightarrow> u128) \<Rightarrow> (string \<Rightarrow> u16) \<Rightarrow> 'i bonds \<Rightarrow>
   (GovernanceError, 'i bonds \<times> (string \<times> u128 \<times> u128) list) res" where
  "settle_bonds owner bond slash_bps items =
     bindR (try_map (\<lambda>(cid, item). bindR (apply_bps (bond (bo_input item)) (slash_bps cid)) (\<lambda>burned.
         Ok (owner (bo_input item), bond (bo_input item) - burned, burned)))
       (filter (\<lambda>(cid, item). \<not> bo_settled item) (entries items))) (\<lambda>settlements.
     Ok (bt_map (\<lambda>cid item. item\<lparr>bo_settled := True\<rparr>) items, settlements))"

fun pay_settlements :: "(string \<times> u128 \<times> u128) list \<Rightarrow> (GovernanceEngine, GovernanceError, unit) act" where
  "pay_settlements [] = retA ()"
| "pay_settlements ((address, refund, burned) # settlements) =
     bindA (credit_refund address refund) (\<lambda>_. bindA (burn burned) (\<lambda>_. pay_settlements settlements))"

definition refund_unsettled_attestations ::
  "string \<Rightarrow> (BondTarget \<times> string) option \<Rightarrow> (GovernanceEngine, GovernanceError, unit) act" where
  "refund_unsettled_attestations proposal_id slash =
     bindA (readA (\<lambda>e. Ok (gs_objective_slash_policy (ge_parameters e)))) (\<lambda>policy.
     let bps = (\<lambda>target amount cid. if slash = Some (target, cid) then amount else 0) in
     bindA (proposal_mut proposal_id) (\<lambda>p.
     bindA (readA (\<lambda>_.
       bindR (settle_bonds aa_owner_address aa_bond_atoms (bps Target_Agent (os_fraudulent_reviewer_slash_bps policy)) (pr_agents p)) (\<lambda>(agents, s1).
       bindR (settle_bonds ba_builder_address ba_bond_atoms (bps Target_Builder (os_fraudulent_builder_slash_bps policy)) (pr_builders p)) (\<lambda>(builders, s2).
       bindR (settle_bonds da_operator_address da_bond_atoms (bps Target_Availability (os_unavailable_data_slash_bps policy)) (pr_availability p)) (\<lambda>(availability, s3).
       Ok (p\<lparr>pr_agents := agents, pr_builders := builders, pr_availability := availability\<rparr>, s1 @ s2 @ s3)))))) (\<lambda>(p', settlements).
     bindA (put_proposal proposal_id p') (\<lambda>_. pay_settlements settlements))))"

text \<open>
  The proposal bond is paid out once: the flag is set, and when it was clear before, \<open>pay\<close> splits the
  bond between its proposer and the burned amount. The attestations are refunded and the candidate key
  is free again afterwards.
\<close>

definition settle_proposal ::
  "extern \<Rightarrow> string \<Rightarrow> (string \<Rightarrow> u128 \<Rightarrow> (GovernanceEngine, GovernanceError, unit) act) \<Rightarrow>
   (GovernanceEngine, GovernanceError, unit) act" where
  "settle_proposal X proposal_id pay =
     bindA (proposal_mut proposal_id) (\<lambda>p.
     bindA (put_proposal proposal_id (p\<lparr>pr_proposal_bond_settled := True\<rparr>)) (\<lambda>_.
     bindA (if pr_proposal_bond_settled p then retA ()
            else pay (cp_proposer_address (pr_content p)) (cp_proposal_bond_atoms (pr_content p))) (\<lambda>_.
     bindA (refund_unsettled_attestations proposal_id None) (\<lambda>_.
     release_review_candidate_for_proposal X proposal_id))))"

definition settle_normal_rejection :: "extern \<Rightarrow> string \<Rightarrow> (GovernanceEngine, GovernanceError, unit) act" where
  "settle_normal_rejection X proposal_id = settle_proposal X proposal_id (\<lambda>proposer bond.
     bindA (readA (\<lambda>e. apply_bps bond (bp_rejected_return_bps (gs_proposal_bond_policy (ge_parameters e))))) (\<lambda>refund.
     bindA (credit_refund proposer refund) (\<lambda>_. burn (bond - refund))))"

definition settle_full_refund :: "extern \<Rightarrow> string \<Rightarrow> (GovernanceEngine, GovernanceError, unit) act" where
  "settle_full_refund X proposal_id = settle_proposal X proposal_id credit_refund"

definition settle_fraudulent_proposer :: "extern \<Rightarrow> string \<Rightarrow> (GovernanceEngine, GovernanceError, unit) act" where
  "settle_fraudulent_proposer X proposal_id = settle_proposal X proposal_id (\<lambda>proposer bond.
     bindA (readA (\<lambda>e. apply_bps bond (os_fraudulent_proposal_slash_bps (gs_objective_slash_policy (ge_parameters e))))) (\<lambda>slash.
     bindA (burn slash) (\<lambda>_. credit_refund proposer (bond - slash))))"

text \<open>The loops of \<open>slash_governance_stake\<close> that take the slashed amount from a list of lots.\<close>

fun reduce_items :: "('l \<Rightarrow> u128) \<Rightarrow> (u128 \<Rightarrow> 'l \<Rightarrow> 'l) \<Rightarrow> u128 \<Rightarrow> 'l list \<Rightarrow> 'l list \<times> u128" where
  "reduce_items atoms set_atoms remaining [] = ([], remaining)"
| "reduce_items atoms set_atoms remaining (item # items) =
     (let reduction = min (atoms item) remaining;
          (items', remaining') = reduce_items atoms set_atoms (remaining - reduction) items
      in (set_atoms (atoms item - reduction) item # items', remaining'))"

definition slash_position :: "StakePosition \<Rightarrow> u16 \<Rightarrow> (GovernanceError, u128 \<times> StakePosition) res" where
  "slash_position position slash_bps =
     bindR (checked_sum (map sl_atoms (sp_pending position))) (\<lambda>pending_sum.
     bindR (checked_sum (map sw_atoms (sp_unbonding position))) (\<lambda>unbonding_sum.
     bindR (ok_or GE_Overflow (case checked_add (sp_active_atoms position) pending_sum of
         None \<Rightarrow> None | Some v \<Rightarrow> checked_add v unbonding_sum)) (\<lambda>stake_total.
     bindR (apply_bps stake_total slash_bps) (\<lambda>slash.
     let (unbonding, remaining1) = reduce_items sw_atoms (\<lambda>a w. w\<lparr>sw_atoms := a\<rparr>) slash (sp_unbonding position);
         (pending_lots, remaining2) = reduce_items sl_atoms (\<lambda>a l. l\<lparr>sl_atoms := a\<rparr>) remaining1 (sp_pending position);
         active_reduction = min (sp_active_atoms position) remaining2;
         active = sp_active_atoms position - active_reduction
     in if remaining2 - active_reduction \<noteq> 0 then Err GE_Overflow
        else bindR (checked_sum (map sw_atoms (sp_scheduled position))) (\<lambda>scheduled_sum.
        let (scheduled_rev, excess) = reduce_items sw_atoms (\<lambda>a w. w\<lparr>sw_atoms := a\<rparr>)
              (saturating_sub scheduled_sum active) (rev (sp_scheduled position))
        in if excess \<noteq> 0 then Err GE_Overflow
           else Ok (slash, \<lparr>sp_active_atoms = active,
             sp_pending = filter (\<lambda>l. sl_atoms l > 0) pending_lots,
             sp_scheduled = filter (\<lambda>w. sw_atoms w > 0) (rev scheduled_rev),
             sp_unbonding = filter (\<lambda>w. sw_atoms w > 0) unbonding\<rparr>))))))"

definition slash_governance_stake :: "string \<Rightarrow> u16 \<Rightarrow> (GovernanceEngine, GovernanceError, u128) act" where
  "slash_governance_stake address slash_bps =
     bindA (readA (\<lambda>e. Ok (bt_get (ge_stakes e) address))) (\<lambda>found. case found of
       None \<Rightarrow> retA 0
     | Some position \<Rightarrow> bindA (readA (\<lambda>_. slash_position position slash_bps)) (\<lambda>(slash, position').
         bindA (put_stake address position') (\<lambda>_. bindA (burn slash) (\<lambda>_. retA slash))))"

definition invalidate_bond :: "string \<Rightarrow> 'i bonds \<Rightarrow> (GovernanceError, 'i \<times> 'i bonds) res" where
  "invalidate_bond cid items = (case bt_get items cid of
     None \<Rightarrow> Err GE_InvalidChallenge
   | Some item \<Rightarrow> if bo_settled item \<or> bo_invalid item then Err GE_InvalidChallenge
       else Ok (bo_input item, bt_insert cid (item\<lparr>bo_settled := True, bo_invalid := True\<rparr>) items))"

definition invalidate_target ::
  "ObjectiveSlashPolicy \<Rightarrow> ProposalRecord \<Rightarrow> PendingChallenge \<Rightarrow> (GovernanceError, string \<times> u128 \<times> u16 \<times> ProposalRecord) res" where
  "invalidate_target policy p challenge = (let cid = oc_attestation_cid (pc_input challenge) in
     case pc_target_type challenge of
       Target_Agent \<Rightarrow> bindR (invalidate_bond cid (pr_agents p)) (\<lambda>(i, items).
         Ok (aa_owner_address i, aa_bond_atoms i, os_fraudulent_reviewer_slash_bps policy, p\<lparr>pr_agents := items\<rparr>))
     | Target_Builder \<Rightarrow> bindR (invalidate_bond cid (pr_builders p)) (\<lambda>(i, items).
         Ok (ba_builder_address i, ba_bond_atoms i, os_fraudulent_builder_slash_bps policy, p\<lparr>pr_builders := items\<rparr>))
     | Target_Availability \<Rightarrow> bindR (invalidate_bond cid (pr_availability p)) (\<lambda>(i, items).
         Ok (da_operator_address i, da_bond_atoms i, os_unavailable_data_slash_bps policy, p\<lparr>pr_availability := items\<rparr>)))"

definition invalidate_and_slash_attestation ::
  "string \<Rightarrow> PendingChallenge \<Rightarrow> (GovernanceEngine, GovernanceError, string) act" where
  "invalidate_and_slash_attestation proposal_id challenge =
     bindA (readA (\<lambda>e. Ok (gs_objective_slash_policy (ge_parameters e)))) (\<lambda>policy.
     bindA (proposal_mut proposal_id) (\<lambda>p.
     bindA (readA (\<lambda>_. invalidate_target policy p challenge)) (\<lambda>(offender, bond, slash_bps, p').
     bindA (put_proposal proposal_id p') (\<lambda>_.
     bindA (readA (\<lambda>_. apply_bps bond slash_bps)) (\<lambda>burned.
     bindA (credit_refund offender (bond - burned)) (\<lambda>_.
     bindA (burn burned) (\<lambda>_.
     bindA (slash_governance_stake offender (os_fraudulent_actor_stake_slash_bps policy)) (\<lambda>_.
     retA offender))))))))"

section \<open>Expiry of review rounds\<close>

definition unresolved_critical_owner_count :: "AgentAttestationInputV1 bonds \<Rightarrow> nat" where
  "unresolved_critical_owner_count agents = bt_len (bs_collect (map (\<lambda>item. aa_owner_address (bo_input item))
     (filter (\<lambda>item. \<not> bo_invalid item \<and> aa_unresolved_critical_findings (bo_input item) > 0) (bt_values agents))))"

text \<open>The loop over the attestations of one class, without a slash.\<close>

definition release_bonds :: "('i \<Rightarrow> string) \<Rightarrow> ('i \<Rightarrow> u128) \<Rightarrow> 'i bonds \<Rightarrow> 'i bonds \<times> (string \<times> u128) list" where
  "release_bonds owner bond items =
     (bt_map (\<lambda>cid item. item\<lparr>bo_settled := True\<rparr>) items,
      map (\<lambda>item. (owner (bo_input item), bond (bo_input item))) (filter (\<lambda>item. \<not> bo_settled item) (bt_values items)))"

fun credit_refunds :: "(string \<times> u128) list \<Rightarrow> (GovernanceEngine, GovernanceError, unit) act" where
  "credit_refunds [] = retA ()"
| "credit_refunds ((address, amount) # settlements) = bindA (credit_refund address amount) (\<lambda>_. credit_refunds settlements)"

definition expire_review_round ::
  "extern \<Rightarrow> string \<Rightarrow> GovernanceClock \<Rightarrow> (GovernanceEngine, GovernanceError, unit) act" where
  "expire_review_round X review_round_id clock = with_atomic_state (
     bindA (readA (\<lambda>e.
       bindR (parse_atoms (bp_stale_processing_fee_atoms (gs_proposal_bond_policy (ge_parameters e)))) (\<lambda>stale_fee.
       bindR (ok_or GE_ReviewRoundNotFound (bt_get (ge_review_rounds e) review_round_id)) (\<lambda>r.
       if \<not> round_is_open r then Err (GE_InvalidReviewRoundState (rr_state r))
       else let stale = (rr_parent_cid r \<noteq> ge_canonical_ecosystem_cid e) in
       if \<not> stale \<and> ck_block clock \<le> rr_claim_deadline r then Err GE_InvalidDeadline
       else let unresolved_owners = (of_nat (unresolved_critical_owner_count (rr_agents r)) :: u32);
                critical_threshold = (if is_critical (se_derived_risk_class (rr_scope_evidence r))
                  then gp_critical_finding_owner_threshold (gs_critical (ge_parameters e))
                  else gp_critical_finding_owner_threshold (gs_normal (ge_parameters e))) in
       bindR (if stale then Ok (min stale_fee (rr_bond_atoms r))
              else if unresolved_owners \<ge> critical_threshold then Ok 0
              else apply_bps (rr_bond_atoms r) (bp_expired_slash_bps (gs_proposal_bond_policy (ge_parameters e)))) (\<lambda>burned.
       let (agents, s1) = release_bonds aa_owner_address aa_bond_atoms (rr_agents r);
           (builders, s2) = release_bonds ba_builder_address ba_bond_atoms (rr_builders r);
           (availability, s3) = release_bonds da_operator_address da_bond_atoms (rr_availability r) in
       Ok (r\<lparr>rr_agents := agents, rr_builders := builders, rr_availability := availability,
             rr_state := Round_Expired, rr_bond_settled := True\<rparr>,
           s1 @ s2 @ s3, rr_bond_atoms r - burned, burned)))))) (\<lambda>(r, settlements, refund, burned).
     bindA (modifyA (\<lambda>e. e\<lparr>ge_review_rounds := bt_insert review_round_id r (ge_review_rounds e),
       ge_active_review_candidates := bt_remove (review_candidate_key X (rr_parent_cid r) (rr_candidate_cid r) (rr_patch_cid r))
         (ge_active_review_candidates e)\<rparr>)) (\<lambda>_.
     bindA (credit_refund (rr_opener_address r) refund) (\<lambda>_.
     bindA (credit_refunds settlements) (\<lambda>_.
     burn burned)))))"

section \<open>Staleness and expiry of proposals\<close>

definition mark_stale :: "extern \<Rightarrow> string \<Rightarrow> (GovernanceEngine, GovernanceError, unit) act" where
  "mark_stale X proposal_id = with_atomic_state (
     bindA (proposal_mut proposal_id) (\<lambda>p.
     bindA (readA (\<lambda>e.
       if cp_parent_canonical_ecosystem_cid (pr_content p) = ge_canonical_ecosystem_cid e then Err GE_InvalidProposal
       else if is_terminal (pr_state p) then Err (GE_InvalidState (pr_state p)) else Ok ())) (\<lambda>_.
     bindA (put_proposal proposal_id (p\<lparr>pr_state := Stale\<rparr>)) (\<lambda>_.
     settle_proposal X proposal_id (\<lambda>proposer bond.
       bindA (readA (\<lambda>e. bindR (parse_atoms (bp_stale_processing_fee_atoms (gs_proposal_bond_policy (ge_parameters e))))
         (\<lambda>fee. Ok (min fee bond)))) (\<lambda>fee.
       bindA (burn fee) (\<lambda>_. credit_refund proposer (bond - fee))))))))"

definition proposal_expired :: "ProposalRecord \<Rightarrow> u64 \<Rightarrow> bool" where
  "proposal_expired p block = (case pr_state p of
     Draft \<Rightarrow> block > cp_voting_start (pr_content p)
   | ReviewOpen \<Rightarrow> block \<ge> cp_voting_end (pr_content p)
   | AcceptedPendingExecution \<Rightarrow> block > pr_execution_expires p
   | _ \<Rightarrow> False)"

definition expire_proposal ::
  "extern \<Rightarrow> string \<Rightarrow> GovernanceClock \<Rightarrow> (GovernanceEngine, GovernanceError, unit) act" where
  "expire_proposal X proposal_id clock = with_atomic_state (
     bindA (proposal_mut proposal_id) (\<lambda>p.
     if \<not> proposal_expired p (ck_block clock) then throwA GE_InvalidDeadline
     else bindA (put_proposal proposal_id (p\<lparr>pr_state := Expired\<rparr>)) (\<lambda>_.
     settle_proposal X proposal_id (\<lambda>proposer bond.
       bindA (readA (\<lambda>e. apply_bps bond (bp_expired_slash_bps (gs_proposal_bond_policy (ge_parameters e))))) (\<lambda>slash.
       bindA (burn slash) (\<lambda>_. credit_refund proposer (bond - slash)))))))"

section \<open>Review and voting\<close>

text \<open>A proposal whose parent is no longer canonical is marked stale, and the call fails.\<close>

definition unless_stale ::
  "extern \<Rightarrow> string \<Rightarrow> (GovernanceEngine, GovernanceError, 'a) act \<Rightarrow> (GovernanceEngine, GovernanceError, 'a) act" where
  "unless_stale X proposal_id continue =
     bindA (readA (\<lambda>e. bindR (ok_or GE_ProposalNotFound (bt_get (ge_proposals e) proposal_id)) (\<lambda>p.
       Ok (cp_parent_canonical_ecosystem_cid (pr_content p) \<noteq> ge_canonical_ecosystem_cid e)))) (\<lambda>stale.
     if stale then bindA (mark_stale X proposal_id) (\<lambda>_. throwA GE_StaleParent) else continue)"

definition open_review :: "extern \<Rightarrow> string \<Rightarrow> GovernanceClock \<Rightarrow> (GovernanceEngine, GovernanceError, unit) act" where
  "open_review X proposal_id clock = unless_stale X proposal_id (
     bindA (proposal_mut proposal_id) (\<lambda>p.
     bindA (readA (\<lambda>_. bindR (require_state p Draft) (\<lambda>_.
       if ck_block clock < cp_creation_block (pr_content p) \<or> ck_block clock \<ge> cp_voting_start (pr_content p)
       then Err GE_InvalidDeadline else Ok ()))) (\<lambda>_.
     put_proposal proposal_id (p\<lparr>pr_state := ReviewOpen\<rparr>))))"

definition agent_entry :: "extern \<Rightarrow> AgentAttestationInputV1 Bonded \<Rightarrow> (GovernanceError, AttestationCommitmentEntryV1) res" where
  "agent_entry X item = (let i = bo_input item in
     bindR (agent_attestation_commitment_fields X (aa_attestation_cid i) (aa_independence_group i)
       (aa_owner_address i) (aa_unresolved_critical_findings i)) (\<lambda>fields.
     Ok \<lparr>ce_attestation_cid = aa_attestation_cid i, ce_canonical_fields = fields\<rparr>))"

definition build_entry :: "extern \<Rightarrow> BuildAttestationInputV1 Bonded \<Rightarrow> (GovernanceError, AttestationCommitmentEntryV1) res" where
  "build_entry X item = (let i = bo_input item in
     bindR (build_attestation_commitment_fields X (ba_attestation_cid i) (ba_core_artifact_digest i)
       (ba_runtime_family i) (ba_architecture i) (ba_builder_address i)) (\<lambda>fields.
     Ok \<lparr>ce_attestation_cid = ba_attestation_cid i, ce_canonical_fields = fields\<rparr>))"

definition availability_entry ::
  "extern \<Rightarrow> DataAvailabilityAttestationInputV1 Bonded \<Rightarrow> (GovernanceError, AttestationCommitmentEntryV1) res" where
  "availability_entry X item = (let i = bo_input item in
     bindR (data_availability_commitment_fields X (da_attestation_cid i) (da_candidate_ecosystem_cid i)
       (da_pinset_cid i) (da_provider_id i) (da_operator_address i)) (\<lambda>fields.
     Ok \<lparr>ce_attestation_cid = da_attestation_cid i, ce_canonical_fields = fields\<rparr>))"

definition verify_attestation_roots :: "extern \<Rightarrow> ProposalRecord \<Rightarrow> (GovernanceError, unit) res" where
  "verify_attestation_roots X p =
     (if bt_len (pr_agents p) > MAX_REVIEW_ATTESTATIONS_PER_CLASS
        \<or> bt_len (pr_builders p) > MAX_REVIEW_ATTESTATIONS_PER_CLASS
        \<or> bt_len (pr_availability p) > MAX_REVIEW_ATTESTATIONS_PER_CLASS
      then Err GE_ReviewRoundFull
      else bindR (try_map (agent_entry X) (bt_values (pr_agents p))) (\<lambda>agent_entries.
      bindR (try_map (build_entry X) (bt_values (pr_builders p))) (\<lambda>build_entries.
      bindR (try_map (availability_entry X) (bt_values (pr_availability p))) (\<lambda>availability_entries.
      bindR (build_attestation_commitment X ''agent_review_v1'' agent_entries) (\<lambda>agent.
      bindR (build_attestation_commitment X ''build_attestation_v1'' build_entries) (\<lambda>build.
      bindR (build_attestation_commitment X ''data_availability_v1'' availability_entries) (\<lambda>availability.
      if bc_root agent \<noteq> cp_agent_review_root (pr_content p)
         \<or> bc_root build \<noteq> cp_build_attestation_root (pr_content p)
         \<or> bc_root availability \<noteq> cp_data_availability_root (pr_content p)
      then Err GE_InvalidAttestation else Ok ())))))))"

definition open_voting :: "extern \<Rightarrow> string \<Rightarrow> GovernanceClock \<Rightarrow> (GovernanceEngine, GovernanceError, unit) act" where
  "open_voting X proposal_id clock = unless_stale X proposal_id (
     bindA (proposal_mut proposal_id) (\<lambda>p.
     bindA (readA (\<lambda>_. bindR (require_state p ReviewOpen) (\<lambda>_.
       if ck_block clock < cp_voting_start (pr_content p) \<or> ck_block clock \<ge> cp_voting_end (pr_content p)
         \<or> ck_epoch clock \<noteq> cp_staking_epoch (pr_content p)
       then Err GE_InvalidDeadline else verify_attestation_roots X p))) (\<lambda>_.
     put_proposal proposal_id (p\<lparr>pr_state := VotingOpen\<rparr>))))"

fun add_vote_weight :: "ProposalRecord \<Rightarrow> VoteChoice \<Rightarrow> u128 \<Rightarrow> (GovernanceError, ProposalRecord) res" where
  "add_vote_weight p Yes w = bindR (ok_or GE_Overflow (checked_add (pr_yes_weight p) w)) (\<lambda>t. Ok (p\<lparr>pr_yes_weight := t\<rparr>))"
| "add_vote_weight p No w = bindR (ok_or GE_Overflow (checked_add (pr_no_weight p) w)) (\<lambda>t. Ok (p\<lparr>pr_no_weight := t\<rparr>))"
| "add_vote_weight p Abstain w = bindR (ok_or GE_Overflow (checked_add (pr_abstain_weight p) w)) (\<lambda>t. Ok (p\<lparr>pr_abstain_weight := t\<rparr>))"

fun subtract_vote_weight :: "ProposalRecord \<Rightarrow> VoteChoice \<Rightarrow> u128 \<Rightarrow> (GovernanceError, ProposalRecord) res" where
  "subtract_vote_weight p Yes w = bindR (ok_or GE_Overflow (checked_sub (pr_yes_weight p) w)) (\<lambda>t. Ok (p\<lparr>pr_yes_weight := t\<rparr>))"
| "subtract_vote_weight p No w = bindR (ok_or GE_Overflow (checked_sub (pr_no_weight p) w)) (\<lambda>t. Ok (p\<lparr>pr_no_weight := t\<rparr>))"
| "subtract_vote_weight p Abstain w = bindR (ok_or GE_Overflow (checked_sub (pr_abstain_weight p) w)) (\<lambda>t. Ok (p\<lparr>pr_abstain_weight := t\<rparr>))"

definition cast_vote ::
  "extern \<Rightarrow> string \<Rightarrow> string \<Rightarrow> VoteChoice \<Rightarrow> GovernanceClock \<Rightarrow> (GovernanceEngine, GovernanceError, GovernanceVoteReceiptV1) act" where
  "cast_vote X proposal_id voter0 choice clock = with_atomic_state (
     bindA (readA (\<lambda>_. normalize_governance_address X voter0)) (\<lambda>voter.
     bindA (proposal_mut proposal_id) (\<lambda>p.
     bindA (readA (\<lambda>e.
       bindR (require_state p VotingOpen) (\<lambda>_.
       if cp_parent_canonical_ecosystem_cid (pr_content p) \<noteq> ge_canonical_ecosystem_cid e then Err GE_StaleParent
       else if ck_block clock < cp_voting_start (pr_content p) \<or> ck_block clock \<ge> cp_voting_end (pr_content p)
       then Err GE_InvalidDeadline
       else bindR (ok_or GE_IneligibleVoter (bt_get (pr_voter_snapshot p) voter)) (\<lambda>snapshot.
       bindR (case bt_get (pr_votes p) voter of
           Some previous \<Rightarrow> subtract_vote_weight p (vr_choice previous) (vr_effective_vote_weight previous)
         | None \<Rightarrow> Ok p) (\<lambda>p1.
       bindR (add_vote_weight p1 choice (vs_weight snapshot)) (\<lambda>p2.
       let receipt = \<lparr>vr_schema_version = 1, vr_proposal_id = pr_id p, vr_voter_address = voter, vr_choice = choice,
         vr_staking_epoch = cp_staking_epoch (pr_content p),
         vr_identity_metrics_epoch = cp_identity_metrics_epoch (pr_content p),
         vr_active_stake_atoms = vs_stake_atoms snapshot, vr_stake_score = stake_score (vs_stake_atoms snapshot),
         vr_identity_status_bps = vs_status_bps snapshot, vr_flip_trust_bps = vs_trust_bps snapshot,
         vr_effective_vote_weight = vs_weight snapshot, vr_cast_at_block = ck_block clock\<rparr> in
       Ok (receipt, p2\<lparr>pr_votes := bt_insert voter receipt (pr_votes p2)\<rparr>))))))) (\<lambda>(receipt, p').
     bindA (put_proposal proposal_id p') (\<lambda>_. retA receipt)))))"

definition add_build_group ::
  "BuildAttestationInputV1 Bonded \<Rightarrow> (string, string btset \<times> string btset) btree \<Rightarrow> (string, string btset \<times> string btset) btree" where
  "add_build_group item groups = (let i = bo_input item;
       (owners, platforms) = (case bt_get groups (ba_core_artifact_digest i) of
          Some g \<Rightarrow> g | None \<Rightarrow> (bt_empty, bt_empty))
     in bt_insert (ba_core_artifact_digest i)
          (bs_insert (ba_builder_address i) owners, bs_insert (ba_runtime_family i @ ''-'' @ ba_architecture i) platforms) groups)"

definition build_group_order :: "(string \<times> string btset \<times> string btset) comparator" where
  "build_group_order = then_with (asc (\<lambda>g. bt_len (fst (snd g))))
     (then_with (asc (\<lambda>g. bt_len (snd (snd g)))) (desc fst))"

definition covers_required :: "ProposalRecord \<Rightarrow> DataAvailabilityAttestationInputV1 \<Rightarrow> bool" where
  "covers_required p i = list_all (\<lambda>cid. cid \<in> set (da_verified_cids i)) (bt_keys (pr_required_availability_cids p))"

definition acceptance_evidence :: "ProposalRecord \<Rightarrow> AcceptanceEvidence" where
  "acceptance_evidence p = (let
     yes_voters = filter (\<lambda>receipt. vr_choice receipt = Yes) (bt_values (pr_votes p));
     verified_or_human = filter (\<lambda>receipt. case bt_get (pr_voter_snapshot p) (vr_voter_address receipt) of
         Some snapshot \<Rightarrow> is_verified_or_human (vs_state snapshot) | None \<Rightarrow> False) yes_voters;
     approved_agents = filter (\<lambda>item. \<not> bo_invalid item \<and> aa_verdict (bo_input item) = Verdict_Approve
         \<and> aa_tests_passed_claim (bo_input item)) (bt_values (pr_agents p));
     agent_families = bs_collect (map (\<lambda>item. aa_independence_group (bo_input item)) approved_agents);
     agent_owners = bs_collect (map (\<lambda>item. aa_owner_address (bo_input item)) approved_agents);
     unresolved0 = (of_nat (unresolved_critical_owner_count (pr_agents p)) :: u32);
     unresolved = (if unresolved0 > 0 \<and> is_critical (cp_risk_class (pr_content p))
         \<and> pr_critical_finding_waiver p \<noteq> None then 0 else unresolved0);
     build_groups = fold add_build_group
       (filter (\<lambda>item. \<not> bo_invalid item \<and> ba_tests_passed_claim (bo_input item)) (bt_values (pr_builders p))) bt_empty;
     selected_build_group = max_by build_group_order (entries build_groups);
     (builder_owners, builder_platforms) = (case selected_build_group of
         Some (_, owners, platforms) \<Rightarrow> (bt_len owners, bt_len platforms) | None \<Rightarrow> (0, 0));
     valid_availability = filter (\<lambda>item. \<not> bo_invalid item \<and> da_available_claim (bo_input item)
         \<and> da_expires_at_block (bo_input item) \<ge> pr_execution_expires p \<and> covers_required p (bo_input item))
       (bt_values (pr_availability p));
     provider_owners = bs_collect (map (\<lambda>item. da_operator_address (bo_input item)) valid_availability)
   in \<lparr>ev_yes_weight = pr_yes_weight p, ev_no_weight = pr_no_weight p, ev_abstain_weight = pr_abstain_weight p,
       ev_total_registered_weight = pr_total_registered_weight p,
       ev_distinct_yes_identities = of_nat (length yes_voters),
       ev_verified_or_human_yes_identities = of_nat (length verified_or_human),
       ev_valid_agent_attestations = of_nat (length approved_agents),
       ev_distinct_agent_runtime_groups = of_nat (bt_len agent_owners),
       ev_distinct_agent_families = of_nat (bt_len agent_families),
       ev_distinct_agent_owner_identities = of_nat (bt_len agent_owners),
       ev_unresolved_critical_findings = unresolved,
       ev_valid_builders = of_nat builder_owners,
       ev_distinct_builder_platforms = of_nat builder_platforms,
       ev_matching_core_artifact_digests = (selected_build_group \<noteq> None),
       ev_independent_data_availability_providers = of_nat (bt_len provider_owners)\<rparr>)"

definition proposal_gates :: "GovernanceParameterSetV1 \<Rightarrow> ProposalRecord \<Rightarrow> GateResults" where
  "proposal_gates params p =
     evaluate_gates (cp_risk_class (pr_content p)) (gs_normal params) (gs_critical params) (acceptance_evidence p)"

definition finalize_voting ::
  "extern \<Rightarrow> string \<Rightarrow> GovernanceClock \<Rightarrow> (GovernanceEngine, GovernanceError, GateResults) act" where
  "finalize_voting X proposal_id clock = unless_stale X proposal_id (with_atomic_state (
     bindA (readA (\<lambda>e. Ok (ge_parameters e))) (\<lambda>params.
     bindA (proposal_mut proposal_id) (\<lambda>p.
     bindA (readA (\<lambda>_.
       bindR (require_state p VotingOpen) (\<lambda>_.
       if ck_block clock < cp_voting_end (pr_content p) then Err GE_InvalidDeadline
       else if ck_block clock > cp_challenge_end (pr_content p) then Err GE_InvalidDeadline
       else bindR (ok_or GE_Overflow (checked_add (ck_block clock) (gs_challenge_period_blocks params))) (\<lambda>challenge_end.
       bindR (ok_or GE_Overflow (checked_add challenge_end (gs_timelock_blocks params))) (\<lambda>execution_not_before.
       bindR (ok_or GE_Overflow (checked_add execution_not_before (gs_execution_window_blocks params))) (\<lambda>execution_expires.
       Ok (p\<lparr>pr_challenge_end := challenge_end, pr_execution_not_before := execution_not_before,
             pr_execution_expires := execution_expires\<rparr>))))))) (\<lambda>p1.
     let gates = proposal_gates params p1 in
     bindA (put_proposal proposal_id (p1\<lparr>pr_gates := Some gates,
       pr_state := (if gr_accepted gates then AcceptedPendingChallenge else Rejected)\<rparr>)) (\<lambda>_.
     bindA (if gr_accepted gates then retA () else settle_normal_rejection X proposal_id) (\<lambda>_.
     retA gates)))))))"

section \<open>Objective challenges\<close>

definition verify_canonical_false_result :: "BondTarget \<Rightarrow> bytes \<Rightarrow> (GovernanceError, unit) res" where
  "verify_canonical_false_result target evidence_bytes =
     (let expected = (case target of
          Target_Availability \<Rightarrow> as_bytes (''{'' @ [CHR 0x22] @ ''available'' @ [CHR 0x22] @ '':false}'')
        | _ \<Rightarrow> as_bytes (''{'' @ [CHR 0x22] @ ''passed'' @ [CHR 0x22] @ '':false}''))
      in if evidence_bytes \<noteq> expected then Err GE_InvalidChallenge else Ok ())"

definition challenged_bond :: "('i \<Rightarrow> string) \<Rightarrow> 'i bonds \<Rightarrow> ObjectiveChallengeInputV1 \<Rightarrow> BondTarget \<Rightarrow> (GovernanceError, BondTarget) res" where
  "challenged_bond result_cid items input target = (case bt_get items (oc_attestation_cid input) of
     None \<Rightarrow> Err GE_InvalidChallenge
   | Some item \<Rightarrow> if bo_invalid item \<or> bo_settled item \<or> result_cid (bo_input item) \<noteq> oc_evidence_cid input
       then Err GE_InvalidChallenge else Ok target)"

definition MAX_OBJECTIVE_EVIDENCE_BYTES :: nat where
  "MAX_OBJECTIVE_EVIDENCE_BYTES = 65536"

definition submit_objective_challenge ::
  "extern \<Rightarrow> string \<Rightarrow> ObjectiveChallengeInputV1 \<Rightarrow> GovernanceClock \<Rightarrow> (GovernanceEngine, GovernanceError, unit) act" where
  "submit_objective_challenge X proposal_id input0 clock =
     bindA (readA (\<lambda>_.
       bindR (normalize_governance_address X (oc_challenger_address input0)) (\<lambda>challenger.
       if oc_evidence_bytes input0 = [] \<or> length (oc_evidence_bytes input0) > MAX_OBJECTIVE_EVIDENCE_BYTES
       then Err GE_InvalidChallenge
       else bindR (validate_raw_content_cid X (oc_evidence_cid input0)) (\<lambda>_.
       if cid_new_v1 X 85 (sha256 X (oc_evidence_bytes input0)) \<noteq> oc_evidence_cid input0 then Err GE_InvalidChallenge
       else Ok (input0\<lparr>oc_challenger_address := challenger\<rparr>))))) (\<lambda>input.
     bindA (proposal_mut proposal_id) (\<lambda>p.
     bindA (readA (\<lambda>_.
       bindR (require_state p AcceptedPendingChallenge) (\<lambda>_.
       if ck_block clock \<ge> pr_challenge_end p then Err GE_InvalidDeadline
       else bindR (case oc_target input of
           AgentTestResult \<Rightarrow> challenged_bond aa_test_result_cid (pr_agents p) input Target_Agent
         | BuilderTestResult \<Rightarrow> challenged_bond ba_test_result_cid (pr_builders p) input Target_Builder
         | DataAvailabilityProbe \<Rightarrow> challenged_bond da_probe_result_cid (pr_availability p) input Target_Availability) (\<lambda>target_type.
       bindR (verify_canonical_false_result target_type (oc_evidence_bytes input)) (\<lambda>_. Ok target_type))))) (\<lambda>target_type.
     put_proposal proposal_id (p\<lparr>pr_pending_challenge := Some \<lparr>pc_input = input, pc_target_type = target_type\<rparr>,
       pr_state := Challenged\<rparr>))))"

definition challenge_outcome ::
  "extern \<Rightarrow> string \<Rightarrow> ('i \<Rightarrow> bool) \<Rightarrow> 'i bonds \<Rightarrow> ObjectiveChallengeInputV1 \<Rightarrow> (GovernanceError, bool) res" where
  "challenge_outcome X field claim items input =
     bindR (ok_or GE_InvalidChallenge (bt_get items (oc_attestation_cid input))) (\<lambda>item.
     bindR (lift_ext (\<lambda>_. GE_InvalidChallenge) (from_slice_flag X field (oc_evidence_bytes input))) (\<lambda>result.
     Ok (claim (bo_input item) \<and> \<not> result)))"

definition objective_challenge_succeeds ::
  "extern \<Rightarrow> ProposalRecord \<Rightarrow> PendingChallenge \<Rightarrow> (GovernanceError, bool) res" where
  "objective_challenge_succeeds X p challenge = (case pc_target_type challenge of
     Target_Agent \<Rightarrow> challenge_outcome X ''passed'' aa_tests_passed_claim (pr_agents p) (pc_input challenge)
   | Target_Builder \<Rightarrow> challenge_outcome X ''passed'' ba_tests_passed_claim (pr_builders p) (pc_input challenge)
   | Target_Availability \<Rightarrow> challenge_outcome X ''available'' da_available_claim (pr_availability p) (pc_input challenge))"

definition resolve_objective_challenge ::
  "extern \<Rightarrow> string \<Rightarrow> (GovernanceEngine, GovernanceError, bool) act" where
  "resolve_objective_challenge X proposal_id = with_atomic_state (
     bindA (proposal_mut proposal_id) (\<lambda>p.
     bindA (readA (\<lambda>_. bindR (require_state p Challenged) (\<lambda>_. ok_or GE_InvalidChallenge (pr_pending_challenge p)))) (\<lambda>challenge.
     bindA (readA (\<lambda>_. objective_challenge_succeeds X p challenge)) (\<lambda>successful.
     bindA (if successful then
         bindA (invalidate_and_slash_attestation proposal_id challenge) (\<lambda>offender.
         bindA (proposal_mut proposal_id) (\<lambda>p1.
         if cp_proposer_address (pr_content p1) = offender then
           bindA (put_proposal proposal_id (p1\<lparr>pr_pending_challenge := None, pr_state := Rejected\<rparr>)) (\<lambda>_.
           settle_fraudulent_proposer X proposal_id)
         else
           bindA (readA (\<lambda>e. Ok (proposal_gates (ge_parameters e) p1))) (\<lambda>gates.
           bindA (put_proposal proposal_id (p1\<lparr>pr_pending_challenge := None, pr_gates := Some gates,
             pr_state := (if gr_accepted gates then AcceptedPendingChallenge else Expired)\<rparr>)) (\<lambda>_.
           if gr_accepted gates then retA () else settle_full_refund X proposal_id))))
       else put_proposal proposal_id (p\<lparr>pr_pending_challenge := None, pr_state := AcceptedPendingChallenge\<rparr>)) (\<lambda>_.
     retA successful)))))"

definition close_challenge_period ::
  "string \<Rightarrow> GovernanceClock \<Rightarrow> (GovernanceEngine, GovernanceError, unit) act" where
  "close_challenge_period proposal_id clock =
     bindA (proposal_mut proposal_id) (\<lambda>p.
     bindA (readA (\<lambda>_. bindR (require_state p AcceptedPendingChallenge) (\<lambda>_.
       if ck_block clock < pr_challenge_end p then Err GE_InvalidDeadline else Ok ()))) (\<lambda>_.
     put_proposal proposal_id (p\<lparr>pr_state := AcceptedPendingExecution\<rparr>)))"

section \<open>Execution\<close>

definition live_data_availability_provider_count :: "ProposalRecord \<Rightarrow> u64 \<Rightarrow> u32" where
  "live_data_availability_provider_count p block =
     of_nat (bt_len (bs_collect (map (\<lambda>item. da_operator_address (bo_input item))
       (filter (\<lambda>item. \<not> bo_invalid item \<and> da_available_claim (bo_input item)
           \<and> da_expires_at_block (bo_input item) \<ge> block \<and> covers_required p (bo_input item))
         (bt_values (pr_availability p))))))"

definition execute_ready_proposal ::
  "extern \<Rightarrow> string \<Rightarrow> string \<Rightarrow> (GovernanceEngine, GovernanceError, GovernanceEvent) act" where
  "execute_ready_proposal X proposal_id old_canonical =
     bindA (proposal_mut proposal_id) (\<lambda>p. let content = pr_content p;
       event = CanonicalEcosystemChanged old_canonical (cp_candidate_ecosystem_cid content) (pr_id p)
         (cp_agent_review_root content) (cp_build_attestation_root content) (cp_data_availability_root content) in
     bindA (put_proposal proposal_id (p\<lparr>pr_state := Executed\<rparr>)) (\<lambda>_.
     bindA (modifyA (\<lambda>e. e\<lparr>ge_canonical_ecosystem_cid := cp_candidate_ecosystem_cid content\<rparr>)) (\<lambda>_.
     bindA (case (cp_candidate_identity_metrics_root content, cp_candidate_identity_metrics_epoch content) of
         (Some root, Some epoch) \<Rightarrow> modifyA (\<lambda>e. e\<lparr>ge_metrics_root := root, ge_metrics_epoch := epoch,
           ge_registered_metrics := bt_empty\<rparr>)
       | _ \<Rightarrow> retA ()) (\<lambda>_.
     bindA (settle_full_refund X proposal_id) (\<lambda>_.
     bindA (modifyA (\<lambda>e. e\<lparr>ge_events := ge_events e @ [event]\<rparr>)) (\<lambda>_.
     retA event))))))"

definition execute_proposal ::
  "extern \<Rightarrow> string \<Rightarrow> GovernanceClock \<Rightarrow> (GovernanceEngine, GovernanceError, GovernanceEvent) act" where
  "execute_proposal X proposal_id clock =
     bindA (readA (\<lambda>e. Ok (ge_canonical_ecosystem_cid e))) (\<lambda>old_canonical.
     bindA (readA (\<lambda>e. ok_or GE_ProposalNotFound (bt_get (ge_proposals e) proposal_id))) (\<lambda>p.
     if pr_state p \<noteq> AcceptedPendingExecution then throwA (GE_InvalidState (pr_state p))
     else if cp_parent_canonical_ecosystem_cid (pr_content p) \<noteq> old_canonical
     then bindA (mark_stale X proposal_id) (\<lambda>_. throwA GE_StaleParent)
     else if ck_block clock < pr_execution_not_before p then throwA GE_InvalidDeadline
     else if ck_block clock > pr_execution_expires p
     then bindA (expire_proposal X proposal_id clock) (\<lambda>_. throwA GE_InvalidDeadline)
     else bindA (readA (\<lambda>e. Ok (if is_critical (cp_risk_class (pr_content p))
         then gp_minimum_data_availability_providers (gs_critical (ge_parameters e))
         else gp_minimum_data_availability_providers (gs_normal (ge_parameters e))))) (\<lambda>minimum_live_providers.
     if live_data_availability_provider_count p (ck_block clock) < minimum_live_providers then throwA GE_InvalidAttestation
     else with_atomic_state (execute_ready_proposal X proposal_id old_canonical))))"

definition withdraw_refund :: "extern \<Rightarrow> string \<Rightarrow> (GovernanceEngine, GovernanceError, u128) act" where
  "withdraw_refund X caller0 =
     bindA (readA (\<lambda>_. normalize_governance_address X caller0)) (\<lambda>caller.
     bindA (readA (\<lambda>e. Ok (case bt_get (ge_refunds e) caller of Some amount \<Rightarrow> amount | None \<Rightarrow> 0))) (\<lambda>amount.
     bindA (modifyA (\<lambda>e. e\<lparr>ge_refunds := bt_remove caller (ge_refunds e)\<rparr>)) (\<lambda>_.
     if amount = 0 then throwA GE_NoRefund else retA amount)))"

end
