(* ===== verification/GovSettle.thy ===== *)
theory GovSettle
  imports GovEngine
begin

text \<open>
  The money side of the governance engine: what each settlement, slash and refund of
  \<open>governance-core/src/lifecycle.rs\<close> pays out. A payment moves a fixed number of atoms into the refunds
  and the burned total; bonds, stakes and proposals say how many atoms they hold, and each settlement
  pays exactly what it releases.
\<close>

section \<open>Basis points\<close>

lemma apply_bps_exact:
  assumes "unat bps \<le> 10000"
  shows "apply_bps v bps = Ok (of_nat (unat v * unat bps div 10000))" "unat v * unat bps div 10000 \<le> unat v"
proof -
  let ?q = "unat v div 10000" and ?r = "unat v mod 10000" and ?b = "unat bps"
  have split: "?q * ?b + ?r * ?b div 10000 = unat v * ?b div 10000"
  proof -
    have "unat v * ?b = (10000 * ?q + ?r) * ?b" by simp
    also have "\<dots> = ?r * ?b + 10000 * (?q * ?b)" by (simp only: algebra_simps)
    finally show ?thesis by simp
  qed
  have "unat v * ?b \<le> unat v * 10000" using assms by simp
  then show le: "unat v * ?b div 10000 \<le> unat v" by (metis div_le_mono nonzero_mult_div_cancel_right zero_neq_numeral)
  have small: "unat v * ?b div 10000 < 2 ^ 128" using le unat_bound128 [of v] by linarith
  have q: "unat (v div 10000) = ?q" and r: "unat (v mod 10000) = ?r" by (simp_all add: unat_div unat_mod)
  have b: "unat (ucast bps :: u128) = ?b" by (rule unat_widen16)
  have whole: "checked_mul (v div 10000) (ucast bps) = Some (of_nat (?q * ?b))"
    using split small q b by (simp add: checked_simps unat_of_nat_exact del: of_nat_mult)
  have "?r * ?b < 2 ^ 128" using mult_le_mono [of ?r 10000 ?b 10000] assms by simp
  then have rem: "unat ((v mod 10000) * ucast bps div 10000) = ?r * ?b div 10000"
    using r b by (simp add: unat_div unat_mul_exact)
  have "checked_add (of_nat (?q * ?b)) ((v mod 10000) * ucast bps div 10000) = Some (of_nat (unat v * ?b div 10000))"
    using split small rem by (simp add: checked_simps unat_of_nat_exact del: of_nat_mult)
  then show "apply_bps v bps = Ok (of_nat (unat v * ?b div 10000))"
    by (simp add: apply_bps_def whole Let_def)
qed

lemma apply_bps_le: "unat bps \<le> 10000 \<Longrightarrow> apply_bps v bps = Ok r \<Longrightarrow> unat r \<le> unat v"
  using apply_bps_exact [of bps v] unat_bound128 [of v] by (auto simp: unat_of_nat_exact)

text \<open>Subtracting what was burned leaves the rest of the bond.\<close>

lemma split_bond: "unat (s :: u128) \<le> unat b \<Longrightarrow> unat (b - s) + unat s = unat b"
  by (simp add: unat_sub_exact word_le_nat_alt)

section \<open>Payments\<close>

text \<open>An engine that differs by paying \<open>n\<close> atoms into the refund balances and the burned total.\<close>

definition paid :: "GovernanceEngine \<Rightarrow> GovernanceEngine \<Rightarrow> nat \<Rightarrow> bool" where
  "paid e e' n \<longleftrightarrow> (\<exists>m b. e' = e\<lparr>ge_refunds := m, ge_burned_atoms := b\<rparr>
     \<and> bt_sum unat m + unat b = bt_sum unat (ge_refunds e) + unat (ge_burned_atoms e) + n)"

lemma paid_refl [simp]: "paid e e 0"
  unfolding paid_def by (intro exI [of _ "ge_refunds e"] exI [of _ "ge_burned_atoms e"]) simp

lemma paid_trans: "paid e f m \<Longrightarrow> paid f g n \<Longrightarrow> paid e g (m + n)"
  by (fastforce simp: paid_def)

lemma paid_frame:
  assumes "paid e e' n"
  shows "ge_parameters e' = ge_parameters e" "ge_proposals e' = ge_proposals e" "ge_stakes e' = ge_stakes e"
  using assms by (auto simp: paid_def)

lemma credit_refund_paid: "credit_refund a n e = (Ok (), e') \<Longrightarrow> paid e e' (unat n)"
proof (cases "n = 0")
  case False
  assume "credit_refund a n e = (Ok (), e')"
  with False obtain b where b: "unat b = unat (case bt_get (ge_refunds e) a of Some b \<Rightarrow> b | None \<Rightarrow> 0) + unat n"
    "e' = e\<lparr>ge_refunds := bt_insert a b (ge_refunds e)\<rparr>"
    by (auto simp: credit_refund_def res_simps checked_simps)
  have "bt_sum unat (bt_insert a b (ge_refunds e)) = bt_sum unat (ge_refunds e) + unat n"
    using b(1) bt_sum_split [of unat "ge_refunds e" a] by (simp add: bt_sum_insert split: option.splits)
  then show ?thesis
    unfolding paid_def
    by (intro exI [of _ "bt_insert a b (ge_refunds e)"] exI [of _ "ge_burned_atoms e"]) (simp add: b(2))
qed (auto simp: credit_refund_def res_simps)

lemma burn_paid: "burn n e = (Ok (), e') \<Longrightarrow> paid e e' (unat n)"
  unfolding paid_def burn_def
  by (auto simp: res_simps checked_simps intro!: exI [of _ "ge_refunds e"])

lemma pay_settlements_paid:
  "pay_settlements ss e = (Ok (), e') \<Longrightarrow> paid e e' (\<Sum>(a, r, b) \<leftarrow> ss. unat r + unat b)"
proof (induction ss arbitrary: e rule: pay_settlements.induct)
  case (2 a r b ss)
  then obtain e1 e2 where "credit_refund a r e = (Ok (), e1)" "burn b e1 = (Ok (), e2)"
    "pay_settlements ss e2 = (Ok (), e')" by (auto simp: res_simps)
  then show ?case
    using paid_trans [OF paid_trans [OF credit_refund_paid burn_paid] "2.IH"] by fastforce
qed (simp add: res_simps)

lemma credit_refunds_paid: "credit_refunds ss e = (Ok (), e') \<Longrightarrow> paid e e' (\<Sum>(a, r) \<leftarrow> ss. unat r)"
proof (induction ss arbitrary: e rule: credit_refunds.induct)
  case (2 a r ss)
  then obtain e1 where "credit_refund a r e = (Ok (), e1)" "credit_refunds ss e1 = (Ok (), e')"
    by (auto simp: res_simps)
  then show ?case using paid_trans [OF credit_refund_paid "2.IH"] by fastforce
qed (simp add: res_simps)

section \<open>Bonds\<close>

definition bond_held :: "('i \<Rightarrow> u128) \<Rightarrow> 'i bonds \<Rightarrow> nat" where
  "bond_held bond items = bt_sum (\<lambda>item. if bo_settled item then 0 else unat (bond (bo_input item))) items"

definition settled_bonds :: "'i bonds \<Rightarrow> 'i bonds" where
  "settled_bonds items = bt_map (\<lambda>cid item. item\<lparr>bo_settled := True\<rparr>) items"

lemma bond_held_settled [simp]: "bond_held bond (settled_bonds items) = 0"
  by (auto simp: bond_held_def settled_bonds_def bt_sum_as_sum)

lemma sum_filter_settled:
  fixes g :: "'a \<Rightarrow> nat"
  shows "(\<Sum>x \<leftarrow> filter (\<lambda>x. \<not> P x) xs. g x) = (\<Sum>x \<leftarrow> xs. if P x then 0 else g x)"
  by (induction xs) auto

lemma bond_held_entries:
  "bond_held bond items = (\<Sum>(cid, item) \<leftarrow> entries items. if bo_settled item then 0 else unat (bond (bo_input item)))"
  by (simp add: bond_held_def bt_sum_def bt_values_def comp_def case_prod_unfold)

lemma settle_bonds_Ok:
  assumes "settle_bonds owner bond (\<lambda>cid. 0) items = Ok (items', ss)"
  shows "items' = settled_bonds items" "(\<Sum>(a, r, b) \<leftarrow> ss. unat r + unat b) = bond_held bond items"
proof -
  let ?xs = "filter (\<lambda>(cid, item). \<not> bo_settled item) (entries items)"
  show "items' = settled_bonds items" using assms by (auto simp: settle_bonds_def settled_bonds_def res_simps)
  have z: "apply_bps v 0 = Ok 0" for v using apply_bps_exact(1) [of 0 v] by simp
  have "list_all2 (\<lambda>(cid, item) s. s = (owner (bo_input item), bond (bo_input item), 0)) ?xs ss"
    using assms by (auto simp: settle_bonds_def res_simps z case_prod_beta elim!: list_all2_mono)
  then have "(\<Sum>(a, r, b) \<leftarrow> ss. unat r + unat b) = (\<Sum>(cid, item) \<leftarrow> ?xs. unat (bond (bo_input item)))"
    by (induction rule: list_all2_induct) auto
  also have "\<dots> = bond_held bond items"
    by (simp add: bond_held_entries case_prod_unfold sum_filter_settled)
  finally show "(\<Sum>(a, r, b) \<leftarrow> ss. unat r + unat b) = bond_held bond items" .
qed

lemma release_bonds_sum:
  assumes "release_bonds owner bond items = (items', ss)"
  shows "items' = settled_bonds items" "(\<Sum>(a, r) \<leftarrow> ss. unat r) = bond_held bond items"
proof -
  show "items' = settled_bonds items" using assms by (simp add: release_bonds_def settled_bonds_def)
  have "(\<Sum>(a, r) \<leftarrow> ss. unat r) = (\<Sum>item \<leftarrow> filter (\<lambda>item. \<not> bo_settled item) (bt_values items). unat (bond (bo_input item)))"
    using assms by (auto simp: release_bonds_def comp_def)
  also have "\<dots> = bond_held bond items"
    by (simp add: sum_filter_settled bond_held_def bt_sum_def bt_values_def comp_def)
  finally show "(\<Sum>(a, r) \<leftarrow> ss. unat r) = bond_held bond items" .
qed

definition proposal_held :: "ProposalRecord \<Rightarrow> nat" where
  "proposal_held p = (if pr_proposal_bond_settled p then 0 else unat (cp_proposal_bond_atoms (pr_content p)))
     + bond_held aa_bond_atoms (pr_agents p) + bond_held ba_bond_atoms (pr_builders p)
     + bond_held da_bond_atoms (pr_availability p)"

definition settled_proposal :: "ProposalRecord \<Rightarrow> ProposalRecord" where
  "settled_proposal p = p\<lparr>pr_proposal_bond_settled := True, pr_agents := settled_bonds (pr_agents p),
     pr_builders := settled_bonds (pr_builders p), pr_availability := settled_bonds (pr_availability p)\<rparr>"

lemma proposal_held_settled [simp]: "proposal_held (settled_proposal p) = 0"
  by (simp add: proposal_held_def settled_proposal_def)

lemma refund_unsettled_Ok:
  assumes "refund_unsettled_attestations pid None e = (Ok (), e')"
  obtains p where "bt_get (ge_proposals e) pid = Some p"
    "paid (e\<lparr>ge_proposals := bt_insert pid (p\<lparr>pr_agents := settled_bonds (pr_agents p),
       pr_builders := settled_bonds (pr_builders p), pr_availability := settled_bonds (pr_availability p)\<rparr>) (ge_proposals e)\<rparr>) e'
       (bond_held aa_bond_atoms (pr_agents p) + bond_held ba_bond_atoms (pr_builders p) + bond_held da_bond_atoms (pr_availability p))"
proof -
  obtain p a s1 b s2 c s3 where p: "bt_get (ge_proposals e) pid = Some p"
    and s: "settle_bonds aa_owner_address aa_bond_atoms (\<lambda>cid. 0) (pr_agents p) = Ok (a, s1)"
      "settle_bonds ba_builder_address ba_bond_atoms (\<lambda>cid. 0) (pr_builders p) = Ok (b, s2)"
      "settle_bonds da_operator_address da_bond_atoms (\<lambda>cid. 0) (pr_availability p) = Ok (c, s3)"
    and pay: "pay_settlements (s1 @ s2 @ s3) (e\<lparr>ge_proposals := bt_insert pid
       (p\<lparr>pr_agents := a, pr_builders := b, pr_availability := c\<rparr>) (ge_proposals e)\<rparr>) = (Ok (), e')"
    using assms by (auto simp: refund_unsettled_attestations_def proposal_mut_def put_proposal_def res_simps Let_def)
  show ?thesis
    using that [OF p] pay_settlements_paid [OF pay] s [THEN settle_bonds_Ok(1)] s [THEN settle_bonds_Ok(2)]
    by (simp add: add.assoc)
qed

text \<open>Settling a proposal pays out everything it still holds.\<close>

lemma settle_proposal_Ok:
  assumes "settle_proposal X pid pay e = (Ok (), e')"
    and pay: "\<And>a b e1 e2. ge_parameters e1 = ge_parameters e \<Longrightarrow> pay a b e1 = (Ok (), e2) \<Longrightarrow> paid e1 e2 (unat b)"
  obtains p m b c where "bt_get (ge_proposals e) pid = Some p"
    "e' = e\<lparr>ge_proposals := bt_insert pid (settled_proposal p) (ge_proposals e), ge_refunds := m, ge_burned_atoms := b,
       ge_active_review_candidates := c\<rparr>"
    "bt_sum unat m + unat b = bt_sum unat (ge_refunds e) + unat (ge_burned_atoms e) + proposal_held p"
proof -
  let ?b = "\<lambda>p. cp_proposal_bond_atoms (pr_content p)"
  obtain p e1 e2 where p: "bt_get (ge_proposals e) pid = Some p"
    and e1: "(if pr_proposal_bond_settled p then retA () else pay (cp_proposer_address (pr_content p)) (?b p))
        (e\<lparr>ge_proposals := bt_insert pid (p\<lparr>pr_proposal_bond_settled := True\<rparr>) (ge_proposals e)\<rparr>) = (Ok (), e1)"
    and e2: "refund_unsettled_attestations pid None e1 = (Ok (), e2)"
    and e3: "release_review_candidate_for_proposal X pid e2 = (Ok (), e')"
    using assms(1) by (auto simp: settle_proposal_def proposal_mut_def put_proposal_def res_simps)
  let ?e = "e\<lparr>ge_proposals := bt_insert pid (p\<lparr>pr_proposal_bond_settled := True\<rparr>) (ge_proposals e)\<rparr>"
  have P1: "paid ?e e1 (if pr_proposal_bond_settled p then 0 else unat (?b p))"
    using e1 pay [of ?e] by (auto simp: res_simps split: if_splits)
  then have "ge_proposals e1 = ge_proposals ?e" by (rule paid_frame)
  then have "bt_get (ge_proposals e1) pid = Some (p\<lparr>pr_proposal_bond_settled := True\<rparr>)"
    "bt_insert pid q (ge_proposals e1) = bt_insert pid q (ge_proposals e)" for q by (simp_all add: btm.ins_ins)
  then have "paid (e1\<lparr>ge_proposals := bt_insert pid (settled_proposal p) (ge_proposals e)\<rparr>) e2
      (bond_held aa_bond_atoms (pr_agents p) + bond_held ba_bond_atoms (pr_builders p) + bond_held da_bond_atoms (pr_availability p))"
    using refund_unsettled_Ok [OF e2] by (auto simp: settled_proposal_def)
  then obtain m b where "e2 = e\<lparr>ge_proposals := bt_insert pid (settled_proposal p) (ge_proposals e), ge_refunds := m, ge_burned_atoms := b\<rparr>"
    "bt_sum unat m + unat b = bt_sum unat (ge_refunds e) + unat (ge_burned_atoms e) + proposal_held p"
    using P1 by (fastforce simp: paid_def proposal_held_def)
  then show ?thesis
    using that [OF p] e3 by (fastforce simp: release_review_candidate_for_proposal_def proposal_mut_def res_simps Let_def)
qed

section \<open>Stakes\<close>

definition stake_held :: "StakePosition \<Rightarrow> nat" where
  "stake_held p = unat (sp_active_atoms p) + nsum (map sl_atoms (sp_pending p)) + nsum (map sw_atoms (sp_unbonding p))"

lemma sync_lots_sum:
  "try_fold (sync_lot n) (a, s) lots = Ok (a', s') \<Longrightarrow>
     unat a' + nsum (map sl_atoms s') = unat a + nsum (map sl_atoms s) + nsum (map sl_atoms lots)"
  by (induction lots arbitrary: a s) (auto simp: sync_lot_def res_simps checked_simps split: if_splits)

lemma sync_withdrawals_sum:
  "try_fold (sync_withdrawal n) (a, u, s) ws = Ok (a', u', s') \<Longrightarrow>
     unat a' + nsum (map sw_atoms u') = unat a + nsum (map sw_atoms u)"
proof (induction ws arbitrary: a u s)
  case (Cons w ws)
  then obtain a1 u1 s1 where r: "sync_withdrawal n (a, u, s) w = Ok (a1, u1, s1)"
    "try_fold (sync_withdrawal n) (a1, u1, s1) ws = Ok (a', u', s')"
    by (auto simp: res_simps)
  have "unat a1 + nsum (map sw_atoms u1) = unat a + nsum (map sw_atoms u)"
    using r(1) by (auto simp: sync_withdrawal_def res_simps checked_simps split: if_splits)
  then show ?case using Cons.IH [OF r(2)] by simp
qed simp

lemma sync_position_held: "sync_position p n = Ok p' \<Longrightarrow> stake_held p' = stake_held p"
  by (auto simp: sync_position_def res_simps stake_held_def dest!: sync_lots_sum sync_withdrawals_sum)

lemma release_items_sum:
  "try_fold (release_item n) (r, s) ws = Ok (r', s') \<Longrightarrow>
     unat r' + nsum (map sw_atoms s') = unat r + nsum (map sw_atoms s) + nsum (map sw_atoms ws)"
  by (induction ws arbitrary: r s) (auto simp: release_item_def res_simps checked_simps split: if_splits)

lemma reduce_items_sum:
  assumes "\<And>a x. f (g a x) = a" and "reduce_items f g n xs = (ys, k)"
  shows "nsum (map f ys) + unat n = nsum (map f xs) + unat k \<and> unat k \<le> unat n"
  using assms(2)
proof (induction xs arbitrary: n ys k)
  case (Cons x xs)
  let ?m = "min (f x) n"
  obtain zs where z: "reduce_items f g (n - ?m) xs = (zs, k)" "ys = g (f x - ?m) x # zs"
    using Cons.prems by (auto simp: Let_def split: prod.splits)
  have "unat (f x - ?m) + unat ?m = unat (f x)" "unat (n - ?m) + unat ?m = unat n"
    by (simp_all add: split_bond word_le_nat_alt [symmetric])
  moreover have "nsum (map f ys) = unat (f x - ?m) + nsum (map f zs)" using z(2) assms(1) by simp
  ultimately show ?case using Cons.IH [OF z(1)] by simp
qed simp

lemma nsum_filter_pos: "nsum (map f (filter (\<lambda>x. f x > 0) xs)) = nsum (map f xs)"
  by (induction xs) (auto simp: word_neq_0_conv [symmetric])

lemma stake_sum_insert:
  "bt_sum stake_held (bt_insert a p (ge_stakes e)) + stake_held (stake_entry e a) = bt_sum stake_held (ge_stakes e) + stake_held p"
  using bt_sum_split [of stake_held "ge_stakes e" a]
  by (auto simp: bt_sum_insert stake_entry_def stake_held_def default_position_def split: option.splits)

lemma slash_position_held:
  assumes "slash_position p bps = Ok (s, p')"
  shows "stake_held p' + unat s = stake_held p"
proof -
  obtain us r1 where r1: "reduce_items sw_atoms (\<lambda>a w. w\<lparr>sw_atoms := a\<rparr>) s (sp_unbonding p) = (us, r1)" by fastforce
  obtain ps r2 where r2: "reduce_items sl_atoms (\<lambda>a l. l\<lparr>sl_atoms := a\<rparr>) r1 (sp_pending p) = (ps, r2)" by fastforce
  have zero: "r2 - min (sp_active_atoms p) r2 = 0"
    and p': "sp_active_atoms p' = sp_active_atoms p - min (sp_active_atoms p) r2"
      "sp_pending p' = filter (\<lambda>l. sl_atoms l > 0) ps" "sp_unbonding p' = filter (\<lambda>w. sw_atoms w > 0) us"
    using assms r1 r2 by (auto simp: slash_position_def res_simps Let_def case_prod_unfold)
  have "nsum (map sw_atoms us) + unat s = nsum (map sw_atoms (sp_unbonding p)) + unat r1"
    "nsum (map sl_atoms ps) + unat r1 = nsum (map sl_atoms (sp_pending p)) + unat r2"
    using reduce_items_sum [OF _ r1] reduce_items_sum [OF _ r2] by simp_all
  moreover have "r2 \<le> sp_active_atoms p" using zero by (metis eq_iff_diff_eq_0 min.cobounded1)
  then have "unat (sp_active_atoms p') + unat r2 = unat (sp_active_atoms p)"
    using p'(1) by (simp add: min_absorb2 split_bond word_le_nat_alt)
  ultimately show ?thesis using p'(2,3) by (simp add: stake_held_def nsum_filter_pos)
qed

lemma slash_governance_stake_Ok:
  assumes "slash_governance_stake a bps e = (Ok s, e')"
  obtains st b where "e' = e\<lparr>ge_stakes := st, ge_burned_atoms := b\<rparr>"
    "bt_sum stake_held st + unat b = bt_sum stake_held (ge_stakes e) + unat (ge_burned_atoms e)"
proof (cases "bt_get (ge_stakes e) a")
  case None
  then show ?thesis using assms that [where st = "ge_stakes e" and b = "ge_burned_atoms e"]
    by (auto simp: slash_governance_stake_def res_simps)
next
  case (Some p)
  then obtain p' b where p': "slash_position p bps = Ok (s, p')" and b: "unat b = unat (ge_burned_atoms e) + unat s"
    and e': "e' = e\<lparr>ge_stakes := bt_insert a p' (ge_stakes e), ge_burned_atoms := b\<rparr>"
    using assms by (auto simp: slash_governance_stake_def res_simps burn_def put_stake_def checked_simps)
  have "stake_entry e a = p" using Some by (simp add: stake_entry_def)
  then show ?thesis using that [OF e'] slash_position_held [OF p'] stake_sum_insert [of a p' e] b by simp
qed

section \<open>Valid parameters\<close>

definition valid_params :: "GovernanceEngine \<Rightarrow> bool" where
  "valid_params e \<longleftrightarrow> validate_governance_parameters (ge_parameters e) = Ok ()"

lemma valid_params_bps:
  assumes "valid_params e"
  shows "unat (bp_rejected_return_bps (gs_proposal_bond_policy (ge_parameters e))) \<le> 10000"
    "unat (bp_expired_slash_bps (gs_proposal_bond_policy (ge_parameters e))) \<le> 10000"
    "unat (os_fraudulent_proposal_slash_bps (gs_objective_slash_policy (ge_parameters e))) \<le> 10000"
    "unat (os_fraudulent_reviewer_slash_bps (gs_objective_slash_policy (ge_parameters e))) \<le> 10000"
    "unat (os_fraudulent_builder_slash_bps (gs_objective_slash_policy (ge_parameters e))) \<le> 10000"
    "unat (os_unavailable_data_slash_bps (gs_objective_slash_policy (ge_parameters e))) \<le> 10000"
  using assms by (simp_all add: valid_params_def validate_governance_parameters_def word_less_nat_alt not_less split: if_splits)

text \<open>Splitting a bond into a refund and a burned part pays the whole bond.\<close>

lemma refund_then_burn_paid:
  assumes "unat s \<le> unat b" and "bindA (credit_refund a s) (\<lambda>_. burn (b - s)) e = (Ok (), e')"
  shows "paid e e' (unat b)"
  using assms(2) paid_trans [OF credit_refund_paid burn_paid] split_bond [OF assms(1)]
  by (auto simp: res_simps) (metis add.commute)

lemma burn_then_refund_paid:
  assumes "unat s \<le> unat b" and "bindA (burn s) (\<lambda>_. credit_refund a (b - s)) e = (Ok (), e')"
  shows "paid e e' (unat b)"
  using assms(2) paid_trans [OF burn_paid credit_refund_paid] split_bond [OF assms(1)]
  by (auto simp: res_simps) (metis add.commute)

lemma invalidate_bond_held:
  assumes "invalidate_bond cid items = Ok (i, items')"
  shows "bond_held bond items' + unat (bond i) = bond_held bond items"
proof -
  obtain item where item: "bt_get items cid = Some item" "\<not> bo_settled item" "i = bo_input item"
    "items' = bt_insert cid (item\<lparr>bo_settled := True, bo_invalid := True\<rparr>) items"
    using assms by (auto simp: invalidate_bond_def split: option.splits if_splits)
  then show ?thesis
    using bt_sum_split [of "\<lambda>item. if bo_settled item then 0 else unat (bond (bo_input item))" items cid]
    by (simp add: bond_held_def bt_sum_insert)
qed

lemma invalidate_target_Ok:
  assumes "invalidate_target (gs_objective_slash_policy (ge_parameters e)) p c = Ok (offender, bond, bps, p')" and "valid_params e"
  shows "p' = p\<lparr>pr_agents := pr_agents p', pr_builders := pr_builders p', pr_availability := pr_availability p'\<rparr>"
    "proposal_held p' + unat bond = proposal_held p" "unat bps \<le> 10000"
proof -
  have "p' = p\<lparr>pr_agents := pr_agents p', pr_builders := pr_builders p', pr_availability := pr_availability p'\<rparr>
    \<and> proposal_held p' + unat bond = proposal_held p \<and> unat bps \<le> 10000"
  proof (cases "pc_target_type c")
    case Target_Agent
    then show ?thesis
      using assms(1) valid_params_bps(4) [OF assms(2)] invalidate_bond_held [where bond = aa_bond_atoms]
      by (auto simp: invalidate_target_def res_simps proposal_held_def)
  next
    case Target_Builder
    then show ?thesis
      using assms(1) valid_params_bps(5) [OF assms(2)] invalidate_bond_held [where bond = ba_bond_atoms]
      by (auto simp: invalidate_target_def res_simps proposal_held_def)
  next
    case Target_Availability
    then show ?thesis
      using assms(1) valid_params_bps(6) [OF assms(2)] invalidate_bond_held [where bond = da_bond_atoms]
      by (auto simp: invalidate_target_def res_simps proposal_held_def)
  qed
  then show "p' = p\<lparr>pr_agents := pr_agents p', pr_builders := pr_builders p', pr_availability := pr_availability p'\<rparr>"
    "proposal_held p' + unat bond = proposal_held p" "unat bps \<le> 10000" by blast+
qed

lemma invalidate_Ok:
  assumes "invalidate_and_slash_attestation pid c e = (Ok offender, e')" and "valid_params e"
  obtains p p' A B C m b st where "bt_get (ge_proposals e) pid = Some p"
    "p' = p\<lparr>pr_agents := A, pr_builders := B, pr_availability := C\<rparr>"
    "e' = e\<lparr>ge_proposals := bt_insert pid p' (ge_proposals e), ge_refunds := m, ge_burned_atoms := b, ge_stakes := st\<rparr>"
    "bt_sum unat m + unat b + bt_sum stake_held st + proposal_held p'
      = bt_sum unat (ge_refunds e) + unat (ge_burned_atoms e) + bt_sum stake_held (ge_stakes e) + proposal_held p"
proof -
  let ?policy = "gs_objective_slash_policy (ge_parameters e)"
  obtain p p' bond bps burned e1 e2 s where p: "bt_get (ge_proposals e) pid = Some p"
    and p': "invalidate_target ?policy p c = Ok (offender, bond, bps, p')" and burned: "apply_bps bond bps = Ok burned"
    and e1: "credit_refund offender (bond - burned) (e\<lparr>ge_proposals := bt_insert pid p' (ge_proposals e)\<rparr>) = (Ok (), e1)"
    and e2: "burn burned e1 = (Ok (), e2)"
    and e3: "slash_governance_stake offender (os_fraudulent_actor_stake_slash_bps ?policy) e2 = (Ok s, e')"
    using assms(1) by (auto simp: invalidate_and_slash_attestation_def proposal_mut_def put_proposal_def res_simps)
  note target = invalidate_target_Ok [OF p' assms(2)]
  have "unat (bond - burned) + unat burned = unat bond" using split_bond apply_bps_le [OF target(3) burned] by blast
  then have "paid (e\<lparr>ge_proposals := bt_insert pid p' (ge_proposals e)\<rparr>) e2 (unat bond)"
    using paid_trans [OF credit_refund_paid [OF e1] burn_paid [OF e2]] by simp
  then obtain m b where e2': "e2 = e\<lparr>ge_proposals := bt_insert pid p' (ge_proposals e), ge_refunds := m, ge_burned_atoms := b\<rparr>"
    "bt_sum unat m + unat b = bt_sum unat (ge_refunds e) + unat (ge_burned_atoms e) + unat bond"
    by (auto simp: paid_def)
  obtain st b' where st: "e' = e2\<lparr>ge_stakes := st, ge_burned_atoms := b'\<rparr>"
    "bt_sum stake_held st + unat b' = bt_sum stake_held (ge_stakes e2) + unat (ge_burned_atoms e2)"
    using slash_governance_stake_Ok [OF e3] .
  have "e' = e\<lparr>ge_proposals := bt_insert pid p' (ge_proposals e), ge_refunds := m, ge_burned_atoms := b', ge_stakes := st\<rparr>"
    using st(1) e2'(1) by simp
  then show ?thesis using that [OF p target(1)] st(2) e2' target(2) by simp
qed

end
