(* ===== verification/GovRun.thy ===== *)
theory GovRun
  imports GovSettle
begin

text \<open>
  Calls of the governance engine and sequences of them. One call changes at most one proposal, along an
  edge of the lifecycle, moves the canonical CID only by executing a proposal, and accounts for every
  atom; this is \<open>engine_next\<close>, proved here for every call.
\<close>

section \<open>Calls and runs\<close>

datatype GovCall =
    RegisterIdentityMetrics string GovernanceIdentityMetricsProofV1
  | RegisterStake string u128 GovernanceClock
  | ScheduleWithdrawal string u128 GovernanceClock
  | FinalizeUnbonding string GovernanceClock
  | ViewStakePosition string u16
  | ExpireReviewRound string GovernanceClock
  | OpenReview string GovernanceClock
  | OpenVoting string GovernanceClock
  | CastVote string string VoteChoice GovernanceClock
  | FinalizeVoting string GovernanceClock
  | SubmitObjectiveChallenge string ObjectiveChallengeInputV1 GovernanceClock
  | ResolveObjectiveChallenge string
  | CloseChallengePeriod string GovernanceClock
  | ExecuteProposal string GovernanceClock
  | ExpireProposal string GovernanceClock
  | MarkStale string
  | WithdrawRefund string

text \<open>A call returns the atoms it hands out, which is zero for every call but a withdrawal.\<close>

definition quiet :: "(GovernanceEngine, GovernanceError, 'a) act \<Rightarrow> (GovernanceEngine, GovernanceError, u128) act" where
  "quiet m = bindA m (\<lambda>_. retA 0)"

fun gov_call :: "extern \<Rightarrow> GovCall \<Rightarrow> (GovernanceEngine, GovernanceError, u128) act" where
  "gov_call X (RegisterIdentityMetrics caller proof) = quiet (register_identity_metrics X caller proof)"
| "gov_call X (RegisterStake caller atoms clock) = quiet (register_stake X caller atoms clock)"
| "gov_call X (ScheduleWithdrawal caller atoms clock) = quiet (schedule_withdrawal X caller atoms clock)"
| "gov_call X (FinalizeUnbonding caller clock) = quiet (finalize_unbonding X caller clock)"
| "gov_call X (ViewStakePosition caller epoch) = quiet (stake_position X caller epoch)"
| "gov_call X (ExpireReviewRound rid clock) = quiet (expire_review_round X rid clock)"
| "gov_call X (OpenReview pid clock) = quiet (open_review X pid clock)"
| "gov_call X (OpenVoting pid clock) = quiet (open_voting X pid clock)"
| "gov_call X (CastVote pid voter choice clock) = quiet (cast_vote X pid voter choice clock)"
| "gov_call X (FinalizeVoting pid clock) = quiet (finalize_voting X pid clock)"
| "gov_call X (SubmitObjectiveChallenge pid input clock) = quiet (submit_objective_challenge X pid input clock)"
| "gov_call X (ResolveObjectiveChallenge pid) = quiet (resolve_objective_challenge X pid)"
| "gov_call X (CloseChallengePeriod pid clock) = quiet (close_challenge_period pid clock)"
| "gov_call X (ExecuteProposal pid clock) = quiet (execute_proposal X pid clock)"
| "gov_call X (ExpireProposal pid clock) = quiet (expire_proposal X pid clock)"
| "gov_call X (MarkStale pid) = quiet (mark_stale X pid)"
| "gov_call X (WithdrawRefund caller) = withdraw_refund X caller"

inductive gov_run ::
  "extern \<Rightarrow> GovernanceEngine \<Rightarrow> (GovCall \<times> (GovernanceError, u128) res) list \<Rightarrow> GovernanceEngine \<Rightarrow> bool" for X where
  stop: "gov_run X e [] e"
| call: "gov_call X c e = (r, e1) \<Longrightarrow> r \<noteq> Panic \<Longrightarrow> gov_run X e1 log e' \<Longrightarrow> gov_run X e ((c, r) # log) e'"

section \<open>Atoms\<close>

definition round_held :: "ReviewRoundRecord \<Rightarrow> nat" where
  "round_held r = (if round_is_open r then unat (rr_bond_atoms r) + bond_held aa_bond_atoms (rr_agents r)
     + bond_held ba_bond_atoms (rr_builders r) + bond_held da_bond_atoms (rr_availability r) else 0)"

text \<open>The atoms the engine answers for: stakes, open bonds, refunds, and what was burned.\<close>

definition held :: "GovernanceEngine \<Rightarrow> nat" where
  "held e = bt_sum stake_held (ge_stakes e) + bt_sum round_held (ge_review_rounds e)
     + bt_sum proposal_held (ge_proposals e) + bt_sum unat (ge_refunds e) + unat (ge_burned_atoms e)"

fun deposited :: "GovCall \<times> (GovernanceError, u128) res \<Rightarrow> nat" where
  "deposited (RegisterStake caller atoms clock, Ok _) = unat atoms"
| "deposited _ = 0"

fun withdrawn :: "GovCall \<times> (GovernanceError, u128) res \<Rightarrow> nat" where
  "withdrawn (_, Ok amount) = unat amount"
| "withdrawn _ = 0"

section \<open>Lifecycle and votes of one proposal\<close>

text \<open>The moves of a proposal, each with the call that makes it on the proposal it names.\<close>

inductive call_edge :: "GovCall \<Rightarrow> string \<Rightarrow> ProposalState \<Rightarrow> ProposalState \<Rightarrow> bool" where
  review: "call_edge (OpenReview pid clock) pid Draft ReviewOpen"
| voting: "call_edge (OpenVoting pid clock) pid ReviewOpen VotingOpen"
| vote: "call_edge (CastVote pid voter choice clock) pid VotingOpen VotingOpen"
| accepted: "call_edge (FinalizeVoting pid clock) pid VotingOpen AcceptedPendingChallenge"
| rejected: "call_edge (FinalizeVoting pid clock) pid VotingOpen Rejected"
| challenged: "call_edge (SubmitObjectiveChallenge pid input clock) pid AcceptedPendingChallenge Challenged"
| dismissed: "call_edge (ResolveObjectiveChallenge pid) pid Challenged AcceptedPendingChallenge"
| upheld: "call_edge (ResolveObjectiveChallenge pid) pid Challenged Expired"
| fraud: "call_edge (ResolveObjectiveChallenge pid) pid Challenged Rejected"
| closed: "call_edge (CloseChallengePeriod pid clock) pid AcceptedPendingChallenge AcceptedPendingExecution"
| executed: "call_edge (ExecuteProposal pid clock) pid AcceptedPendingExecution Executed"
| late: "call_edge (ExecuteProposal pid clock) pid AcceptedPendingExecution Expired"
| expired: "s \<in> {Draft, ReviewOpen, AcceptedPendingExecution} \<Longrightarrow> call_edge (ExpireProposal pid clock) pid s Expired"
| stale: "\<not> is_terminal s \<Longrightarrow> call_edge (MarkStale pid) pid s Stale"
| stale_review: "\<not> is_terminal s \<Longrightarrow> call_edge (OpenReview pid clock) pid s Stale"
| stale_voting: "\<not> is_terminal s \<Longrightarrow> call_edge (OpenVoting pid clock) pid s Stale"
| stale_result: "\<not> is_terminal s \<Longrightarrow> call_edge (FinalizeVoting pid clock) pid s Stale"
| stale_execution: "call_edge (ExecuteProposal pid clock) pid AcceptedPendingExecution Stale"

inductive_simps call_edge_simps [simp]:
  "call_edge (OpenReview pid clock) q s t" "call_edge (OpenVoting pid clock) q s t" "call_edge (CastVote pid voter choice clock) q s t"
  "call_edge (FinalizeVoting pid clock) q s t" "call_edge (SubmitObjectiveChallenge pid input clock) q s t"
  "call_edge (ResolveObjectiveChallenge pid) q s t" "call_edge (CloseChallengePeriod pid clock) q s t"
  "call_edge (ExecuteProposal pid clock) q s t" "call_edge (ExpireProposal pid clock) q s t" "call_edge (MarkStale pid) q s t"

definition lifecycle_edge :: "ProposalState \<Rightarrow> ProposalState \<Rightarrow> bool" where
  "lifecycle_edge s t \<longleftrightarrow> (\<exists>c pid. call_edge c pid s t)"

lemma terminal_no_edge: "lifecycle_edge s t \<Longrightarrow> \<not> is_terminal s"
  by (auto simp: lifecycle_edge_def elim!: call_edge.cases)

definition gates_ok :: "ProposalRecord \<Rightarrow> bool" where
  "gates_ok p \<longleftrightarrow>
     (pr_state p \<in> {AcceptedPendingChallenge, Challenged, AcceptedPendingExecution, Executed} \<longrightarrow>
      (\<exists>g. pr_gates p = Some g \<and> gr_accepted g))"

definition vote_sum :: "VoteChoice \<Rightarrow> (string, GovernanceVoteReceiptV1) btree \<Rightarrow> nat" where
  "vote_sum choice votes = bt_sum (\<lambda>r. if vr_choice r = choice then unat (vr_effective_vote_weight r) else 0) votes"

text \<open>The running totals are the sums over the receipts, and every receipt carries its voter's snapshot weight.\<close>

definition tally_ok :: "ProposalRecord \<Rightarrow> bool" where
  "tally_ok p \<longleftrightarrow>
     unat (pr_yes_weight p) = vote_sum Yes (pr_votes p) \<and> unat (pr_no_weight p) = vote_sum No (pr_votes p)
     \<and> unat (pr_abstain_weight p) = vote_sum Abstain (pr_votes p)
     \<and> (\<forall>v r. bt_get (pr_votes p) v = Some r \<longrightarrow>
          (\<exists>s. bt_get (pr_voter_snapshot p) v = Some s \<and> vr_effective_vote_weight r = vs_weight s))"

definition proposal_next :: "(ProposalState \<Rightarrow> ProposalState \<Rightarrow> bool) \<Rightarrow> ProposalRecord \<Rightarrow> ProposalRecord \<Rightarrow> bool" where
  "proposal_next E p p' \<longleftrightarrow> p' = p \<or>
     (pr_id p' = pr_id p \<and> pr_content p' = pr_content p \<and> E (pr_state p) (pr_state p')
      \<and> pr_voter_snapshot p' = pr_voter_snapshot p \<and> pr_total_registered_weight p' = pr_total_registered_weight p
      \<and> (gates_ok p \<longrightarrow> gates_ok p') \<and> (tally_ok p \<longrightarrow> tally_ok p'))"

lemma proposal_next_refl [simp]: "proposal_next E p p"
  by (simp add: proposal_next_def)

lemma tally_ok_cong:
  "pr_votes p' = pr_votes p \<Longrightarrow> pr_voter_snapshot p' = pr_voter_snapshot p \<Longrightarrow> pr_yes_weight p' = pr_yes_weight p \<Longrightarrow>
   pr_no_weight p' = pr_no_weight p \<Longrightarrow> pr_abstain_weight p' = pr_abstain_weight p \<Longrightarrow> tally_ok p' = tally_ok p"
  by (simp add: tally_ok_def)

lemma proposal_nextI:
  assumes "E (pr_state p) (pr_state p')" and "gates_ok p \<Longrightarrow> gates_ok p'"
    and "pr_id p' = pr_id p" "pr_content p' = pr_content p" "pr_voter_snapshot p' = pr_voter_snapshot p"
      "pr_total_registered_weight p' = pr_total_registered_weight p"
    and "pr_votes p' = pr_votes p" "pr_yes_weight p' = pr_yes_weight p" "pr_no_weight p' = pr_no_weight p"
      "pr_abstain_weight p' = pr_abstain_weight p"
  shows "proposal_next E p p'"
  using assms tally_ok_cong [of p' p] by (simp add: proposal_next_def)

section \<open>What one call does\<close>

definition canonical_next :: "GovernanceEngine \<Rightarrow> GovernanceEngine \<Rightarrow> bool" where
  "canonical_next e e' \<longleftrightarrow>
     (ge_canonical_ecosystem_cid e' = ge_canonical_ecosystem_cid e \<and> ge_events e' = ge_events e) \<or>
     (\<exists>pid p p'. bt_get (ge_proposals e) pid = Some p \<and> bt_get (ge_proposals e') pid = Some p'
       \<and> pr_state p = AcceptedPendingExecution \<and> pr_state p' = Executed
       \<and> cp_parent_canonical_ecosystem_cid (pr_content p) = ge_canonical_ecosystem_cid e
       \<and> ge_canonical_ecosystem_cid e' = cp_candidate_ecosystem_cid (pr_content p)
       \<and> ge_events e' = ge_events e @ [CanonicalEcosystemChanged (ge_canonical_ecosystem_cid e)
           (cp_candidate_ecosystem_cid (pr_content p)) (pr_id p) (cp_agent_review_root (pr_content p))
           (cp_build_attestation_root (pr_content p)) (cp_data_availability_root (pr_content p))])"

definition engine_next :: "(string \<Rightarrow> ProposalState \<Rightarrow> ProposalState \<Rightarrow> bool) \<Rightarrow> nat \<Rightarrow> nat \<Rightarrow> GovernanceEngine \<Rightarrow> GovernanceEngine \<Rightarrow> bool" where
  "engine_next E i out e e' \<longleftrightarrow> held e' + out = held e + i \<and> ge_parameters e' = ge_parameters e
     \<and> (\<forall>pid. rel_option (proposal_next (E pid)) (bt_get (ge_proposals e) pid) (bt_get (ge_proposals e') pid))
     \<and> canonical_next e e'"

lemma rel_option_refl [simp]: "rel_option (proposal_next E) x x"
  by (cases x) simp_all

lemma engine_next_refl [simp]: "engine_next E 0 0 e e"
  by (simp add: engine_next_def canonical_next_def)

text \<open>A change that touches neither the proposals nor the canonical CID.\<close>

lemma engine_next_outside:
  assumes "held e' + out = held e + i" and "ge_parameters e' = ge_parameters e" and "ge_proposals e' = ge_proposals e"
    and "ge_canonical_ecosystem_cid e' = ge_canonical_ecosystem_cid e" and "ge_events e' = ge_events e"
  shows "engine_next E i out e e'"
  using assms by (simp add: engine_next_def canonical_next_def)

text \<open>A change of one proposal.\<close>

lemma engine_next_proposal:
  assumes "bt_get (ge_proposals e) pid = Some p" and "ge_proposals e' = bt_insert pid p' (ge_proposals e)"
    and "proposal_next (E pid) p p'" and "held e' = held e" and "ge_parameters e' = ge_parameters e" and "canonical_next e e'"
  shows "engine_next E 0 0 e e'"
  using assms by (simp add: engine_next_def)

lemma held_proposal:
  assumes "bt_get (ge_proposals e) pid = Some p"
  shows "bt_sum proposal_held (bt_insert pid p' (ge_proposals e)) + proposal_held p = bt_sum proposal_held (ge_proposals e) + proposal_held p'"
  using bt_sum_split [of proposal_held "ge_proposals e" pid] assms by (simp add: bt_sum_insert)

lemma put_proposal_next:
  assumes "bt_get (ge_proposals e) pid = Some p" and "put_proposal pid p' e = (Ok (), e')"
    and "proposal_next (E pid) p p'" and "proposal_held p' = proposal_held p"
  shows "engine_next E 0 0 e e'"
  using assms held_proposal [OF assms(1), of p']
  by (intro engine_next_proposal [OF assms(1)]) (auto simp: put_proposal_def res_simps held_def canonical_next_def)

section \<open>Atomic calls\<close>

lemma with_atomic_Ok_iff [res_simps]: "with_atomic_state m e = (Ok v, e') \<longleftrightarrow> m e = (Ok v, e')"
  by (auto simp: with_atomic_state_def split: prod.splits res.splits)

lemma with_atomic_Err: "with_atomic_state m e = (Err x, e') \<Longrightarrow> e' = e"
  by (auto simp: with_atomic_state_def split: prod.splits res.splits)

section \<open>Stakes\<close>

lemma put_stake_held:
  assumes "put_stake a p e = (Ok (), e')" and "stake_held p + n = stake_held (stake_entry e a) + k"
  shows "held e' + n = held e + k"
  using assms stake_sum_insert [of a p e] by (auto simp: put_stake_def res_simps held_def)

lemma put_stake_next:
  assumes "put_stake a p e = (Ok (), e')" and "stake_held p = stake_held (stake_entry e a) + k"
  shows "engine_next E k 0 e e'"
  using put_stake_held [OF assms(1), where n = 0 and k = k] assms
  by (intro engine_next_outside) (auto simp: put_stake_def res_simps)

lemma register_stake_next: "register_stake X a n clock e = (Ok (), e') \<Longrightarrow> engine_next E (unat n) 0 e e'"
  by (auto simp: register_stake_def res_simps stake_held_def dest!: sync_position_held elim!: put_stake_next)

lemma schedule_withdrawal_next: "schedule_withdrawal X a n clock e = (Ok (), e') \<Longrightarrow> engine_next E 0 0 e e'"
  by (auto simp: schedule_withdrawal_def res_simps stake_held_def dest!: sync_position_held elim!: put_stake_next)

lemma stake_position_next: "stake_position X a n e = (Ok v, e') \<Longrightarrow> engine_next E 0 0 e e'"
  by (auto simp: stake_position_def res_simps dest!: sync_position_held elim!: put_stake_next)

lemma finalize_unbonding_next:
  assumes "finalize_unbonding X a clock e = (Ok v, e')"
  shows "engine_next E 0 0 e e'"
proof -
  obtain c p r rest e1 where p: "sync_position (stake_entry e c) (ck_epoch clock) = Ok p"
    "try_fold (release_item (ck_epoch clock)) (0, []) (sp_unbonding p) = Ok (r, rest)"
    and e1: "put_stake c (p\<lparr>sp_unbonding := rest\<rparr>) e = (Ok (), e1)" and e2: "credit_refund c r e1 = (Ok (), e')"
    using assms by (auto simp: finalize_unbonding_def res_simps)
  have "stake_held (p\<lparr>sp_unbonding := rest\<rparr>) + unat r = stake_held (stake_entry e c) + 0"
    using sync_position_held [OF p(1)] release_items_sum [OF p(2)] by (simp add: stake_held_def)
  from put_stake_held [OF e1 this] have "held e1 + unat r = held e" by simp
  then show ?thesis
    using credit_refund_paid [OF e2] e1
    by (intro engine_next_outside) (auto simp: paid_def held_def put_stake_def res_simps)
qed

section \<open>Settlements\<close>

lemma engine_next_eq:
  assumes "bt_get (ge_proposals e) pid = Some p" and "ge_proposals e' = bt_insert pid q (ge_proposals e)"
    and "proposal_next (E pid) p q" and "ge_parameters e' = ge_parameters e"
    and "ge_canonical_ecosystem_cid e' = ge_canonical_ecosystem_cid e" "ge_events e' = ge_events e" "ge_review_rounds e' = ge_review_rounds e"
    and "bt_sum stake_held (ge_stakes e') + bt_sum unat (ge_refunds e') + unat (ge_burned_atoms e') + proposal_held q
      = bt_sum stake_held (ge_stakes e) + bt_sum unat (ge_refunds e) + unat (ge_burned_atoms e) + proposal_held p"
  shows "engine_next E 0 0 e e'"
proof (rule engine_next_proposal [where E = E, OF assms(1,2,3)])
  show "held e' = held e" using held_proposal [OF assms(1), of q] assms by (simp add: held_def)
qed (use assms in \<open>auto simp: canonical_next_def\<close>)

text \<open>A way of splitting a bond that hands out exactly the bond.\<close>

definition paying :: "(string \<Rightarrow> u128 \<Rightarrow> (GovernanceEngine, GovernanceError, unit) act) \<Rightarrow> GovernanceParameterSetV1 \<Rightarrow> bool" where
  "paying pay params \<longleftrightarrow>
     (\<forall>a b f f'. ge_parameters f = params \<longrightarrow> pay a b f = (Ok (), f') \<longrightarrow> paid f f' (unat b))"

text \<open>Settling a proposal after other payments from its bonds.\<close>

lemma settle_after:
  assumes s: "settle_proposal X pid pay (e1\<lparr>ge_proposals := bt_insert pid q (ge_proposals e1)\<rparr>) = (Ok (), e')"
    and pay: "paying pay (ge_parameters e1)"
    and e1: "ge_proposals e1 = bt_insert pid p1 (ge_proposals e)"
  shows "ge_proposals e' = bt_insert pid (settled_proposal q) (ge_proposals e)"
    "bt_sum unat (ge_refunds e') + unat (ge_burned_atoms e') = bt_sum unat (ge_refunds e1) + unat (ge_burned_atoms e1) + proposal_held q"
    "ge_stakes e' = ge_stakes e1" "ge_review_rounds e' = ge_review_rounds e1" "ge_parameters e' = ge_parameters e1"
    "ge_canonical_ecosystem_cid e' = ge_canonical_ecosystem_cid e1" "ge_events e' = ge_events e1"
proof -
  let ?f = "e1\<lparr>ge_proposals := bt_insert pid q (ge_proposals e1)\<rparr>"
  have "paid f f' (unat b)" if "ge_parameters f = ge_parameters ?f" "pay a b f = (Ok (), f')" for a b f f'
    using pay that by (simp add: paying_def)
  then obtain p0 m b c where "bt_get (ge_proposals ?f) pid = Some p0"
    "e' = ?f\<lparr>ge_proposals := bt_insert pid (settled_proposal p0) (ge_proposals ?f), ge_refunds := m,
      ge_burned_atoms := b, ge_active_review_candidates := c\<rparr>"
    "bt_sum unat m + unat b = bt_sum unat (ge_refunds ?f) + unat (ge_burned_atoms ?f) + proposal_held p0"
    by (rule settle_proposal_Ok [OF s])
  then show "ge_proposals e' = bt_insert pid (settled_proposal q) (ge_proposals e)"
    "bt_sum unat (ge_refunds e') + unat (ge_burned_atoms e') = bt_sum unat (ge_refunds e1) + unat (ge_burned_atoms e1) + proposal_held q"
    "ge_stakes e' = ge_stakes e1" "ge_review_rounds e' = ge_review_rounds e1" "ge_parameters e' = ge_parameters e1"
    "ge_canonical_ecosystem_cid e' = ge_canonical_ecosystem_cid e1" "ge_events e' = ge_events e1"
    using e1 by (simp_all add: btm.ins_ins)
qed

lemma settle_next:
  assumes s: "settle_proposal X pid pay (e\<lparr>ge_proposals := bt_insert pid q (ge_proposals e)\<rparr>) = (Ok (), e')"
    and pay: "paying pay (ge_parameters e)"
    and p: "bt_get (ge_proposals e) pid = Some p" and q: "proposal_held q = proposal_held p"
    and n: "proposal_next (E pid) p (settled_proposal q)"
  shows "engine_next E 0 0 e e'"
proof -
  have "ge_proposals e = bt_insert pid p (ge_proposals e)" using p by (simp add: btm.ins_same)
  note after = settle_after [OF s pay this]
  show ?thesis by (rule engine_next_eq [where E = E, OF p after(1) n]) (simp_all add: after q)
qed

lemma settled_proposal_simps [simp]:
  "pr_state (settled_proposal p) = pr_state p" "pr_id (settled_proposal p) = pr_id p"
  "pr_content (settled_proposal p) = pr_content p" "pr_gates (settled_proposal p) = pr_gates p"
  "pr_votes (settled_proposal p) = pr_votes p" "pr_voter_snapshot (settled_proposal p) = pr_voter_snapshot p"
  "pr_yes_weight (settled_proposal p) = pr_yes_weight p" "pr_no_weight (settled_proposal p) = pr_no_weight p"
  "pr_abstain_weight (settled_proposal p) = pr_abstain_weight p"
  "pr_total_registered_weight (settled_proposal p) = pr_total_registered_weight p"
  by (simp_all add: settled_proposal_def)

lemma gates_ok_settled [simp]: "gates_ok (settled_proposal p) = gates_ok p"
  by (simp add: gates_ok_def)

lemma proposal_held_frame [simp]:
  "proposal_held (p\<lparr>pr_state := s\<rparr>) = proposal_held p"
  "proposal_held (p\<lparr>pr_gates := g\<rparr>) = proposal_held p"
  "proposal_held (p\<lparr>pr_pending_challenge := c\<rparr>) = proposal_held p"
  "proposal_held (p\<lparr>pr_challenge_end := n\<rparr>) = proposal_held p"
  "proposal_held (p\<lparr>pr_execution_not_before := n\<rparr>) = proposal_held p"
  "proposal_held (p\<lparr>pr_execution_expires := n\<rparr>) = proposal_held p"
  "proposal_held (p\<lparr>pr_votes := v\<rparr>) = proposal_held p"
  by (simp_all add: proposal_held_def)

text \<open>The ways a bond is split.\<close>

lemma burn_share_paying:
  assumes "\<And>f b s. ge_parameters f = params \<Longrightarrow> fee f b = Ok s \<Longrightarrow> unat s \<le> unat b"
  shows "paying (\<lambda>proposer bond. bindA (readA (\<lambda>e. fee e bond)) (\<lambda>slash.
       bindA (burn slash) (\<lambda>_. credit_refund proposer (bond - slash)))) params"
  unfolding paying_def
proof (intro allI impI)
  fix a b f f'
  assume f: "ge_parameters f = params" and r: "bindA (readA (\<lambda>e. fee e b)) (\<lambda>s. bindA (burn s) (\<lambda>_. credit_refund a (b - s))) f = (Ok (), f')"
  obtain s where s: "fee f b = Ok s" "bindA (burn s) (\<lambda>_. credit_refund a (b - s)) f = (Ok (), f')"
    using r unfolding bindA_Ok_iff [of "readA _"] readA_iff by blast
  show "paid f f' (unat b)" by (rule burn_then_refund_paid [OF assms [OF f s(1)] s(2)])
qed

lemma refund_share_paying:
  assumes "\<And>f b s. ge_parameters f = params \<Longrightarrow> fee f b = Ok s \<Longrightarrow> unat s \<le> unat b"
  shows "paying (\<lambda>proposer bond. bindA (readA (\<lambda>e. fee e bond)) (\<lambda>refund.
       bindA (credit_refund proposer refund) (\<lambda>_. burn (bond - refund)))) params"
  unfolding paying_def
proof (intro allI impI)
  fix a b f f'
  assume f: "ge_parameters f = params" and r: "bindA (readA (\<lambda>e. fee e b)) (\<lambda>s. bindA (credit_refund a s) (\<lambda>_. burn (b - s))) f = (Ok (), f')"
  obtain s where s: "fee f b = Ok s" "bindA (credit_refund a s) (\<lambda>_. burn (b - s)) f = (Ok (), f')"
    using r unfolding bindA_Ok_iff [of "readA _"] readA_iff by blast
  show "paid f f' (unat b)" by (rule refund_then_burn_paid [OF assms [OF f s(1)] s(2)])
qed

lemma expired_pay:
  "valid_params e \<Longrightarrow> paying (\<lambda>proposer bond.
     bindA (readA (\<lambda>e. apply_bps bond (bp_expired_slash_bps (gs_proposal_bond_policy (ge_parameters e))))) (\<lambda>slash.
       bindA (burn slash) (\<lambda>_. credit_refund proposer (bond - slash)))) (ge_parameters e)"
  by (rule burn_share_paying) (auto intro: apply_bps_le dest: valid_params_bps(2))

lemma fraud_pay:
  "valid_params e \<Longrightarrow> paying (\<lambda>proposer bond.
     bindA (readA (\<lambda>e. apply_bps bond (os_fraudulent_proposal_slash_bps (gs_objective_slash_policy (ge_parameters e))))) (\<lambda>slash.
       bindA (burn slash) (\<lambda>_. credit_refund proposer (bond - slash)))) (ge_parameters e)"
  by (rule burn_share_paying) (auto intro: apply_bps_le dest: valid_params_bps(3))

lemma rejected_pay:
  "valid_params e \<Longrightarrow> paying (\<lambda>proposer bond.
     bindA (readA (\<lambda>e. apply_bps bond (bp_rejected_return_bps (gs_proposal_bond_policy (ge_parameters e))))) (\<lambda>refund.
       bindA (credit_refund proposer refund) (\<lambda>_. burn (bond - refund)))) (ge_parameters e)"
  by (rule refund_share_paying) (auto intro: apply_bps_le dest: valid_params_bps(1))

lemma stale_pay:
  "paying (\<lambda>proposer bond.
     bindA (readA (\<lambda>e. bindR (parse_atoms (bp_stale_processing_fee_atoms (gs_proposal_bond_policy (ge_parameters e))))
       (\<lambda>fee. Ok (min fee bond)))) (\<lambda>fee. bindA (burn fee) (\<lambda>_. credit_refund proposer (bond - fee)))) params"
  by (rule burn_share_paying) (auto simp: res_simps word_le_nat_alt [symmetric])

lemma full_refund_pay: "paying credit_refund params"
  by (simp add: paying_def credit_refund_paid)

section \<open>Proposals\<close>

lemma mark_stale_next:
  assumes "mark_stale X pid e = (Ok (), e')"
    and "\<And>p. bt_get (ge_proposals e) pid = Some p \<Longrightarrow> \<not> is_terminal (pr_state p) \<Longrightarrow> E pid (pr_state p) Stale"
  shows "engine_next E 0 0 e e'"
proof -
  obtain p where p: "bt_get (ge_proposals e) pid = Some p" "\<not> is_terminal (pr_state p)"
    and s: "settle_proposal X pid (\<lambda>proposer bond.
       bindA (readA (\<lambda>e. bindR (parse_atoms (bp_stale_processing_fee_atoms (gs_proposal_bond_policy (ge_parameters e))))
         (\<lambda>fee. Ok (min fee bond)))) (\<lambda>fee.
       bindA (burn fee) (\<lambda>_. credit_refund proposer (bond - fee)))) (e\<lparr>ge_proposals := bt_insert pid (p\<lparr>pr_state := Stale\<rparr>) (ge_proposals e)\<rparr>) = (Ok (), e')"
    using assms(1) by (auto simp: mark_stale_def proposal_mut_def put_proposal_def res_simps split: if_splits)
  show ?thesis
    by (rule settle_next [OF s stale_pay p(1)]) (use assms(2) [OF p] in \<open>auto intro!: proposal_nextI simp: gates_ok_def\<close>)
qed

lemma expire_proposal_next:
  assumes "expire_proposal X pid clock e = (Ok (), e')" and "valid_params e"
    and "\<And>p. bt_get (ge_proposals e) pid = Some p \<Longrightarrow> pr_state p \<in> {Draft, ReviewOpen, AcceptedPendingExecution} \<Longrightarrow>
      E pid (pr_state p) Expired"
  shows "engine_next E 0 0 e e'"
proof -
  obtain p where p: "bt_get (ge_proposals e) pid = Some p" "proposal_expired p (ck_block clock)"
    and s: "settle_proposal X pid (\<lambda>proposer bond.
       bindA (readA (\<lambda>e. apply_bps bond (bp_expired_slash_bps (gs_proposal_bond_policy (ge_parameters e))))) (\<lambda>slash.
       bindA (burn slash) (\<lambda>_. credit_refund proposer (bond - slash)))) (e\<lparr>ge_proposals := bt_insert pid (p\<lparr>pr_state := Expired\<rparr>) (ge_proposals e)\<rparr>) = (Ok (), e')"
    using assms(1) by (auto simp: expire_proposal_def proposal_mut_def put_proposal_def res_simps split: if_splits)
  have "E pid (pr_state p) Expired" using assms(3) [OF p(1)] p(2) by (auto simp: proposal_expired_def split: ProposalState.splits)
  then show ?thesis
    by (intro settle_next [OF s expired_pay [OF assms(2)] p(1)]) (auto intro!: proposal_nextI simp: gates_ok_def)
qed

lemma unless_stale_next:
  assumes "unless_stale X pid m e = (r, e')" and "r \<noteq> Panic" and "\<And>s. \<not> is_terminal s \<Longrightarrow> E pid s Stale"
    and "\<And>r' e''. m e = (r', e'') \<Longrightarrow> r' \<noteq> Panic \<Longrightarrow> engine_next E 0 0 e e''"
  shows "engine_next E 0 0 e e'"
proof (cases "bt_get (ge_proposals e) pid")
  case None
  then show ?thesis using assms by (auto simp: unless_stale_def bindA_def readA_def)
next
  case (Some p)
  show ?thesis
  proof (cases "cp_parent_canonical_ecosystem_cid (pr_content p) = ge_canonical_ecosystem_cid e")
    case True
    then show ?thesis using assms Some by (auto simp: unless_stale_def bindA_def readA_def)
  next
    case False
    obtain r1 e1 where m: "mark_stale X pid e = (r1, e1)" by fastforce
    then have "e' = e1" using assms(1) Some False by (auto simp: unless_stale_def bindA_def readA_def throwA_def split: res.splits)
    moreover have "r1 \<noteq> Panic" using assms(1,2) Some False m by (auto simp: unless_stale_def bindA_def readA_def throwA_def)
    ultimately show ?thesis using m mark_stale_next [where E = E] assms(3)
      by (cases r1) (auto simp: mark_stale_def dest: with_atomic_Err)
  qed
qed

section \<open>Votes\<close>

fun weight_of :: "ProposalRecord \<Rightarrow> VoteChoice \<Rightarrow> u128" where
  "weight_of p Yes = pr_yes_weight p"
| "weight_of p No = pr_no_weight p"
| "weight_of p Abstain = pr_abstain_weight p"

lemma all_choices: "(\<forall>c. P c) \<longleftrightarrow> P Yes \<and> P No \<and> P Abstain"
  by (metis (full_types) VoteChoice.exhaust)

lemma tally_ok_iff:
  "tally_ok p \<longleftrightarrow> (\<forall>c. unat (weight_of p c) = vote_sum c (pr_votes p)) \<and>
     (\<forall>v r. bt_get (pr_votes p) v = Some r \<longrightarrow>
        (\<exists>s. bt_get (pr_voter_snapshot p) v = Some s \<and> vr_effective_vote_weight r = vs_weight s))"
  by (simp add: tally_ok_def all_choices [of "\<lambda>c. unat (weight_of p c) = vote_sum c (pr_votes p)"])

lemma add_vote_weight_sum:
  "add_vote_weight p c w = Ok q \<Longrightarrow> unat (weight_of q d) = unat (weight_of p d) + (if d = c then unat w else 0)"
  by (cases c; cases d) (auto simp: res_simps checked_simps)

lemma subtract_vote_weight_sum:
  "subtract_vote_weight p c w = Ok q \<Longrightarrow> unat (weight_of p d) = unat (weight_of q d) + (if d = c then unat w else 0)"
  by (cases c; cases d) (auto simp: res_simps checked_simps)

definition same_but_weights :: "ProposalRecord \<Rightarrow> ProposalRecord \<Rightarrow> bool" where
  "same_but_weights p q \<longleftrightarrow> pr_id q = pr_id p \<and> pr_state q = pr_state p \<and> pr_content q = pr_content p \<and> pr_votes q = pr_votes p
     \<and> pr_voter_snapshot q = pr_voter_snapshot p \<and> pr_total_registered_weight q = pr_total_registered_weight p
     \<and> pr_gates q = pr_gates p \<and> proposal_held q = proposal_held p"

lemma same_but_weights_refl: "same_but_weights p p"
  by (simp add: same_but_weights_def)

lemma add_vote_weight_frame: "add_vote_weight p c w = Ok q \<Longrightarrow> same_but_weights p q"
  by (cases c) (auto simp: same_but_weights_def proposal_held_def res_simps)

lemma subtract_vote_weight_frame: "subtract_vote_weight p c w = Ok q \<Longrightarrow> same_but_weights p q"
  by (cases c) (auto simp: same_but_weights_def proposal_held_def res_simps)

lemma vote_sum_insert:
  "vote_sum c (bt_insert v r votes) + (case bt_get votes v of Some r0 \<Rightarrow> if vr_choice r0 = c then unat (vr_effective_vote_weight r0) else 0 | None \<Rightarrow> 0)
    = vote_sum c votes + (if vr_choice r = c then unat (vr_effective_vote_weight r) else 0)"
  using bt_sum_split [of "\<lambda>r. if vr_choice r = c then unat (vr_effective_vote_weight r) else 0" votes v]
  by (simp add: vote_sum_def bt_sum_insert split: option.splits)

lemma vote_tally_ok:
  assumes "tally_ok p" and s: "bt_get (pr_voter_snapshot p) v = Some s"
    and p1: "(case bt_get (pr_votes p) v of Some r0 \<Rightarrow> subtract_vote_weight p (vr_choice r0) (vr_effective_vote_weight r0) | None \<Rightarrow> Ok p) = Ok p1"
    and p2: "add_vote_weight p1 (vr_choice r) (vs_weight s) = Ok p2" and r: "vr_effective_vote_weight r = vs_weight s"
  shows "tally_ok (p2\<lparr>pr_votes := bt_insert v r (pr_votes p2)\<rparr>)"
proof -
  have p1': "unat (weight_of p c) = unat (weight_of p1 c) + (case bt_get (pr_votes p) v of
      Some r0 \<Rightarrow> if vr_choice r0 = c then unat (vr_effective_vote_weight r0) else 0 | None \<Rightarrow> 0)" for c
    using p1 subtract_vote_weight_sum [of p _ _ p1 c] by (auto split: option.splits)
  have frame: "same_but_weights p p1" "same_but_weights p1 p2"
    using p1 subtract_vote_weight_frame [of p _ _ p1] same_but_weights_refl add_vote_weight_frame [OF p2]
    by (auto split: option.splits)
  have "unat (weight_of (p2\<lparr>pr_votes := bt_insert v r (pr_votes p2)\<rparr>) c) = vote_sum c (bt_insert v r (pr_votes p2))" for c
  proof -
    have "weight_of (p2\<lparr>pr_votes := bt_insert v r (pr_votes p2)\<rparr>) c = weight_of p2 c" by (cases c) simp_all
    moreover have "unat (weight_of p c) = vote_sum c (pr_votes p)" using assms(1) by (simp add: tally_ok_iff)
    ultimately show ?thesis
      using p1' [of c] add_vote_weight_sum [OF p2, of c] vote_sum_insert [of c v r "pr_votes p"] frame r
      by (auto simp: same_but_weights_def)
  qed
  then show ?thesis using assms(1) s r frame by (auto simp: tally_ok_iff same_but_weights_def)
qed

section \<open>The remaining calls\<close>

lemma register_identity_metrics_next:
  "register_identity_metrics X a proof e = (r, e') \<Longrightarrow> r \<noteq> Panic \<Longrightarrow> engine_next E 0 0 e e'"
  by (intro engine_next_outside)
    (auto simp: register_identity_metrics_def bindA_def readA_def modifyA_def held_def split: res.splits)

text \<open>A call that reads, decides, and replaces one proposal.\<close>

lemma replace_next:
  assumes "bindA (proposal_mut pid) (\<lambda>p. bindA (readA (\<lambda>_. check p)) (\<lambda>v. put_proposal pid (f p v))) e = (r, e')" and "r \<noteq> Panic"
    and "\<And>p v. bt_get (ge_proposals e) pid = Some p \<Longrightarrow> check p = Ok v \<Longrightarrow>
      proposal_next (E pid) p (f p v) \<and> proposal_held (f p v) = proposal_held p"
  shows "engine_next E 0 0 e e'"
proof (cases "\<exists>p v. bt_get (ge_proposals e) pid = Some p \<and> check p = Ok v")
  case True
  then obtain p v where p: "bt_get (ge_proposals e) pid = Some p" "check p = Ok v" by blast
  then have "put_proposal pid (f p v) e = (Ok (), e')"
    using assms(1) by (auto simp: bindA_def readA_def proposal_mut_def put_proposal_def modifyA_def)
  then show ?thesis using put_proposal_next [OF p(1)] assms(3) [OF p] by blast
next
  case False
  then have "e' = e" using assms(1)
    by (auto simp: bindA_def readA_def proposal_mut_def ok_or_Ok_iff split: res.splits)
  then show ?thesis by simp
qed

lemma open_review_next:
  assumes "open_review X pid clock e = (r, e')" and "r \<noteq> Panic"
  shows "engine_next (call_edge (OpenReview pid clock)) 0 0 e e'"
proof (rule unless_stale_next [OF assms(1) [unfolded open_review_def] assms(2)], simp)
qed (erule replace_next, assumption, auto simp: require_state_def res_simps gates_ok_def intro!: proposal_nextI split: if_splits)

lemma open_voting_next:
  assumes "open_voting X pid clock e = (r, e')" and "r \<noteq> Panic"
  shows "engine_next (call_edge (OpenVoting pid clock)) 0 0 e e'"
proof (rule unless_stale_next [OF assms(1) [unfolded open_voting_def] assms(2)], simp)
qed (erule replace_next, assumption, auto simp: require_state_def res_simps gates_ok_def intro!: proposal_nextI split: if_splits)

lemma close_challenge_period_next:
  "close_challenge_period pid clock e = (r, e') \<Longrightarrow> r \<noteq> Panic \<Longrightarrow> engine_next (call_edge (CloseChallengePeriod pid clock)) 0 0 e e'"
  unfolding close_challenge_period_def
  by (erule replace_next) (auto simp: require_state_def res_simps gates_ok_def intro!: proposal_nextI split: if_splits)

lemma submit_objective_challenge_next:
  assumes "submit_objective_challenge X pid input clock e = (r, e')" and "r \<noteq> Panic"
  shows "engine_next (call_edge (SubmitObjectiveChallenge pid input clock)) 0 0 e e'"
proof -
  let ?c = "\<lambda>input p. bindR (require_state p AcceptedPendingChallenge) (\<lambda>_.
       if ck_block clock \<ge> pr_challenge_end p then Err GE_InvalidDeadline
       else bindR (case oc_target input of
           AgentTestResult \<Rightarrow> challenged_bond aa_test_result_cid (pr_agents p) input Target_Agent
         | BuilderTestResult \<Rightarrow> challenged_bond ba_test_result_cid (pr_builders p) input Target_Builder
         | DataAvailabilityProbe \<Rightarrow> challenged_bond da_probe_result_cid (pr_availability p) input Target_Availability) (\<lambda>target_type.
       bindR (verify_canonical_false_result target_type (oc_evidence_bytes input)) (\<lambda>_. Ok target_type)))"
  have *: "e' = e \<or> (\<exists>input. bindA (proposal_mut pid) (\<lambda>p. bindA (readA (\<lambda>_. ?c input p)) (\<lambda>t.
     put_proposal pid (p\<lparr>pr_pending_challenge := Some \<lparr>pc_input = input, pc_target_type = t\<rparr>, pr_state := Challenged\<rparr>))) e = (r, e'))"
    using assms(1) unfolding submit_objective_challenge_def
    by (subst (asm) bindA_def) (auto simp: readA_def split: res.splits)
  have "engine_next (call_edge (SubmitObjectiveChallenge pid input clock)) 0 0 e e'" if "bindA (proposal_mut pid) (\<lambda>p. bindA (readA (\<lambda>_. ?c i p)) (\<lambda>t.
     put_proposal pid (p\<lparr>pr_pending_challenge := Some \<lparr>pc_input = i, pc_target_type = t\<rparr>, pr_state := Challenged\<rparr>))) e = (r, e')" for i
    by (rule replace_next [OF that assms(2)])
      (auto simp: require_state_def res_simps gates_ok_def intro!: proposal_nextI split: if_splits)
  then show ?thesis using * by auto
qed

lemma cast_vote_next:
  assumes "cast_vote X pid v0 choice clock e = (Ok receipt, e')"
  shows "engine_next (call_edge (CastVote pid v0 choice clock)) 0 0 e e'"
proof -
  obtain v p s p1 p2 where p: "bt_get (ge_proposals e) pid = Some p" "pr_state p = VotingOpen"
    and s: "bt_get (pr_voter_snapshot p) v = Some s"
    and p1: "(case bt_get (pr_votes p) v of Some r0 \<Rightarrow> subtract_vote_weight p (vr_choice r0) (vr_effective_vote_weight r0) | None \<Rightarrow> Ok p) = Ok p1"
    and p2: "add_vote_weight p1 choice (vs_weight s) = Ok p2"
    and r: "vr_choice receipt = choice" "vr_effective_vote_weight receipt = vs_weight s"
    and put: "put_proposal pid (p2\<lparr>pr_votes := bt_insert v receipt (pr_votes p2)\<rparr>) e = (Ok (), e')"
    using assms by (auto simp: cast_vote_def proposal_mut_def require_state_def res_simps Let_def split: if_splits)
  have frame: "same_but_weights p p1" "same_but_weights p1 p2"
    using p1 subtract_vote_weight_frame [of p _ _ p1] same_but_weights_refl add_vote_weight_frame [OF p2]
    by (auto split: option.splits)
  have "tally_ok p \<Longrightarrow> tally_ok (p2\<lparr>pr_votes := bt_insert v receipt (pr_votes p2)\<rparr>)"
    using vote_tally_ok [OF _ s p1] p2 r by blast
  then have "proposal_next (call_edge (CastVote pid v0 choice clock) pid) p (p2\<lparr>pr_votes := bt_insert v receipt (pr_votes p2)\<rparr>)"
    using frame p(2) by (auto simp: proposal_next_def same_but_weights_def gates_ok_def)
  then show ?thesis
    by (rule put_proposal_next [where E = "call_edge (CastVote pid v0 choice clock)", OF p(1) put]) (use frame in \<open>simp add: same_but_weights_def\<close>)
qed

lemma withdraw_refund_next:
  assumes "withdraw_refund X a e = (r, e')" and "r \<noteq> Panic"
  shows "engine_next E 0 (withdrawn (WithdrawRefund a, r)) e e'"
proof (cases "normalize_governance_address X a")
  case (Ok c)
  have "bt_sum unat (ge_refunds e) = unat (case bt_get (ge_refunds e) c of Some n \<Rightarrow> n | None \<Rightarrow> 0) + bt_sum unat (bt_remove c (ge_refunds e))"
    using bt_sum_split [of unat "ge_refunds e" c] by (simp split: option.splits)
  then show ?thesis
    using assms Ok by (intro engine_next_outside)
      (auto simp: withdraw_refund_def bindA_def readA_def modifyA_def throwA_def retA_def held_def split: if_splits)
qed (use assms in \<open>auto simp: withdraw_refund_def bindA_def readA_def\<close>)

section \<open>Finalisation, challenges and execution\<close>

lemma finalize_voting_atomic_next:
  assumes "with_atomic_state (bindA (readA (\<lambda>e. Ok (ge_parameters e))) (\<lambda>params.
     bindA (proposal_mut pid) (\<lambda>p.
     bindA (readA (\<lambda>_. check params p)) (\<lambda>p1.
     let gates = proposal_gates params p1 in
     bindA (put_proposal pid (p1\<lparr>pr_gates := Some gates,
       pr_state := (if gr_accepted gates then AcceptedPendingChallenge else Rejected)\<rparr>)) (\<lambda>_.
     bindA (if gr_accepted gates then retA () else settle_normal_rejection X pid) (\<lambda>_.
     retA gates)))))) e = (r, e')"
    and "r \<noteq> Panic" and "valid_params e"
    and check: "\<And>p p1. check (ge_parameters e) p = Ok p1 \<Longrightarrow> pr_state p = VotingOpen \<and>
      (\<exists>c n x. p1 = p\<lparr>pr_challenge_end := c, pr_execution_not_before := n, pr_execution_expires := x\<rparr>)"
  shows "engine_next (call_edge (FinalizeVoting pid clock)) 0 0 e e'"
proof (cases r)
  case (Ok g)
  then obtain p p1 where p: "bt_get (ge_proposals e) pid = Some p" "check (ge_parameters e) p = Ok p1"
    and s: "(if gr_accepted g then retA () else settle_normal_rejection X pid) (e\<lparr>ge_proposals := bt_insert pid (p1\<lparr>pr_gates := Some g,
       pr_state := (if gr_accepted g then AcceptedPendingChallenge else Rejected)\<rparr>) (ge_proposals e)\<rparr>) = (Ok (), e')"
    using assms(1) by (auto simp: proposal_mut_def put_proposal_def Let_def res_simps)
  obtain c n x where p1: "p1 = p\<lparr>pr_challenge_end := c, pr_execution_not_before := n, pr_execution_expires := x\<rparr>"
    and v: "pr_state p = VotingOpen" using check [OF p(2)] by blast
  show ?thesis
  proof (cases "gr_accepted g")
    case True
    show ?thesis
      by (rule put_proposal_next [OF p(1), where p' = "p1\<lparr>pr_gates := Some g, pr_state := AcceptedPendingChallenge\<rparr>"])
        (use True s p1 v in \<open>auto intro!: proposal_nextI simp: gates_ok_def put_proposal_def res_simps\<close>)
  next
    case False
    then have s': "settle_normal_rejection X pid (e\<lparr>ge_proposals := bt_insert pid (p1\<lparr>pr_gates := Some g, pr_state := Rejected\<rparr>) (ge_proposals e)\<rparr>) = (Ok (), e')"
      using s by simp
    show ?thesis
      by (rule settle_next [OF s' [unfolded settle_normal_rejection_def] rejected_pay [OF assms(3)] p(1)])
        (use p1 v in \<open>auto intro!: proposal_nextI simp: gates_ok_def\<close>)
  qed
next
  case (Err x)
  then show ?thesis using assms(1) with_atomic_Err by fastforce
qed (use assms(2) in simp)

lemma finalize_voting_next:
  assumes "finalize_voting X pid clock e = (r, e')" and "r \<noteq> Panic" and "valid_params e"
  shows "engine_next (call_edge (FinalizeVoting pid clock)) 0 0 e e'"
proof (rule unless_stale_next [OF assms(1) [unfolded finalize_voting_def] assms(2)], simp)
qed (erule finalize_voting_atomic_next, assumption, rule assms(3), fastforce simp: require_state_def res_simps split: if_splits)

definition released_round :: "ReviewRoundRecord \<Rightarrow> ReviewRoundRecord" where
  "released_round r = r\<lparr>rr_agents := settled_bonds (rr_agents r), rr_builders := settled_bonds (rr_builders r),
     rr_availability := settled_bonds (rr_availability r), rr_state := Round_Expired, rr_bond_settled := True\<rparr>"

lemma released_round_sum:
  assumes "bt_get (ge_review_rounds e) rid = Some r"
  shows "bt_sum round_held (bt_insert rid (released_round r) (ge_review_rounds e)) + round_held r = bt_sum round_held (ge_review_rounds e)"
proof -
  have "round_held (released_round r) = 0" by (simp add: round_held_def round_is_open_def released_round_def)
  then show ?thesis using bt_sum_split [of round_held "ge_review_rounds e" rid] assms by (simp add: bt_sum_insert)
qed

lemma expire_review_round_next:
  assumes "expire_review_round X rid clock e = (Ok (), e')" and "valid_params e"
  shows "engine_next E 0 0 e e'"
proof -
  let ?B = "\<lambda>r fee. if rr_parent_cid r \<noteq> ge_canonical_ecosystem_cid e then Ok (min fee (rr_bond_atoms r))
      else if (of_nat (unresolved_critical_owner_count (rr_agents r)) :: u32) \<ge>
          (if is_critical (se_derived_risk_class (rr_scope_evidence r))
           then gp_critical_finding_owner_threshold (gs_critical (ge_parameters e))
           else gp_critical_finding_owner_threshold (gs_normal (ge_parameters e))) then Ok 0
      else apply_bps (rr_bond_atoms r) (bp_expired_slash_bps (gs_proposal_bond_policy (ge_parameters e)))"
  let ?agents = "\<lambda>r. release_bonds aa_owner_address aa_bond_atoms (rr_agents r)"
    and ?builders = "\<lambda>r. release_bonds ba_builder_address ba_bond_atoms (rr_builders r)"
    and ?availability = "\<lambda>r. release_bonds da_operator_address da_bond_atoms (rr_availability r)"
  obtain r fee burned act e1 e2 where r: "bt_get (ge_review_rounds e) rid = Some r" "round_is_open r"
    and burned: "?B r fee = Ok burned"
    and e1: "credit_refund (rr_opener_address r) (rr_bond_atoms r - burned) (e\<lparr>ge_review_rounds := bt_insert rid
        (r\<lparr>rr_agents := fst (?agents r), rr_builders := fst (?builders r), rr_availability := fst (?availability r),
           rr_state := Round_Expired, rr_bond_settled := True\<rparr>)
        (ge_review_rounds e), ge_active_review_candidates := act\<rparr>) = (Ok (), e1)"
    and e2: "credit_refunds (snd (?agents r) @ snd (?builders r) @ snd (?availability r)) e1 = (Ok (), e2)"
    and e3: "burn burned e2 = (Ok (), e')"
    using assms(1) by (auto simp: expire_review_round_def res_simps Let_def case_prod_unfold simp del: if_split)
  note parts = release_bonds_sum [OF prod.collapse [symmetric]]
  have "unat burned \<le> unat (rr_bond_atoms r)"
    using burned apply_bps_le [OF valid_params_bps(2) [OF assms(2)]] by (auto simp: word_le_nat_alt [symmetric] split: if_splits)
  moreover note paid_trans [OF paid_trans [OF credit_refund_paid [OF e1] credit_refunds_paid [OF e2]] burn_paid [OF e3]]
  moreover have "unat (rr_bond_atoms r) = unat (rr_bond_atoms r - burned) + unat burned"
    using split_bond calculation(1) by simp
  ultimately have "paid (e\<lparr>ge_review_rounds := bt_insert rid (released_round r) (ge_review_rounds e), ge_active_review_candidates := act\<rparr>)
      e' (round_held r)"
    using r(2) by (simp add: parts round_held_def released_round_def algebra_simps)
  then show ?thesis
    using released_round_sum [OF r(1)] by (intro engine_next_outside) (auto simp: paid_def held_def)
qed

lemma resolve_successful_next:
  assumes p: "bt_get (ge_proposals e) pid = Some p" "pr_state p = Challenged"
    and i: "invalidate_and_slash_attestation pid c e = (Ok offender, e1)" and v: "valid_params e"
    and p1: "bt_get (ge_proposals e1) pid = Some p1"
    and r: "(if cp_proposer_address (pr_content p1) = offender then
           bindA (put_proposal pid (p1\<lparr>pr_pending_challenge := None, pr_state := Rejected\<rparr>)) (\<lambda>_.
           settle_fraudulent_proposer X pid)
         else
           bindA (readA (\<lambda>e. Ok (proposal_gates (ge_parameters e) p1))) (\<lambda>gates.
           bindA (put_proposal pid (p1\<lparr>pr_pending_challenge := None, pr_gates := Some gates,
             pr_state := (if gr_accepted gates then AcceptedPendingChallenge else Expired)\<rparr>)) (\<lambda>_.
           if gr_accepted gates then retA () else settle_full_refund X pid))) e1 = (Ok (), e')"
  shows "engine_next (call_edge (ResolveObjectiveChallenge pid)) 0 0 e e'"
proof -
  obtain q q' A B C m b st where q: "bt_get (ge_proposals e) pid = Some q"
      "q' = q\<lparr>pr_agents := A, pr_builders := B, pr_availability := C\<rparr>"
    and e1: "e1 = e\<lparr>ge_proposals := bt_insert pid q' (ge_proposals e), ge_refunds := m, ge_burned_atoms := b, ge_stakes := st\<rparr>"
    and m: "bt_sum unat m + unat b + bt_sum stake_held st + proposal_held q'
      = bt_sum unat (ge_refunds e) + unat (ge_burned_atoms e) + bt_sum stake_held (ge_stakes e) + proposal_held q"
    by (rule invalidate_Ok [OF i v])
  have eq: "q = p" "p1 = q'" using q(1) p(1) p1 e1 by simp_all
  have e1': "ge_proposals e1 = bt_insert pid p1 (ge_proposals e)" using e1 eq by simp
  have v1: "valid_params e1" using v e1 by (simp add: valid_params_def)
  show ?thesis
  proof (cases "cp_proposer_address (pr_content p1) = offender")
    case True
    then have "settle_fraudulent_proposer X pid (e1\<lparr>ge_proposals := bt_insert pid (p1\<lparr>pr_pending_challenge := None, pr_state := Rejected\<rparr>) (ge_proposals e1)\<rparr>) = (Ok (), e')"
      using r by (auto simp: put_proposal_def res_simps)
    note after = settle_after [OF this [unfolded settle_fraudulent_proposer_def] fraud_pay [OF v1] e1']
    show ?thesis
      by (rule engine_next_eq [OF p(1) after(1)]) (use after(2-) e1 m eq q(2) p(2) in \<open>auto intro!: proposal_nextI simp: gates_ok_def\<close>)
  next
    case False
    let ?g = "proposal_gates (ge_parameters e1) p1"
    show ?thesis
    proof (cases "gr_accepted ?g")
      case True
      show ?thesis
        by (rule engine_next_eq [OF p(1), where q = "p1\<lparr>pr_pending_challenge := None, pr_gates := Some ?g, pr_state := AcceptedPendingChallenge\<rparr>"])
          (use True False r e1 m eq q(2) p(2) in \<open>auto intro!: proposal_nextI simp: gates_ok_def put_proposal_def res_simps btm.ins_ins\<close>)
    next
      case ng: False
      then have "settle_full_refund X pid (e1\<lparr>ge_proposals := bt_insert pid (p1\<lparr>pr_pending_challenge := None, pr_gates := Some ?g, pr_state := Expired\<rparr>) (ge_proposals e1)\<rparr>) = (Ok (), e')"
        using r False by (auto simp: put_proposal_def res_simps)
      note after = settle_after [OF this [unfolded settle_full_refund_def] full_refund_pay e1']
      show ?thesis
        by (rule engine_next_eq [OF p(1) after(1)]) (use after(2-) e1 m eq q(2) p(2) in \<open>auto intro!: proposal_nextI simp: gates_ok_def\<close>)
    qed
  qed
qed

lemma resolve_objective_challenge_next:
  assumes "resolve_objective_challenge X pid e = (Ok ok, e')" and v: "valid_params e"
  shows "engine_next (call_edge (ResolveObjectiveChallenge pid)) 0 0 e e'"
proof -
  obtain p c where p: "bt_get (ge_proposals e) pid = Some p" "pr_state p = Challenged"
    and r: "(if ok then
         bindA (invalidate_and_slash_attestation pid c) (\<lambda>offender.
         bindA (proposal_mut pid) (\<lambda>p1.
         if cp_proposer_address (pr_content p1) = offender then
           bindA (put_proposal pid (p1\<lparr>pr_pending_challenge := None, pr_state := Rejected\<rparr>)) (\<lambda>_.
           settle_fraudulent_proposer X pid)
         else
           bindA (readA (\<lambda>e. Ok (proposal_gates (ge_parameters e) p1))) (\<lambda>gates.
           bindA (put_proposal pid (p1\<lparr>pr_pending_challenge := None, pr_gates := Some gates,
             pr_state := (if gr_accepted gates then AcceptedPendingChallenge else Expired)\<rparr>)) (\<lambda>_.
           if gr_accepted gates then retA () else settle_full_refund X pid))))
       else put_proposal pid (p\<lparr>pr_pending_challenge := None, pr_state := AcceptedPendingChallenge\<rparr>)) e = (Ok (), e')"
    using assms(1) unfolding resolve_objective_challenge_def
    by (auto simp add: proposal_mut_def require_state_def with_atomic_Ok_iff bindA_Ok_iff readA_iff bindR_Ok_iff ok_or_Ok_iff retA_iff if_Err_Ok_iff simp del: if_split)
  show ?thesis
  proof (cases ok)
    case True
    then obtain offender e1 p1 where "invalidate_and_slash_attestation pid c e = (Ok offender, e1)" "bt_get (ge_proposals e1) pid = Some p1"
      "(if cp_proposer_address (pr_content p1) = offender then
           bindA (put_proposal pid (p1\<lparr>pr_pending_challenge := None, pr_state := Rejected\<rparr>)) (\<lambda>_.
           settle_fraudulent_proposer X pid)
         else
           bindA (readA (\<lambda>e. Ok (proposal_gates (ge_parameters e) p1))) (\<lambda>gates.
           bindA (put_proposal pid (p1\<lparr>pr_pending_challenge := None, pr_gates := Some gates,
             pr_state := (if gr_accepted gates then AcceptedPendingChallenge else Expired)\<rparr>)) (\<lambda>_.
           if gr_accepted gates then retA () else settle_full_refund X pid))) e1 = (Ok (), e')"
      using r unfolding if_P [OF True] bindA_Ok_iff proposal_mut_def readA_iff ok_or_Ok_iff by blast
    then show ?thesis by (rule resolve_successful_next [OF p _ v])
  next
    case False
    then show ?thesis using r p(2)
      by (intro put_proposal_next [OF p(1), where p' = "p\<lparr>pr_pending_challenge := None, pr_state := AcceptedPendingChallenge\<rparr>"]) (auto intro!: proposal_nextI simp: gates_ok_def)
  qed
qed

lemma execute_ready_proposal_next:
  assumes r: "execute_ready_proposal X pid (ge_canonical_ecosystem_cid e) e = (Ok event, e')"
    and p: "bt_get (ge_proposals e) pid = Some p" "pr_state p = AcceptedPendingExecution"
      "cp_parent_canonical_ecosystem_cid (pr_content p) = ge_canonical_ecosystem_cid e"
  shows "engine_next (call_edge (ExecuteProposal pid clock)) 0 0 e e'"
proof -
  let ?q = "p\<lparr>pr_state := Executed\<rparr>" and ?new = "cp_candidate_ecosystem_cid (pr_content p)"
  let ?event = "CanonicalEcosystemChanged (ge_canonical_ecosystem_cid e) ?new (pr_id p) (cp_agent_review_root (pr_content p))
    (cp_build_attestation_root (pr_content p)) (cp_data_availability_root (pr_content p))"
  let ?metrics = "case cp_candidate_identity_metrics_root (pr_content p) of None \<Rightarrow> (retA () :: (GovernanceEngine, GovernanceError, unit) act)
       | Some root \<Rightarrow> (case cp_candidate_identity_metrics_epoch (pr_content p) of None \<Rightarrow> retA ()
         | Some epoch \<Rightarrow> modifyA (\<lambda>e. e\<lparr>ge_metrics_root := root, ge_metrics_epoch := epoch, ge_registered_metrics := bt_empty\<rparr>))"
  obtain e1 e2 where m: "?metrics (e\<lparr>ge_proposals := bt_insert pid ?q (ge_proposals e), ge_canonical_ecosystem_cid := ?new\<rparr>) = (Ok (), e1)"
    and s: "settle_full_refund X pid e1 = (Ok (), e2)" and e': "e' = e2\<lparr>ge_events := ge_events e2 @ [?event]\<rparr>"
    using r p(1) by (auto simp: execute_ready_proposal_def proposal_mut_def put_proposal_def Let_def res_simps)
  have e1: "ge_proposals e1 = bt_insert pid ?q (ge_proposals e)" "ge_canonical_ecosystem_cid e1 = ?new"
      "ge_refunds e1 = ge_refunds e" "ge_burned_atoms e1 = ge_burned_atoms e" "ge_stakes e1 = ge_stakes e"
      "ge_review_rounds e1 = ge_review_rounds e" "ge_parameters e1 = ge_parameters e" "ge_events e1 = ge_events e"
    using m by (auto simp: modifyA_iff retA_iff split: option.splits)
  have "e1\<lparr>ge_proposals := bt_insert pid ?q (ge_proposals e1)\<rparr> = e1" using e1(1) by (cases e1) (simp add: btm.ins_ins)
  then have "settle_full_refund X pid (e1\<lparr>ge_proposals := bt_insert pid ?q (ge_proposals e1)\<rparr>) = (Ok (), e2)" using s by simp
  note after = settle_after [OF this [unfolded settle_full_refund_def] full_refund_pay e1(1)]
  have h: "held e' = held e" using held_proposal [OF p(1), of "settled_proposal ?q"] after e1 e' by (simp add: held_def)
  have c: "canonical_next e e'"
    unfolding canonical_next_def using p after e1 e'
    by (intro disjI2 exI [of _ pid] exI [of _ p] exI [of _ "settled_proposal ?q"]) simp
  show ?thesis
    by (rule engine_next_proposal [OF p(1) _ _ h _ c]) (use after e1 e' p(2) in \<open>auto intro!: proposal_nextI simp: gates_ok_def\<close>)
qed

text \<open>A failed atomic call changes nothing.\<close>

lemma atomic_next:
  assumes "with_atomic_state m e = (r, e')" and "r \<noteq> Panic" and "\<And>v. m e = (Ok v, e') \<Longrightarrow> engine_next E 0 0 e e'"
  shows "engine_next E 0 0 e e'"
  using assms by (cases r) (auto simp: with_atomic_Ok_iff dest: with_atomic_Err)

lemma execute_proposal_next:
  assumes "execute_proposal X pid clock e = (r, e')" and "r \<noteq> Panic" and v: "valid_params e"
  shows "engine_next (call_edge (ExecuteProposal pid clock)) 0 0 e e'"
proof (cases "bt_get (ge_proposals e) pid")
  case None
  then show ?thesis using assms(1) by (auto simp: execute_proposal_def bindA_def readA_def)
next
  case (Some p)
  obtain rs es where s: "mark_stale X pid e = (rs, es)" by fastforce
  obtain rx ex where x: "expire_proposal X pid clock e = (rx, ex)" by fastforce
  let ?E = "call_edge (ExecuteProposal pid clock)"
  have stale: "rs \<noteq> Panic \<Longrightarrow> pr_state p = AcceptedPendingExecution \<Longrightarrow> engine_next ?E 0 0 e es"
    using s Some unfolding mark_stale_def
    by (erule_tac atomic_next) (auto intro: mark_stale_next [unfolded mark_stale_def with_atomic_Ok_iff])
  have expired: "rx \<noteq> Panic \<Longrightarrow> pr_state p = AcceptedPendingExecution \<Longrightarrow> engine_next ?E 0 0 e ex"
    using x Some unfolding expire_proposal_def
    by (erule_tac atomic_next) (auto intro: expire_proposal_next [unfolded expire_proposal_def with_atomic_Ok_iff, OF _ v])
  consider "e' = e" | "e' = es" "rs \<noteq> Panic" "pr_state p = AcceptedPendingExecution"
    | "e' = ex" "rx \<noteq> Panic" "pr_state p = AcceptedPendingExecution"
    | "pr_state p = AcceptedPendingExecution" "cp_parent_canonical_ecosystem_cid (pr_content p) = ge_canonical_ecosystem_cid e"
      "with_atomic_state (execute_ready_proposal X pid (ge_canonical_ecosystem_cid e)) e = (r, e')"
    using assms(1,2) Some s x
    by (auto simp: execute_proposal_def bindA_def readA_def throwA_def split: if_splits res.splits)
  then show ?thesis
    using stale expired by cases (auto intro: atomic_next [OF _ assms(2)] execute_ready_proposal_next [OF _ Some])
qed

section \<open>Every call\<close>

lemma quiet_result:
  assumes "quiet m e = (r, e')" and "r \<noteq> Panic"
  obtains v where "r = Ok 0" "m e = (Ok v, e')" | x where "r = Err x" "m e = (Err x, e')"
  using assms by (auto simp: quiet_def bindA_def retA_def split: prod.splits res.splits)

lemma atomic_Err:
  "register_stake X a n clock e = (Err x, e') \<Longrightarrow> e' = e"
  "schedule_withdrawal X a n clock e = (Err x, e') \<Longrightarrow> e' = e"
  "finalize_unbonding X a clock e = (Err x, e') \<Longrightarrow> e' = e"
  "stake_position X a k e = (Err x, e') \<Longrightarrow> e' = e"
  "expire_review_round X rid clock e = (Err x, e') \<Longrightarrow> e' = e"
  "mark_stale X pid e = (Err x, e') \<Longrightarrow> e' = e"
  "expire_proposal X pid clock e = (Err x, e') \<Longrightarrow> e' = e"
  "cast_vote X pid a choice clock e = (Err x, e') \<Longrightarrow> e' = e"
  "resolve_objective_challenge X pid e = (Err x, e') \<Longrightarrow> e' = e"
  by (simp_all only: register_stake_def schedule_withdrawal_def finalize_unbonding_def stake_position_def
    expire_review_round_def mark_stale_def expire_proposal_def cast_vote_def resolve_objective_challenge_def with_atomic_Err)

lemma mark_stale_call_next:
  "mark_stale X pid e = (Ok (), e') \<Longrightarrow> engine_next (call_edge (MarkStale pid)) 0 0 e e'"
  by (erule mark_stale_next) simp

lemma expire_proposal_call_next:
  "expire_proposal X pid clock e = (Ok (), e') \<Longrightarrow> valid_params e \<Longrightarrow> engine_next (call_edge (ExpireProposal pid clock)) 0 0 e e'"
  by (erule expire_proposal_next) simp_all

text \<open>What a call that returns does, for the calls that need valid parameters and those that do not.\<close>

lemmas atomic_calls = register_stake_next schedule_withdrawal_next finalize_unbonding_next stake_position_next
  mark_stale_call_next cast_vote_next

lemmas policy_calls = expire_review_round_next expire_proposal_call_next resolve_objective_challenge_next

lemmas plain_calls = register_identity_metrics_next open_review_next open_voting_next
  submit_objective_challenge_next close_challenge_period_next

lemma gov_call_next:
  assumes "gov_call X c e = (r, e')" and r: "r \<noteq> Panic" and v: "valid_params e"
  shows "engine_next (call_edge c) (deposited (c, r)) (withdrawn (c, r)) e e'"
proof (cases c)
  case (WithdrawRefund a)
  then show ?thesis using withdraw_refund_next [of X a e r e'] assms by simp
qed (use assms(1) in \<open>auto elim!: quiet_result [OF _ r] dest: atomic_Err intro: atomic_calls policy_calls [OF _ v]
    plain_calls finalize_voting_next [OF _ _ v] execute_proposal_next [OF _ _ v]\<close>)

end
