(* ===== verification/GovProps.thy ===== *)
theory GovProps
  imports GovRun
begin

text \<open>
  Properties of every sequence of calls of the governance engine: conservation of atoms, the history of
  the canonical ecosystem, the vote totals and the lifecycle of a proposal, each an instance of the
  locale \<open>run_relation\<close>.
\<close>

section \<open>Runs\<close>

text \<open>
  A relation between the engine before and after, with the atoms that came in and went out, that
  composes and covers one call covers every run.
\<close>

locale run_relation =
  fixes R :: "nat \<Rightarrow> nat \<Rightarrow> GovernanceEngine \<Rightarrow> GovernanceEngine \<Rightarrow> bool"
  assumes idle: "R 0 0 e e"
    and compose: "R i out e f \<Longrightarrow> R i' out' f g \<Longrightarrow> R (i + i') (out + out') e g"
    and one_call: "engine_next (call_edge c) i out e f \<Longrightarrow> R i out e f"
begin

lemma run_related:
  "gov_run X e log e' \<Longrightarrow> valid_params e \<Longrightarrow> R (sum_list (map deposited log)) (sum_list (map withdrawn log)) e e'"
proof (induction rule: gov_run.induct)
  case (call c e r e1 log e')
  have n: "engine_next (call_edge c) (deposited (c, r)) (withdrawn (c, r)) e e1"
    by (rule gov_call_next [OF call.hyps(1,2) call.prems])
  moreover have "valid_params e1" using n call.prems by (simp add: engine_next_def valid_params_def)
  ultimately show ?case using compose [OF one_call call.IH] by simp
qed (simp add: idle)

end

lemma run_params: "gov_run X e log e' \<Longrightarrow> valid_params e \<Longrightarrow> valid_params e'"
proof (induction rule: gov_run.induct)
  case (call c e r e1 log e')
  then show ?case using gov_call_next [OF call.hyps(1,2)] by (simp add: engine_next_def valid_params_def)
qed

subsection \<open>Atoms\<close>

interpretation atoms: run_relation "\<lambda>i out e e'. held e' + out = held e + i"
  by unfold_locales (auto simp: engine_next_def)

subsection \<open>Proposals\<close>

definition proposal_fate :: "ProposalRecord \<Rightarrow> ProposalRecord \<Rightarrow> bool" where
  "proposal_fate p p' \<longleftrightarrow> lifecycle_edge\<^sup>*\<^sup>* (pr_state p) (pr_state p')
     \<and> pr_id p' = pr_id p \<and> pr_content p' = pr_content p
     \<and> pr_voter_snapshot p' = pr_voter_snapshot p \<and> pr_total_registered_weight p' = pr_total_registered_weight p
     \<and> (is_terminal (pr_state p) \<longrightarrow> p' = p) \<and> (gates_ok p \<longrightarrow> gates_ok p') \<and> (tally_ok p \<longrightarrow> tally_ok p')"

lemma proposal_fate_refl: "proposal_fate p p"
  by (simp add: proposal_fate_def)

lemma terminal_no_path: "lifecycle_edge\<^sup>*\<^sup>* s t \<Longrightarrow> is_terminal s \<Longrightarrow> t = s"
  by (induction rule: converse_rtranclp_induct) (auto dest: terminal_no_edge)

lemma proposal_fate_trans: "proposal_fate p q \<Longrightarrow> proposal_fate q r \<Longrightarrow> proposal_fate p r"
  by (auto simp: proposal_fate_def)

lemma call_edge_lifecycle: "call_edge c pid s t \<Longrightarrow> lifecycle_edge s t"
  by (auto simp: lifecycle_edge_def)

lemma proposal_next_fate: "proposal_next (call_edge c pid) p q \<Longrightarrow> proposal_fate p q"
  by (auto simp: proposal_next_def proposal_fate_def dest!: call_edge_lifecycle dest: terminal_no_edge)

definition proposals_fate :: "GovernanceEngine \<Rightarrow> GovernanceEngine \<Rightarrow> bool" where
  "proposals_fate e e' \<longleftrightarrow> (\<forall>pid. rel_option proposal_fate (bt_get (ge_proposals e) pid) (bt_get (ge_proposals e') pid))"

lemma proposals_fate_refl: "proposals_fate e e"
  by (simp add: proposals_fate_def option.rel_refl proposal_fate_refl)

lemma proposals_fate_trans:
  assumes "proposals_fate e f" and "proposals_fate f g"
  shows "proposals_fate e g"
proof -
  have "rel_option proposal_fate OO rel_option proposal_fate \<le> rel_option proposal_fate"
    unfolding option.rel_compp [symmetric] by (rule option.rel_mono) (auto intro: proposal_fate_trans)
  then show ?thesis using assms by (auto simp: proposals_fate_def)
qed

lemma engine_next_fate: "engine_next (call_edge c) i out e f \<Longrightarrow> proposals_fate e f"
  by (auto simp: engine_next_def proposals_fate_def intro: option.rel_mono_strong proposal_next_fate)

lemma proposals_fateD:
  assumes "proposals_fate e e'" and "bt_get (ge_proposals e) pid = Some p"
  obtains p' where "bt_get (ge_proposals e') pid = Some p'" "proposal_fate p p'"
proof -
  have "rel_option proposal_fate (bt_get (ge_proposals e) pid) (bt_get (ge_proposals e') pid)"
    using assms(1) by (simp add: proposals_fate_def)
  then show thesis using assms(2) that by (auto simp: option_rel_Some1)
qed

interpretation proposals: run_relation "\<lambda>i out e e'. proposals_fate e e'"
  by unfold_locales (auto intro: proposals_fate_refl proposals_fate_trans engine_next_fate)

subsection \<open>The canonical ecosystem\<close>

text \<open>The event an executed proposal leaves behind.\<close>

definition change_event :: "ProposalRecord \<Rightarrow> GovernanceEvent" where
  "change_event p = CanonicalEcosystemChanged (cp_parent_canonical_ecosystem_cid (pr_content p))
     (cp_candidate_ecosystem_cid (pr_content p)) (pr_id p) (cp_agent_review_root (pr_content p))
     (cp_build_attestation_root (pr_content p)) (cp_data_availability_root (pr_content p))"

definition executed_by :: "GovernanceEngine \<Rightarrow> GovernanceEvent \<Rightarrow> bool" where
  "executed_by e event \<longleftrightarrow> (\<exists>pid p. bt_get (ge_proposals e) pid = Some p \<and> pr_state p = Executed \<and> change_event p = event)"

fun linked :: "string \<Rightarrow> GovernanceEvent list \<Rightarrow> string \<Rightarrow> bool" where
  "linked old [] new = (new = old)"
| "linked old (CanonicalEcosystemChanged from to _ _ _ _ # events) new = (from = old \<and> linked to events new)"

lemma linked_append: "linked a xs b \<Longrightarrow> linked b ys c \<Longrightarrow> linked a (xs @ ys) c"
  by (induction a xs b rule: linked.induct) auto

definition history :: "GovernanceEngine \<Rightarrow> GovernanceEngine \<Rightarrow> bool" where
  "history e e' \<longleftrightarrow> proposals_fate e e' \<and> (\<exists>events. ge_events e' = ge_events e @ events
     \<and> linked (ge_canonical_ecosystem_cid e) events (ge_canonical_ecosystem_cid e') \<and> list_all (executed_by e') events)"

lemma executed_by_stays: "proposals_fate e e' \<Longrightarrow> executed_by e event \<Longrightarrow> executed_by e' event"
  by (fastforce simp: executed_by_def proposal_fate_def elim: proposals_fateD)

lemma history_trans:
  assumes "history e f" and "history f g"
  shows "history e g"
proof -
  obtain xs ys where xs: "ge_events f = ge_events e @ xs" "linked (ge_canonical_ecosystem_cid e) xs (ge_canonical_ecosystem_cid f)"
      "list_all (executed_by f) xs"
    and ys: "ge_events g = ge_events f @ ys" "linked (ge_canonical_ecosystem_cid f) ys (ge_canonical_ecosystem_cid g)"
      "list_all (executed_by g) ys" and fate: "proposals_fate e f" "proposals_fate f g"
    using assms by (auto simp: history_def)
  have "list_all (executed_by g) xs" using xs(3) executed_by_stays [OF fate(2)] by (auto simp: list_all_iff)
  then show ?thesis
    using xs ys linked_append proposals_fate_trans [OF fate] unfolding history_def by (intro conjI exI [of _ "xs @ ys"]) auto
qed

lemma canonical_next_history: "canonical_next e f \<Longrightarrow> proposals_fate e f \<Longrightarrow> history e f"
  unfolding canonical_next_def
proof (elim disjE exE conjE)
  fix pid p p'
  assume p: "bt_get (ge_proposals e) pid = Some p" "bt_get (ge_proposals f) pid = Some p'" "pr_state p' = Executed"
    and parent: "cp_parent_canonical_ecosystem_cid (pr_content p) = ge_canonical_ecosystem_cid e"
    and c: "ge_canonical_ecosystem_cid f = cp_candidate_ecosystem_cid (pr_content p)"
    and ev: "ge_events f = ge_events e @ [CanonicalEcosystemChanged (ge_canonical_ecosystem_cid e)
           (cp_candidate_ecosystem_cid (pr_content p)) (pr_id p) (cp_agent_review_root (pr_content p))
           (cp_build_attestation_root (pr_content p)) (cp_data_availability_root (pr_content p))]"
    and fate: "proposals_fate e f"
  have "proposal_fate p p'" using proposals_fateD [OF fate p(1)] p(2) by auto
  then have "change_event p' = change_event p" by (simp add: change_event_def proposal_fate_def)
  then have "executed_by f (change_event p)" using p by (auto simp: executed_by_def)
  then show "history e f"
    using fate parent c ev unfolding history_def by (intro conjI exI [of _ "[change_event p]"]) (simp_all add: change_event_def)
qed (auto simp: history_def)

interpretation canonical: run_relation "\<lambda>i out e e'. history e e'"
proof
  show "history e e" for e by (simp add: history_def proposals_fate_refl)
  show "history e f" if "engine_next (call_edge c) i out e f" for c i out e f
    using canonical_next_history engine_next_fate that by (auto simp: engine_next_def)
qed (rule history_trans)

text \<open>Every voter counts at most once, with the weight of the snapshot.\<close>

lemma turnout_bounded:
  assumes "tally_ok p"
  shows "unat (pr_yes_weight p) + unat (pr_no_weight p) + unat (pr_abstain_weight p)
    \<le> bt_sum (\<lambda>s. unat (vs_weight s)) (pr_voter_snapshot p)"
proof -
  have split: "(if vr_choice r = Yes then w else 0) + (if vr_choice r = No then w else 0) + (if vr_choice r = Abstain then w else 0) = w"
    for r :: GovernanceVoteReceiptV1 and w :: nat by (cases "vr_choice r") auto
  have "unat (pr_yes_weight p) + unat (pr_no_weight p) + unat (pr_abstain_weight p) = bt_sum (\<lambda>r. unat (vr_effective_vote_weight r)) (pr_votes p)"
    using assms by (simp add: tally_ok_def vote_sum_def bt_sum_as_sum sum.distrib [symmetric] split)
  also have "\<dots> \<le> bt_sum (\<lambda>s. unat (vs_weight s)) (pr_voter_snapshot p)"
    unfolding bt_sum_as_sum
  proof (rule sum_le_included [where i = id])
    show "\<forall>v \<in> {v. bt_get (pr_votes p) v \<noteq> None}. \<exists>w \<in> {w. bt_get (pr_voter_snapshot p) w \<noteq> None}. id w = v
      \<and> unat (vr_effective_vote_weight (the (bt_get (pr_votes p) v))) \<le> unat (vs_weight (the (bt_get (pr_voter_snapshot p) w)))"
      using assms by (fastforce simp: tally_ok_def)
  qed (simp_all add: finite_bt_dom')
  finally show ?thesis .
qed

section \<open>Properties\<close>

text \<open>
  C10: every call of the engine conserves atoms. Over any run of calls from an engine with valid
  parameters, whatever they return, the atoms in stakes, open bonds, refunds and the burned total grow
  exactly by what was deposited as stake and shrink exactly by what was withdrawn: no settlement,
  slash, expiry or execution creates an atom or loses one.
\<close>

theorem atoms_conserved:
  assumes "gov_run X e log e'" and "valid_params e"
  shows "held e' + sum_list (map withdrawn log) = held e + sum_list (map deposited log)"
  by (rule atoms.run_related [OF assms])

text \<open>
  C11: the canonical ecosystem moves only through executed proposals that passed the gates. The events a
  run appends form one chain from the canonical CID before to the one after; each stems from a proposal
  that is executed, has accepted gates, and names the replaced CID as its parent and the new one as its
  candidate.
\<close>

theorem canonical_history:
  assumes "gov_run X e log e'" and "valid_params e"
    and "\<And>pid p. bt_get (ge_proposals e) pid = Some p \<Longrightarrow> gates_ok p"
  shows "\<exists>events. ge_events e' = ge_events e @ events
    \<and> linked (ge_canonical_ecosystem_cid e) events (ge_canonical_ecosystem_cid e')
    \<and> (\<forall>event \<in> set events. \<exists>pid p g. bt_get (ge_proposals e') pid = Some p \<and> pr_state p = Executed
         \<and> change_event p = event \<and> pr_gates p = Some g \<and> gr_accepted g)"
proof -
  have h: "history e e'" by (rule canonical.run_related [OF assms(1,2)])
  have "\<exists>g. pr_gates p' = Some g \<and> gr_accepted g"
    if p': "bt_get (ge_proposals e') pid = Some p'" "pr_state p' = Executed" for pid p'
  proof -
    have r: "rel_option proposal_fate (bt_get (ge_proposals e) pid) (bt_get (ge_proposals e') pid)"
      using h by (simp add: history_def proposals_fate_def)
    then obtain p where p: "bt_get (ge_proposals e) pid = Some p" "proposal_fate p p'"
      using p'(1) by (auto simp: option_rel_Some2)
    then have "gates_ok p'" using assms(3) [OF p(1)] by (simp add: proposal_fate_def)
    then show ?thesis using p'(2) by (simp add: gates_ok_def)
  qed
  then show ?thesis using h unfolding history_def list_all_iff executed_by_def by metis
qed

text \<open>
  C12: the vote totals of a proposal are exactly the sums of the receipts. When that holds before a run,
  it holds after: yes, no and abstain weight are the summed weights of the receipts with that choice,
  one receipt per voter however often the voter changed the vote, so that the turnout never exceeds the
  weight of the voter snapshot.
\<close>

theorem votes_counted_once:
  assumes "gov_run X e log e'" and "valid_params e" and "bt_get (ge_proposals e) pid = Some p" and "tally_ok p"
  shows "\<exists>p'. bt_get (ge_proposals e') pid = Some p'
    \<and> unat (pr_yes_weight p') = vote_sum Yes (pr_votes p') \<and> unat (pr_no_weight p') = vote_sum No (pr_votes p')
    \<and> unat (pr_abstain_weight p') = vote_sum Abstain (pr_votes p')
    \<and> unat (pr_yes_weight p') + unat (pr_no_weight p') + unat (pr_abstain_weight p')
        \<le> bt_sum (\<lambda>s. unat (vs_weight s)) (pr_voter_snapshot p)"
proof -
  have "proposals_fate e e'" by (rule proposals.run_related [OF assms(1,2)])
  then obtain p' where p': "bt_get (ge_proposals e') pid = Some p'" "proposal_fate p p'"
    using assms(3) by (rule proposals_fateD)
  then have t: "tally_ok p'" and s: "pr_voter_snapshot p' = pr_voter_snapshot p"
    using assms(4) by (simp_all add: proposal_fate_def)
  show ?thesis
    using p'(1) t turnout_bounded [OF t] unfolding s by (intro exI [of _ p']) (simp add: tally_ok_def)
qed

text \<open>
  C13: however a proposal got to where it is, the next call leaves it alone unless the call names it and makes
  one of that call's moves of the lifecycle (\<open>call_edge\<close>): review opens from the draft, voting from review, a
  challenge only while the challenge period runs, execution only after it was closed, and so on. Through all
  of this the proposal keeps its identity, its content and its voter snapshot, and once it is rejected,
  executed, stale or expired no call changes it again.
\<close>

theorem proposal_lifecycle:
  assumes "gov_run X e log e1" and "gov_call X c e1 = (r, e2)" and "r \<noteq> Panic"
    and "valid_params e" and "bt_get (ge_proposals e) pid = Some p"
  shows "\<exists>p1 p2. bt_get (ge_proposals e1) pid = Some p1 \<and> bt_get (ge_proposals e2) pid = Some p2
    \<and> lifecycle_edge\<^sup>*\<^sup>* (pr_state p) (pr_state p1)
    \<and> (p2 = p1 \<or> call_edge c pid (pr_state p1) (pr_state p2))
    \<and> pr_id p2 = pr_id p \<and> pr_content p2 = pr_content p \<and> pr_voter_snapshot p2 = pr_voter_snapshot p
    \<and> (is_terminal (pr_state p1) \<longrightarrow> p2 = p1)"
proof -
  have "proposals_fate e e1" by (rule proposals.run_related [OF assms(1,4)])
  then obtain p1 where p1: "bt_get (ge_proposals e1) pid = Some p1" "proposal_fate p p1"
    using assms(5) by (rule proposals_fateD)
  have "engine_next (call_edge c) (deposited (c, r)) (withdrawn (c, r)) e1 e2"
    using gov_call_next [OF assms(2,3)] run_params [OF assms(1,4)] by blast
  then have "rel_option (proposal_next (call_edge c pid)) (bt_get (ge_proposals e1) pid) (bt_get (ge_proposals e2) pid)"
    by (simp add: engine_next_def)
  then obtain p2 where p2: "bt_get (ge_proposals e2) pid = Some p2" "proposal_next (call_edge c pid) p1 p2"
    using p1(1) by (auto simp: option_rel_Some1)
  then show ?thesis
    using p1 proposal_next_fate [OF p2(2)] by (auto simp: proposal_fate_def proposal_next_def)
qed

section \<open>A sample run\<close>

lemma default_atoms:
  "parse_atoms ''1000000000000000000'' = Ok 1000000000000000000"
  "parse_atoms ''10000000000000000000'' = Ok 10000000000000000000"
  "parse_atoms ''100000000000000000'' = Ok 100000000000000000"
  by (simp_all add: parse_atoms_def parse_word_def parse_digits_def digit_bits strip_plus_def code_def)

lemma defaults_valid: "validate_governance_parameters experimental_defaults = Ok ()"
proof -
  have "valid_gate_parameters (gs_normal experimental_defaults)" "valid_gate_parameters (gs_critical experimental_defaults)"
    by (simp_all add: valid_gate_parameters_def experimental_defaults_def)
  then show ?thesis
    by (simp add: validate_governance_parameters_def experimental_defaults_def res_simps default_atoms word_le_def)
qed

fun gov_exec :: "extern \<Rightarrow> GovCall list \<Rightarrow> GovernanceEngine \<Rightarrow> (GovCall \<times> (GovernanceError, u128) res) list \<times> GovernanceEngine" where
  "gov_exec X [] e = ([], e)"
| "gov_exec X (c # cs) e = (case gov_call X c e of (r, e1) \<Rightarrow> case gov_exec X cs e1 of (log, e') \<Rightarrow> ((c, r) # log, e'))"

lemma gov_exec_run:
  "fst (gov_exec X cs e) = log \<Longrightarrow> list_all (\<lambda>x. snd x \<noteq> Panic) log \<Longrightarrow> gov_run X e log (snd (gov_exec X cs e))"
  by (induction X cs e arbitrary: log rule: gov_exec.induct) (auto split: prod.splits intro: gov_run.intros)

definition account_of :: "char \<Rightarrow> string" where
  "account_of c = ''0x'' @ replicate 20 c"

definition change_content :: ChangeProposalContentV1 where
  "change_content = \<lparr>cp_schema_version = 1, cp_scope_evidence_cid = ''s'', cp_governance_parameter_set_cid = ''g'',
     cp_parent_canonical_ecosystem_cid = ''old'', cp_candidate_ecosystem_cid = ''new'', cp_affected_repositories = [],
     cp_changed_file_count = 1, cp_patch_bytes = 1, cp_source_package_bytes = 1, cp_description_bytes = 1,
     cp_migration_operation_count = 0, cp_base_source_cids = bt_empty, cp_candidate_source_cids = bt_empty,
     cp_patch_cid = ''p'', cp_review_round_id = ''r'', cp_proposer_address = account_of CHR ''p'',
     cp_proposal_bond_atoms = 10, cp_risk_class = Normal, cp_rationale_cid = ''r'', cp_migration_notes_cid = ''m'',
     cp_test_plan_cid = ''t'', cp_rollback_manifest_cid = ''b'', cp_rollback_instructions_cid = ''i'',
     cp_release_manifest_cid = None, cp_critical_finding_waiver_cid = None, cp_agent_review_root = ''x'',
     cp_build_attestation_root = ''y'', cp_data_availability_root = ''z'', cp_creation_block = 1, cp_creation_epoch = 1,
     cp_staking_epoch = 2, cp_identity_metrics_epoch = 1, cp_candidate_identity_metrics_root = None,
     cp_candidate_identity_metrics_epoch = None, cp_voting_start = 5, cp_voting_end = 10, cp_challenge_end = 30\<rparr>"

definition voter_of_weight :: "u128 \<Rightarrow> VoterSnapshot" where
  "voter_of_weight weight = \<lparr>vs_stake_atoms = 1, vs_status_bps = 10000, vs_state = Human, vs_trust_bps = 10000, vs_weight = weight\<rparr>"

definition provider_bond :: "char \<Rightarrow> DataAvailabilityAttestationInputV1 Bonded" where
  "provider_bond c = \<lparr>bo_input = \<lparr>da_attestation_cid = [c], da_attestation_car = [], da_candidate_ecosystem_cid = ''new'',
       da_provider_id = [c], da_operator_address = account_of c, da_pinset_cid = ''n'', da_verified_cids = [],
       da_probe_result_cid = ''q'', da_available_claim = True, da_expires_at_block = 100, da_bond_atoms = 4\<rparr>,
     bo_settled = False, bo_invalid = False\<rparr>"

definition one_proposal :: "ProposalState \<Rightarrow> GateResults option \<Rightarrow> ProposalRecord" where
  "one_proposal state gates = \<lparr>pr_id = ''1'', pr_state = state, pr_content = change_content,
     pr_proposal_bond_settled = False, pr_agents = bt_empty, pr_builders = bt_empty,
     pr_availability = bt_insert ''c'' (provider_bond CHR ''c'') (bt_insert ''d'' (provider_bond CHR ''d'') bt_empty),
     pr_required_availability_cids = bt_empty, pr_critical_finding_waiver = None,
     pr_voter_snapshot = bt_insert (account_of CHR ''a'') (voter_of_weight 5) (bt_insert (account_of CHR ''b'') (voter_of_weight 3) bt_empty),
     pr_votes = bt_empty, pr_yes_weight = 0, pr_no_weight = 0, pr_abstain_weight = 0, pr_total_registered_weight = 8,
     pr_gates = gates, pr_pending_challenge = None, pr_challenge_end = 30, pr_execution_not_before = 40, pr_execution_expires = 50\<rparr>"

definition one_engine :: "ProposalRecord \<Rightarrow> GovernanceEngine" where
  "one_engine p = \<lparr>ge_canonical_ecosystem_cid = ''old'', ge_governance_parameter_set_cid = ''g'',
     ge_parameters = experimental_defaults, ge_metrics_root = ''m'', ge_metrics_epoch = 1, ge_stakes = bt_empty,
     ge_registered_metrics = bt_empty, ge_review_rounds = bt_empty, ge_active_review_candidates = bt_empty,
     ge_proposals = bt_insert ''1'' p bt_empty, ge_refunds = bt_empty, ge_burned_atoms = 0, ge_events = []\<rparr>"


definition ready_calls :: "GovCall list" where
  "ready_calls = [RegisterStake (account_of CHR ''a'') 7 \<lparr>ck_block = 44, ck_epoch = 2\<rparr>,
     ExecuteProposal ''1'' \<lparr>ck_block = 45, ck_epoch = 2\<rparr>, WithdrawRefund (account_of CHR ''p'')]"

definition passed :: GateResults where
  "passed = (let g = \<lparr>ga_passed = True, ga_reason = ''ok''\<rparr> in \<lparr>gr_pos = g, gr_pohw = g, gr_poaw = g,
     gr_verification_work = g, gr_data_availability = g, gr_accepted = True\<rparr>)"

lemma one_engine_params: "valid_params (one_engine p)"
  by (simp add: valid_params_def one_engine_def defaults_valid)

lemma ready_results:
  "fst (gov_exec identity_hash ready_calls (one_engine (one_proposal AcceptedPendingExecution (Some passed)))) = zip ready_calls [Ok 0, Ok 0, Ok 10]"
  by code_simp

definition vote_calls :: "GovCall list" where
  "vote_calls = [CastVote ''1'' (account_of CHR ''a'') Yes \<lparr>ck_block = 6, ck_epoch = 2\<rparr>,
     CastVote ''1'' (account_of CHR ''a'') No \<lparr>ck_block = 7, ck_epoch = 2\<rparr>]"

lemma vote_results:
  "fst (gov_exec identity_hash vote_calls (one_engine (one_proposal VotingOpen None))) = zip vote_calls [Ok 0, Ok 0]"
  by code_simp

lemma one_engine_stored: "bt_get (ge_proposals (one_engine p)) pid = (if pid = ''1'' then Some p else None)"
  by (simp add: one_engine_def)

lemma ready_run:
  "gov_run identity_hash (one_engine (one_proposal AcceptedPendingExecution (Some passed))) (zip ready_calls [Ok 0, Ok 0, Ok 10])
    (snd (gov_exec identity_hash ready_calls (one_engine (one_proposal AcceptedPendingExecution (Some passed)))))"
  by (rule gov_exec_run [OF ready_results]) (simp add: ready_calls_def)

lemma vote_run:
  "gov_run identity_hash (one_engine (one_proposal VotingOpen None)) (zip vote_calls [Ok 0, Ok 0])
    (snd (gov_exec identity_hash vote_calls (one_engine (one_proposal VotingOpen None))))"
  by (rule gov_exec_run [OF vote_results]) (simp add: vote_calls_def)

theorem atoms_conserved_witness:
  "held (snd (gov_exec identity_hash ready_calls (one_engine (one_proposal AcceptedPendingExecution (Some passed))))) + 10
    = held (one_engine (one_proposal AcceptedPendingExecution (Some passed))) + 7"
  using atoms_conserved [OF ready_run one_engine_params] by (simp add: ready_calls_def)

theorem canonical_history_witness:
  "\<exists>events. ge_events (snd (gov_exec identity_hash ready_calls (one_engine (one_proposal AcceptedPendingExecution (Some passed))))) = events
    \<and> linked ''old'' events (ge_canonical_ecosystem_cid (snd (gov_exec identity_hash ready_calls
        (one_engine (one_proposal AcceptedPendingExecution (Some passed))))))"
proof -
  have "gates_ok p" if "bt_get (ge_proposals (one_engine (one_proposal AcceptedPendingExecution (Some passed)))) pid = Some p" for pid p
    using that by (auto simp: one_engine_stored gates_ok_def one_proposal_def passed_def Let_def split: if_splits)
  from canonical_history [OF ready_run one_engine_params this] show ?thesis by (auto simp: one_engine_def)
qed

theorem votes_counted_once_witness:
  "\<exists>p'. bt_get (ge_proposals (snd (gov_exec identity_hash vote_calls (one_engine (one_proposal VotingOpen None))))) ''1'' = Some p'
    \<and> unat (pr_yes_weight p') = vote_sum Yes (pr_votes p') \<and> unat (pr_no_weight p') = vote_sum No (pr_votes p')"
proof -
  have p: "bt_get (ge_proposals (one_engine (one_proposal VotingOpen None))) ''1'' = Some (one_proposal VotingOpen None)"
    by (simp add: one_engine_stored)
  have "tally_ok (one_proposal VotingOpen None)" by (simp add: tally_ok_def one_proposal_def vote_sum_def)
  from votes_counted_once [OF vote_run one_engine_params p this] show ?thesis by blast
qed

definition staked_engine :: GovernanceEngine where
  "staked_engine = snd (gov_exec identity_hash (take 1 ready_calls) (one_engine (one_proposal AcceptedPendingExecution (Some passed))))"

lemma staked_run:
  "gov_run identity_hash (one_engine (one_proposal AcceptedPendingExecution (Some passed))) (zip (take 1 ready_calls) [Ok 0]) staked_engine"
proof -
  have "fst (gov_exec identity_hash (take 1 ready_calls) (one_engine (one_proposal AcceptedPendingExecution (Some passed))))
      = zip (take 1 ready_calls) [Ok 0]"
    by code_simp
  then show ?thesis unfolding staked_engine_def by (rule gov_exec_run) (simp add: ready_calls_def)
qed

lemma staked_execution:
  "fst (gov_call identity_hash (ready_calls ! 1) staked_engine) = Ok 0"
  "map_option pr_state (bt_get (ge_proposals (snd (gov_call identity_hash (ready_calls ! 1) staked_engine))) ''1'') = Some Executed"
  by code_simp+

theorem proposal_lifecycle_witness:
  "\<exists>p1 p2. bt_get (ge_proposals staked_engine) ''1'' = Some p1
    \<and> bt_get (ge_proposals (snd (gov_call identity_hash (ready_calls ! 1) staked_engine))) ''1'' = Some p2
    \<and> (p2 = p1 \<or> call_edge (ready_calls ! 1) ''1'' (pr_state p1) (pr_state p2))
    \<and> pr_state p2 = Executed \<and> pr_content p2 = change_content"
proof -
  have p: "bt_get (ge_proposals (one_engine (one_proposal AcceptedPendingExecution (Some passed)))) ''1''
      = Some (one_proposal AcceptedPendingExecution (Some passed))"
    by (simp add: one_engine_stored)
  have call: "gov_call identity_hash (ready_calls ! 1) staked_engine
      = (Ok 0, snd (gov_call identity_hash (ready_calls ! 1) staked_engine))"
    using staked_execution(1) by (metis prod.collapse)
  from proposal_lifecycle [OF staked_run call _ one_engine_params p] staked_execution(2)
  show ?thesis by (auto simp: one_proposal_def)
qed

section \<open>A missed finalisation\<close>

text \<open>
  A proposal whose voting was not finalised by the block its content names as the end of the challenge
  period stays in the voting state for good as long as its parent is canonical: finalisation and expiry
  both fail with \<open>InvalidDeadline\<close>, and it cannot be marked stale, so its bonds stay locked.
\<close>

lemma missed_finalisation_stuck:
  assumes "bt_get (ge_proposals e) pid = Some p" and "pr_state p = VotingOpen"
    and "cp_parent_canonical_ecosystem_cid (pr_content p) = ge_canonical_ecosystem_cid e"
    and "cp_challenge_end (pr_content p) < ck_block clock"
  shows "finalize_voting X pid clock e = (Err GE_InvalidDeadline, e)" "expire_proposal X pid clock e = (Err GE_InvalidDeadline, e)"
    "mark_stale X pid e = (Err GE_InvalidProposal, e)"
proof -
  note defs = finalize_voting_def expire_proposal_def mark_stale_def unless_stale_def with_atomic_state_def
    proposal_mut_def require_state_def proposal_expired_def bindA_def readA_def throwA_def
  show "finalize_voting X pid clock e = (Err GE_InvalidDeadline, e)" "expire_proposal X pid clock e = (Err GE_InvalidDeadline, e)"
    "mark_stale X pid e = (Err GE_InvalidProposal, e)"
    using assms by (simp_all add: defs)
qed

end
