(* ===== verification/Spec2Isabelle.thy ===== *)
theory Spec2Isabelle
  imports Payout Withdrawal Ledger Rewards Snapshot Anchor Commitment Sharechain ReplayProps GovMetrics GovProps
begin

text \<open>
  A verification development of the proof-of-human-work Bitcoin pool under \<open>src/crates\<close>: the consensus
  library \<open>pohw-core\<close> and the decision rules of \<open>governance-core\<close>.

  \<^bold>\<open>The program.\<close> Miners exchange signed messages: registrations, Bitcoin work templates, shares, snapshot
  votes, payout schedules, withdrawal requests and batches. Every node replays them into the same state
  (\<open>sharechain_state.rs\<close>): a tree of shares with one active branch, hashrate scores, checkpoints that
  finalise a prefix, and a ledger of claims on the vault. A found block pays its reward half by hashrate
  score and half by Idena score (\<open>payout.rs\<close>), small balances go to the vault (\<open>ledger.rs\<close>) and leave it by
  withdrawal batches (\<open>withdrawal.rs\<close>). Anchors tie shares and checkpoints to the Idena chain
  (\<open>idena_anchor.rs\<close>), and a commitment in the coinbase ties the block to the replayed state
  (\<open>commitment.rs\<close>, \<open>share_work.rs\<close>). Separately, the governance engine (\<open>governance-core/src/lifecycle.rs\<close>)
  decides by staked votes and bonded attestations which source tree is canonical.

  \<^bold>\<open>Conventions.\<close> A fallible function returns \<open>('e, 'a) res\<close> with the constructors \<open>Ok\<close>, \<open>Err\<close> and
  \<open>Panic\<close> (\<open>expect\<close>, \<open>assert!\<close>, overflow in debug); a \<open>&mut self\<close> method is an action \<open>'s \<Rightarrow> ('e, 'a) res \<times> 's\<close>
  whose state is also returned on failure. Machine integers are words of their width with checked and
  saturating operations, \<open>usize\<close> is \<open>nat\<close>, strings are lists of characters, \<open>BTreeMap\<close> and \<open>BTreeSet\<close> are
  the ordered maps of \<open>BTree\<close>. Third-party functions (SHA-256, hex, serde serialisation, secp256k1, CID
  parsing, transaction decoding) are the fields of the record \<open>extern\<close>, a parameter \<open>X\<close> of the definitions.
  What a theorem needs of them is a named hypothesis (\<open>hex_roundtrip\<close>, \<open>digest_32\<close>, \<open>no_zero_share_hash\<close>,
  absence of collisions on the inputs at hand), and its witness instantiates them by a concrete function.

  \<^bold>\<open>Libraries.\<close> \<open>Prelude\<close> (results, actions, words), \<open>Ascii\<close> (string functions of the standard library, decimal
  numbers), \<open>BTree\<close> (ordered maps, locale \<open>ordered_map\<close>), \<open>Order\<close> (comparators, stable sorting, checked
  sums), \<open>Extern\<close> (third-party functions, JSON values, locale \<open>canonical_digest\<close>: a value and its normal
  form have one digest).

  \<^bold>\<open>Theories of pohw-core.\<close>
  \<^item> \<open>Merkle\<close> (\<open>merkle.rs\<close>): roots; equal roots over lists of one length mean equal leaves or a collision.
  \<^item> \<open>Payout\<close> (\<open>payout.rs\<close>): the largest-remainder split, direct payouts, the vault share, validation. Shown:
    the split refines an abstract apportionment and equals the closed form \<open>largest_remainder\<close>, schedules
    distribute exactly the reward, building never panics and succeeds exactly when the pools can be split
    and no balance overflows by its closed-form share, built schedules validate, direct outputs go to the
    highest balances.
  \<^item> \<open>Withdrawal\<close> (\<open>withdrawal.rs\<close>), \<open>Ledger\<close> (\<open>ledger.rs\<close>): requests, fees and batches; balances, reservations and
    payments. Shown: fee accounting, order independence, conservation of claims along every run of the
    ledger, no second reservation for a nonce.
  \<^item> \<open>Rewards\<close> (\<open>replay.rs\<close>), \<open>Snapshot\<close> (\<open>snapshot.rs\<close>): scores from reward events; snapshots and when they verify.
  \<^item> \<open>Anchor\<close> (\<open>idena_anchor.rs\<close>): records, policy, checkpoints. Shown: printed records parse back, quorums of
    two checkpoints intersect (locale \<open>two_thirds_quorum\<close>), the height window of live anchors.
  \<^item> \<open>Commitment\<close> (\<open>commitment.rs\<close>), \<open>ShareWork\<close> (\<open>share_work.rs\<close>), \<open>GossipId\<close> (network ids of \<open>gossip.rs\<close>).
    Shown of commitments: the script is well formed, the commitment built from a well-formed context is
    accepted, and the scripts of accepted commitments agree exactly when their contexts do, up to collisions.
  \<^item> \<open>Sharechain\<close> (\<open>sharechain.rs\<close>): the messages, their field and signature checks and their hashes. Shown: a
    message hash identifies the normal form of the message up to collisions.
  \<^item> \<open>ReplayState\<close> (\<open>sharechain_state.rs\<close>): the state record \<open>SharechainReplayState\<close> and every operation on it.
    \<open>ReplayTree\<close> proves that adding and resolving a share keeps the tree consistent, \<open>ReplayInv\<close> lifts
    invariants to all reachable states (locales \<open>replay_kept\<close> and \<open>replay_invariant\<close>), \<open>ReplayRun\<close> evaluates a
    concrete run, \<open>ReplayProps\<close> states the properties: convergence, fork choice, accounting of the active
    branch, finality of checkpoints, resolution of late shares, single effect of messages, stability of
    registrations, conservation of claims.

  \<^bold>\<open>Theories of governance-core.\<close>
  \<^item> \<open>GovMath\<close> (\<open>math.rs\<close>, \<open>identity.rs\<close>, \<open>gates.rs\<close>): vote weights and acceptance gates; the bisection and the
    long-division loop compute the exact floor, and the gates decide by exact inequalities.
  \<^item> \<open>MerkleProof\<close>, \<open>GovMetrics\<close> (\<open>metrics.rs\<close>): identity metrics snapshots and inclusion proofs, complete and
    binding.
  \<^item> \<open>GovTypes\<close>, \<open>GovCommit\<close>, \<open>GovEngine\<close> (\<open>types.rs\<close>, \<open>lifecycle.rs\<close>): parameters, the engine's state, attestation
    commitments and the engine's operations. \<open>GovSettle\<close> accounts for the atoms of each settlement, \<open>GovRun\<close>
    relates the engine before and after every call (\<open>engine_next\<close>, with the moves of the lifecycle each call
    may make in \<open>call_edge\<close>), and \<open>GovProps\<close> lifts this to all runs
    (locale \<open>run_relation\<close>): conservation of atoms, history of the canonical tree, vote totals, lifecycle.

  \<^bold>\<open>Loops and fuel.\<close> Loops are structural recursions or functions with a termination proof (the walk to the
  root of the share tree shrinks the set of unseen shares; bisection shrinks its interval). The queue of
  \<open>resolve_queue\<close> carries fuel, the number of stored shares: a share enters the queue at most once, when its
  parent is resolved, and \<open>apply_share_returns\<close> shows that the fuel never runs out in a reachable state.

  \<^bold>\<open>Deviations found.\<close> \<open>valid_checkpoint_unreadable\<close> (a valid checkpoint whose record is too long to be read),
  \<open>conflicting_template_replaces\<close> and \<open>expired_request_stored\<close> (\<open>ReplayProps\<close>), \<open>missed_finalisation_stuck\<close>
  (\<open>GovProps\<close>: a vote finalised too late can never be closed), \<open>merkle_root_repeats_last\<close> (why callers must
  reject repeated leaves).

  \<^bold>\<open>Not modelled.\<close> In \<open>governance-core\<close>: opening and freezing review rounds, submitting attestations, creating
  proposals, waivers, metrics certification and the packaging of sources and releases decode
  content-addressed CAR and DAG-CBOR files, whose codecs are interwoven with the code; runs of the
  engine therefore start from an arbitrary engine, with proposals and rounds in it. In \<open>pohw-core\<close>:
  \<open>vault.rs\<close>, \<open>vault_tx.rs\<close>, \<open>vault_frost.rs\<close> and \<open>dkg_transport.rs\<close> drive the threshold-signature, Bitcoin and
  encryption crates; \<open>fork.rs\<close> and \<open>consensus_identity.rs\<close> belong to a separate fork network, which the replay does not read; of \<open>gossip.rs\<close> only the
  network ids are modelled. The node, the indexer, the command lines, the agent, the dashboard and the
  Python tools are input and output around the library; the AssemblyScript contracts run on the Idena
  chain.
\<close>

end
